(* ===== verification/Prelude.thy ===== *)
theory Prelude
  imports Main "HOL-Library.Word" "HOL-Library.AList" "HOL-Library.List_Lexorder"
    "HOL-Library.Char_ord"
begin

text \<open>
  What every component of the development shares: the names of the machine types of the Rust
  sources, the two dictionary types of the program with one interface for both
  (\<open>std::collections::HashMap\<close>, an association list with distinct keys whose iteration order
  is never used directly, and \<open>serde_json::Map\<close>, a \<open>BTreeMap\<close>, an association list sorted by
  key), the \<open>?\<close> operator on results, and the list facts on searching and cutting byte
  slices that the parsers rest on.
\<close>

section \<open>Types and collections of facts\<close>

type_synonym u8 = "8 word"
type_synonym u16 = "16 word"
type_synonym u32 = "32 word"
type_synonym u64 = "64 word"
type_synonym bytes = "char list"
type_synonym ('e, 'a) result = "'e + 'a"

named_theorems slice_simps \<open>searching and cutting byte slices\<close>
named_theorems dict_simps \<open>lookup in updated dictionaries\<close>
named_theorems utf8_intros \<open>closure of valid UTF-8\<close>

abbreviation NL :: char where "NL \<equiv> CHR 0x0A"
abbreviation CR :: char where "CR \<equiv> CHR 0x0D"
abbreviation NUL :: char where "NUL \<equiv> CHR 0x00"
abbreviation TAB :: char where "TAB \<equiv> CHR 0x09"
abbreviation COLON :: char where "COLON \<equiv> CHR '':''"
abbreviation BSLASH :: char where "BSLASH \<equiv> CHR 0x5C"
abbreviation SLASH :: char where "SLASH \<equiv> CHR ''/''"
abbreviation DQUOTE :: char where "DQUOTE \<equiv> CHR 0x22"
abbreviation SQUOTE :: char where "SQUOTE \<equiv> CHR 0x27"

lemma u64_bound: "unat (n :: u64) < 18446744073709551616"
  by (rule order.strict_trans2 [OF unsigned_less]) simp

lemma u64_succ_wraps: "unat (n + 1 :: u64) \<noteq> Suc (unat n) \<Longrightarrow> unat n = 18446744073709551615"
proof -
  assume neq: "unat (n + 1) \<noteq> Suc (unat n)"
  have "unat (n + 1) = Suc (unat n) mod 18446744073709551616"
    using unat_word_ariths(1) [of n 1] by simp
  with neq have "\<not> Suc (unat n) < 18446744073709551616" by auto
  with u64_bound [of n] show ?thesis by simp
qed

section \<open>Results\<close>

text \<open>The \<open>?\<close> operator: return the error at once, go on with the value otherwise.\<close>

definition and_then :: "('e, 'a) result \<Rightarrow> ('a \<Rightarrow> ('e, 'b) result) \<Rightarrow> ('e, 'b) result" where
  "and_then r f = (case r of Inl e \<Rightarrow> Inl e | Inr a \<Rightarrow> f a)"

lemma and_then_simps [simp]:
  "and_then (Inl e) f = Inl e"
  "and_then (Inr a) f = f a"
  by (simp_all add: and_then_def)

lemma and_then_Inr_iff: "and_then r f = Inr b \<longleftrightarrow> (\<exists>a. r = Inr a \<and> f a = Inr b)"
  by (cases r) auto

definition unwrap_or :: "'a \<Rightarrow> 'a option \<Rightarrow> 'a" where
  "unwrap_or d x = (case x of None \<Rightarrow> d | Some a \<Rightarrow> a)"

lemma unwrap_or_simps [simp]: "unwrap_or d None = d" "unwrap_or d (Some a) = a"
  by (simp_all add: unwrap_or_def)

section \<open>Slices\<close>

text \<open>\<open>iter().position(|&b| b == c)\<close>, the \<open>memchr\<close> of \<open>stomp.rs\<close>.\<close>

fun find_byte :: "'a \<Rightarrow> 'a list \<Rightarrow> nat option" where
  "find_byte c [] = None"
| "find_byte c (x # xs) = (if x = c then Some 0 else map_option Suc (find_byte c xs))"

lemma find_byte_None [slice_simps]: "find_byte c xs = None \<longleftrightarrow> c \<notin> set xs"
  by (induction xs) auto

lemma find_byte_skip [slice_simps]:
  "c \<notin> set xs \<Longrightarrow> find_byte c (xs @ ys) = (case find_byte c ys of None \<Rightarrow> None | Some i \<Rightarrow> Some (length xs + i))"
  by (induction xs) (auto split: option.splits)

lemma find_byte_here [slice_simps]: "c \<notin> set xs \<Longrightarrow> find_byte c (xs @ c # ys) = Some (length xs)"
  by (simp add: find_byte_skip)

lemma find_byte_split:
  "find_byte c xs = Some i \<Longrightarrow> xs = take i xs @ c # drop (Suc i) xs \<and> c \<notin> set (take i xs) \<and> i < length xs"
  by (induction xs arbitrary: i) (auto split: if_splits)

lemma find_byte_SomeE:
  assumes "find_byte c xs = Some i"
  obtains pre post where "xs = pre @ c # post" "c \<notin> set pre" "i = length pre"
proof
  note s = find_byte_split [OF assms]
  show "xs = take i xs @ c # drop (Suc i) xs" "c \<notin> set (take i xs)" using s by blast+
  show "i = length (take i xs)" using s by simp
qed

lemma find_byte_less: "find_byte c xs = Some i \<Longrightarrow> i < length xs"
  using find_byte_split by metis

lemma find_byte_stable [slice_simps]:
  "find_byte c xs = Some i \<Longrightarrow> find_byte c (xs @ ys) = Some i"
  by (induction xs arbitrary: i) (auto split: if_splits)

lemma find_in_set: "find P xs = Some x \<Longrightarrow> x \<in> set xs \<and> P x"
  by (induction xs) (auto split: if_splits)

text \<open>\<open>Iterator::next\<close> on a fresh iterator, and \<open>Iterator::find_map\<close>.\<close>

definition opt_hd :: "'a list \<Rightarrow> 'a option" where
  "opt_hd xs = (case xs of [] \<Rightarrow> None | x # _ \<Rightarrow> Some x)"

definition find_map :: "('a \<Rightarrow> 'b option) \<Rightarrow> 'a list \<Rightarrow> 'b option" where
  "find_map f xs = opt_hd (List.map_filter f xs)"

text \<open>\<open>str::replace(c, with)\<close> for a single character.\<close>

definition replace_char :: "char \<Rightarrow> string \<Rightarrow> string \<Rightarrow> string" where
  "replace_char c w s = concat (map (\<lambda>x. if x = c then w else [x]) s)"

lemma replace_char_simps [simp]:
  "replace_char c w [] = []"
  "replace_char c w (x # xs) = (if x = c then w else [x]) @ replace_char c w xs"
  "replace_char c w (xs @ ys) = replace_char c w xs @ replace_char c w ys"
  by (simp_all add: replace_char_def)

lemma replace_char_absent: "c \<notin> set w \<Longrightarrow> c \<notin> set (replace_char c w s)"
  by (induction s) auto

lemma replace_char_id: "c \<notin> set s \<Longrightarrow> replace_char c w s = s"
  by (induction s) auto

definition starts_with :: "'a list \<Rightarrow> 'a list \<Rightarrow> bool" where
  "starts_with p s \<longleftrightarrow> take (length p) s = p"

lemma starts_with_iff: "starts_with p s \<longleftrightarrow> (\<exists>r. s = p @ r)"
  by (metis append_eq_conv_conj append_take_drop_id starts_with_def)

lemma starts_with_code [code, simp]:
  "starts_with [] s = True"
  "starts_with (x # p) [] = False"
  "starts_with (x # p) (y # s) = (x = y \<and> starts_with p s)"
  by (auto simp: starts_with_def)

lemma starts_with_append [simp]: "starts_with p (p @ r)"
  by (simp add: starts_with_def)

definition ends_with :: "'a list \<Rightarrow> 'a list \<Rightarrow> bool" where
  "ends_with p s \<longleftrightarrow> starts_with (rev p) (rev s)"

text \<open>\<open>s.contains(pat)\<close> for a string pattern: the pattern starts at some position.\<close>

fun has_substr :: "'a list \<Rightarrow> 'a list \<Rightarrow> bool" where
  "has_substr p [] = (p = [])"
| "has_substr p (x # s) = (starts_with p (x # s) \<or> has_substr p s)"

lemma has_substr_iff: "has_substr p s \<longleftrightarrow> (\<exists>a b. s = a @ p @ b)"
proof (induction s)
  case Nil
  then show ?case by auto
next
  case (Cons x s)
  have "has_substr p (x # s) \<longleftrightarrow> (\<exists>r. x # s = p @ r) \<or> (\<exists>a b. s = a @ p @ b)"
    by (simp only: has_substr.simps starts_with_iff Cons.IH)
  also have "\<dots> \<longleftrightarrow> (\<exists>a b. x # s = a @ p @ b)"
    by (metis append_Cons append_Nil list.inject neq_Nil_conv)
  finally show ?case .
qed

text \<open>\<open>strip_prefix\<close> and \<open>strip_suffix\<close>.\<close>

definition strip_prefix :: "'a list \<Rightarrow> 'a list \<Rightarrow> 'a list option" where
  "strip_prefix p s = (if starts_with p s then Some (drop (length p) s) else None)"

definition strip_suffix :: "'a list \<Rightarrow> 'a list \<Rightarrow> 'a list option" where
  "strip_suffix p s =
     (if ends_with p s then Some (take (length s - length p) s) else None)"

lemma strip_prefix_append [simp]: "strip_prefix p (p @ r) = Some r"
  by (simp add: strip_prefix_def)

lemma strip_suffix_append [simp]: "strip_suffix p (r @ p) = Some r"
  by (simp add: strip_suffix_def ends_with_def)

section \<open>Dictionaries\<close>

text \<open>
  One interface for the dictionaries of the program. A client that only looks up, inserts and
  removes is verified once, here, and holds for either representation.
\<close>

locale dict =
  fixes lookup :: "'d \<Rightarrow> 'k \<Rightarrow> 'v option"
    and insert_kv :: "'k \<Rightarrow> 'v \<Rightarrow> 'd \<Rightarrow> 'd"
    and remove_k :: "'k \<Rightarrow> 'd \<Rightarrow> 'd"
    and empty_d :: "'d"
    and dict_ok :: "'d \<Rightarrow> bool"
  assumes lookup_empty: "lookup empty_d k = None"
    and lookup_insert: "dict_ok d \<Longrightarrow> lookup (insert_kv k v d) k' = (if k' = k then Some v else lookup d k')"
    and lookup_remove: "dict_ok d \<Longrightarrow> lookup (remove_k k d) k' = (if k' = k then None else lookup d k')"
    and ok_empty: "dict_ok empty_d"
    and ok_insert: "dict_ok d \<Longrightarrow> dict_ok (insert_kv k v d)"
    and ok_remove: "dict_ok d \<Longrightarrow> dict_ok (remove_k k d)"
begin

text \<open>Filling a dictionary from a list of bindings, the last binding of a key winning.\<close>

abbreviation fill :: "('k \<times> 'v) list \<Rightarrow> 'd \<Rightarrow> 'd" where
  "fill kvs d \<equiv> foldl (\<lambda>m (k, v). insert_kv k v m) d kvs"

lemma fill_ok: "dict_ok d \<Longrightarrow> dict_ok (fill kvs d)"
  by (induction kvs arbitrary: d) (auto simp: ok_insert)

lemma lookup_fill:
  "dict_ok d \<Longrightarrow>
   lookup (fill kvs d) k = (case map_of (rev kvs) k of Some v \<Rightarrow> Some v | None \<Rightarrow> lookup d k)"
  by (induction kvs arbitrary: d) (auto simp: lookup_insert ok_insert map_add_def split: option.splits)

lemma lookup_fill_distinct:
  assumes "distinct (map fst kvs)" "(k, v) \<in> set kvs" "dict_ok d"
  shows "lookup (fill kvs d) k = Some v"
proof -
  have "map_of (rev kvs) k = Some v"
    using assms(1,2) by (simp add: rev_map [symmetric] map_of_eq_Some_iff)
  then show ?thesis using assms(3) by (simp add: lookup_fill)
qed

lemma lookup_fill_absent:
  assumes "k \<notin> fst ` set kvs" "dict_ok d"
  shows "lookup (fill kvs d) k = lookup d k"
proof -
  have "map_of (rev kvs) k = None" using assms(1) by (auto simp: map_of_eq_None_iff)
  then show ?thesis using assms(2) by (simp add: lookup_fill)
qed

end

text \<open>\<open>std::collections::HashMap\<close>.\<close>

type_synonym ('k, 'v) hmap = "('k \<times> 'v) list"

definition hm_ok :: "('k, 'v) hmap \<Rightarrow> bool" where
  "hm_ok m \<longleftrightarrow> distinct (map fst m)"

abbreviation hm_get :: "('k, 'v) hmap \<Rightarrow> 'k \<Rightarrow> 'v option" where
  "hm_get m k \<equiv> map_of m k"

abbreviation hm_insert :: "'k \<Rightarrow> 'v \<Rightarrow> ('k, 'v) hmap \<Rightarrow> ('k, 'v) hmap" where
  "hm_insert \<equiv> AList.update"

abbreviation hm_remove :: "'k \<Rightarrow> ('k, 'v) hmap \<Rightarrow> ('k, 'v) hmap" where
  "hm_remove \<equiv> AList.delete"

interpretation hm: dict map_of AList.update AList.delete "[]" hm_ok
  by unfold_locales
    (auto simp: hm_ok_def update_conv' delete_conv' distinct_update distinct_delete)

text \<open>
  \<open>serde_json::Map\<close> without the \<open>preserve_order\<close> feature: a \<open>BTreeMap<String, Value>\<close>, so
  iteration is in the byte order of the keys.
\<close>

type_synonym 'v bmap = "(string \<times> 'v) list"

fun bm_insert :: "'k::linorder \<Rightarrow> 'v \<Rightarrow> ('k \<times> 'v) list \<Rightarrow> ('k \<times> 'v) list" where
  "bm_insert k v [] = [(k, v)]"
| "bm_insert k v ((k', v') # m) =
     (if k < k' then (k, v) # (k', v') # m
      else if k = k' then (k, v) # m
      else (k', v') # bm_insert k v m)"

definition bm_remove :: "'k::linorder \<Rightarrow> ('k \<times> 'v) list \<Rightarrow> ('k \<times> 'v) list" where
  "bm_remove k m = filter (\<lambda>(k', v). k' \<noteq> k) m"

definition bm_ok :: "('k::linorder \<times> 'v) list \<Rightarrow> bool" where
  "bm_ok m \<longleftrightarrow> sorted_wrt (<) (map fst m)"

lemma map_of_bm_insert: "map_of (bm_insert k v m) k' = (if k' = k then Some v else map_of m k')"
  by (induction m) auto

lemma keys_bm_insert: "fst ` set (bm_insert k v m) = insert k (fst ` set m)"
proof (induction m)
  case (Cons p m)
  then show ?case by (cases p) (auto simp: insert_commute)
qed simp

lemma bm_ok_insert: "bm_ok m \<Longrightarrow> bm_ok (bm_insert k v m)"
proof (induction m)
  case Nil
  then show ?case by (simp add: bm_ok_def)
next
  case (Cons p m)
  obtain k' v' where p: "p = (k', v')" by fastforce
  have "\<forall>x \<in> fst ` set m. k' < x" "bm_ok m"
    using Cons.prems by (auto simp: p bm_ok_def)
  with Cons.IH show ?case
    using keys_bm_insert [of k v m] by (auto simp: p bm_ok_def)
qed

lemma map_of_filter_key: "map_of (filter (\<lambda>(k', v). k' \<noteq> k) m) k'' = (if k'' = k then None else map_of m k'')"
  by (induction m) auto

lemma bm_ok_remove: "bm_ok m \<Longrightarrow> bm_ok (bm_remove k m)"
  by (simp add: bm_ok_def bm_remove_def sorted_wrt_map sorted_wrt_filter)

interpretation bm: dict map_of bm_insert bm_remove "[]" "bm_ok :: ('k::linorder \<times> 'v) list \<Rightarrow> bool"
proof unfold_locales
  show "bm_ok ([] :: ('k \<times> 'v) list)" by (simp add: bm_ok_def)
qed (simp_all add: map_of_bm_insert bm_ok_insert bm_ok_remove, simp add: bm_remove_def map_of_filter_key)

lemmas dict_lookups = hm.lookup_insert hm.lookup_remove bm.lookup_insert bm.lookup_remove

end
