(* ===== verification/Rust_Str.thy ===== *)
theory Rust_Str
  imports Prelude
begin

text \<open>
  The part of \<open>core::str\<close> the sources use. A Rust \<open>String\<close> or \<open>&str\<close> is a byte sequence that
  is valid UTF-8, and an Isabelle \<open>char\<close> is a byte, so a \<open>string\<close> of the model is the byte
  sequence itself: \<open>len()\<close> is \<open>length\<close>, slicing is \<open>take\<close> and \<open>drop\<close>, and searching for an
  ASCII character byte by byte is what \<open>str\<close> does, because the bytes of a multi-byte
  character are all above 0x7F. Validity (\<open>std::str::from_utf8\<close>), the lossy conversion
  (\<open>String::from_utf8_lossy\<close>), white space in the Unicode sense (\<open>trim\<close>,
  \<open>split_whitespace\<close>), \<open>lines\<close>, \<open>split_once\<close>, number parsing and number printing are defined
  here.
\<close>

section \<open>UTF-8\<close>

abbreviation byte :: "char \<Rightarrow> nat" where "byte c \<equiv> of_char c"

definition is_cont :: "char \<Rightarrow> bool" where
  "is_cont c \<longleftrightarrow> 128 \<le> byte c \<and> byte c \<le> 191"

text \<open>
  One step of \<open>core::str::validations\<close>: the length of the character that starts here, or the
  length of the invalid sequence (\<open>error_len\<close>), or that the input ends inside a character.
\<close>

datatype utf8_step = Valid nat | Invalid nat | Truncated

text \<open>The second byte's range depends on the first (no overlong forms, no surrogates).\<close>

definition second_ok :: "nat \<Rightarrow> nat \<Rightarrow> bool" where
  "second_ok b b2 \<longleftrightarrow>
     (if b = 224 then 160 \<le> b2 \<and> b2 \<le> 191
      else if b = 237 then 128 \<le> b2 \<and> b2 \<le> 159
      else if b = 240 then 144 \<le> b2 \<and> b2 \<le> 191
      else if b = 244 then 128 \<le> b2 \<and> b2 \<le> 143
      else 128 \<le> b2 \<and> b2 \<le> 191)"

fun utf8_rest :: "nat \<Rightarrow> nat \<Rightarrow> bytes \<Rightarrow> utf8_step" where
  "utf8_rest done 0 rest = Valid done"
| "utf8_rest done (Suc n) [] = Truncated"
| "utf8_rest done (Suc n) (c # rest) = (if is_cont c then utf8_rest (Suc done) n rest else Invalid done)"

definition utf8_step :: "char \<Rightarrow> bytes \<Rightarrow> utf8_step" where
  "utf8_step c rest =
     (let b = byte c in
      if b < 128 then Valid 1
      else if b < 194 \<or> 244 < b then Invalid 1
      else case rest of
             [] \<Rightarrow> Truncated
           | c2 # rest' \<Rightarrow>
               if \<not> second_ok b (byte c2) then Invalid 1
               else utf8_rest 2 (if b < 224 then 0 else if b < 240 then 1 else 2) rest')"

lemma utf8_rest_Valid: "utf8_rest d n r = Valid k \<Longrightarrow> k = d + n \<and> n \<le> length r"
  by (induction d n r rule: utf8_rest.induct) (auto split: if_splits)

lemma utf8_rest_Invalid: "utf8_rest d n r = Invalid k \<Longrightarrow> d \<le> k \<and> k \<le> d + length r"
  by (induction d n r rule: utf8_rest.induct) (auto split: if_splits)

lemma utf8_rest_append: "utf8_rest d n r = Valid k \<Longrightarrow> utf8_rest d n (r @ s) = Valid k"
  by (induction d n r rule: utf8_rest.induct) (auto split: if_splits)

lemma utf8_step_Valid: "utf8_step c r = Valid k \<Longrightarrow> 1 \<le> k \<and> k \<le> Suc (length r)"
  by (auto simp: utf8_step_def Let_def split: if_splits list.splits dest!: utf8_rest_Valid)

lemma utf8_step_Invalid: "utf8_step c r = Invalid k \<Longrightarrow> 1 \<le> k \<and> k \<le> Suc (length r)"
  by (auto simp: utf8_step_def Let_def split: if_splits list.splits dest!: utf8_rest_Invalid)

lemma utf8_step_append: "utf8_step c r = Valid k \<Longrightarrow> utf8_step c (r @ s) = Valid k"
  by (auto simp: utf8_step_def Let_def split: if_splits list.splits dest: utf8_rest_append)

lemma utf8_step_ascii [simp]: "byte c < 128 \<Longrightarrow> utf8_step c r = Valid 1"
  by (simp add: utf8_step_def)

text \<open>\<open>Utf8Error\<close>: \<open>valid_up_to\<close> and \<open>error_len\<close>.\<close>

datatype utf8_error = Utf8Error nat "nat option"

function utf8_check :: "nat \<Rightarrow> bytes \<Rightarrow> utf8_error option" where
  "utf8_check i [] = None"
| "utf8_check i (c # r) =
     (case utf8_step c r of
        Valid k \<Rightarrow> utf8_check (i + k) (drop (k - 1) r)
      | Invalid k \<Rightarrow> Some (Utf8Error i (Some k))
      | Truncated \<Rightarrow> Some (Utf8Error i None))"
  by pat_completeness auto
termination
  by (relation "measure (\<lambda>(i, s). length s)") auto

text \<open>\<open>std::str::from_utf8\<close>.\<close>

definition from_utf8 :: "bytes \<Rightarrow> (utf8_error, string) result" where
  "from_utf8 s = (case utf8_check 0 s of None \<Rightarrow> Inr s | Some e \<Rightarrow> Inl e)"

definition utf8_valid :: "bytes \<Rightarrow> bool" where
  "utf8_valid s \<longleftrightarrow> utf8_check 0 s = None"

lemma from_utf8_valid [simp]: "utf8_valid s \<Longrightarrow> from_utf8 s = Inr s"
  by (simp add: from_utf8_def utf8_valid_def)

lemma from_utf8_Inr: "from_utf8 s = Inr t \<longleftrightarrow> t = s \<and> utf8_valid s"
  by (auto simp: from_utf8_def utf8_valid_def split: option.splits)

lemma utf8_check_index: "utf8_check i s = None \<Longrightarrow> utf8_check j s = None"
proof (induction i s arbitrary: j rule: utf8_check.induct)
  case (2 i c r)
  from "2.prems" obtain k where k: "utf8_step c r = Valid k"
    by (auto split: utf8_step.splits)
  with "2.prems" "2.IH" [OF k, of "j + k"] show ?case by simp
qed simp

lemma utf8_valid_Cons:
  "utf8_valid (c # r) \<longleftrightarrow> (\<exists>k. utf8_step c r = Valid k \<and> utf8_valid (drop (k - 1) r))"
  unfolding utf8_valid_def
  by (auto split: utf8_step.splits intro: utf8_check_index)

lemma utf8_valid_Nil [simp, intro, utf8_intros]: "utf8_valid []"
  by (simp add: utf8_valid_def)

lemma utf8_valid_ascii_Cons [simp]: "byte c < 128 \<Longrightarrow> utf8_valid (c # r) \<longleftrightarrow> utf8_valid r"
  by (simp add: utf8_valid_Cons)

lemma utf8_valid_append [utf8_intros]: "utf8_valid s \<Longrightarrow> utf8_valid t \<Longrightarrow> utf8_valid (s @ t)"
proof (induction s rule: length_induct)
  case (1 s)
  show ?case
  proof (cases s)
    case Nil
    with "1.prems" show ?thesis by simp
  next
    case (Cons c r)
    with "1.prems" obtain k where k: "utf8_step c r = Valid k" "utf8_valid (drop (k - 1) r)"
      by (auto simp: utf8_valid_Cons)
    have kl: "k - 1 \<le> length r" using utf8_step_Valid [OF k(1)] by linarith
    have "utf8_valid (drop (k - 1) r @ t)"
      using "1.IH" "1.prems"(2) k(2) Cons by simp
    with kl k(1) Cons show ?thesis
      by (auto simp: utf8_valid_Cons intro: utf8_step_append)
  qed
qed

lemma ascii_valid [utf8_intros]: "\<forall>c \<in> set s. byte c < 128 \<Longrightarrow> utf8_valid s"
  by (induction s) auto

text \<open>
  A valid string is a sequence of encoded characters, each one ASCII byte or several bytes
  above 0x7F. Replacing ASCII characters by ASCII strings keeps it valid.
\<close>

definition utf8_char :: "bytes \<Rightarrow> bool" where
  "utf8_char ch \<longleftrightarrow>
     (\<exists>c r. ch = c # r \<and> utf8_step c r = Valid (length ch) \<and>
            (if byte c < 128 then r = [] else (\<forall>x \<in> set ch. 128 \<le> byte x)))"

lemma utf8_rest_take: "utf8_rest d n r = Valid k \<Longrightarrow> utf8_rest d n (take n r) = Valid k"
  by (induction d n r rule: utf8_rest.induct) (auto split: if_splits)

lemma utf8_rest_high: "utf8_rest d n r = Valid k \<Longrightarrow> \<forall>x \<in> set (take n r). 128 \<le> byte x"
  by (induction d n r rule: utf8_rest.induct) (auto simp: is_cont_def split: if_splits)

lemma second_ok_high: "second_ok b b2 \<Longrightarrow> 128 \<le> b2"
  by (auto simp: second_ok_def split: if_splits)

lemma utf8_step_char:
  assumes "utf8_step c r = Valid k"
  shows "utf8_char (take k (c # r))"
proof (cases "byte c < 128")
  case True
  with assms show ?thesis by (auto simp: utf8_char_def)
next
  case False
  define n where "n = (if byte c < 224 then 0 else if byte c < 240 then 1 else (2 :: nat))"
  from assms False obtain c2 r' where r: "r = c2 # r'" "second_ok (byte c) (byte c2)"
    and b: "\<not> (byte c < 194 \<or> 244 < byte c)" and rest: "utf8_rest 2 n r' = Valid k"
    by (auto simp: utf8_step_def Let_def n_def split: if_splits list.splits)
  from utf8_rest_Valid [OF rest] have k: "k = 2 + n" "n \<le> length r'" by simp_all
  have t: "take k (c # r) = c # c2 # take n r'" by (simp add: r k)
  have "utf8_step c (c2 # take n r') = Valid (2 + n)"
    using False b r utf8_rest_take [OF rest] by (simp add: utf8_step_def Let_def n_def k)
  moreover have "\<forall>x \<in> set (take n r'). 128 \<le> byte x" by (rule utf8_rest_high [OF rest])
  ultimately show ?thesis
    using False k(2) second_ok_high [OF r(2)] unfolding t utf8_char_def by auto
qed

lemma utf8_char_valid: "utf8_char ch \<Longrightarrow> utf8_valid ch"
  by (auto simp: utf8_char_def utf8_valid_Cons)

lemma utf8_induct [consumes 1, case_names Nil char]:
  assumes "utf8_valid s" "P []" "\<And>ch r. utf8_char ch \<Longrightarrow> utf8_valid r \<Longrightarrow> P r \<Longrightarrow> P (ch @ r)"
  shows "P s"
  using assms(1)
proof (induction s rule: length_induct)
  case (1 s)
  show ?case
  proof (cases s)
    case Nil
    with assms(2) show ?thesis by simp
  next
    case (Cons c r)
    with "1.prems" obtain k where k: "utf8_step c r = Valid k" "utf8_valid (drop (k - 1) r)"
      by (auto simp: utf8_valid_Cons)
    have kl: "1 \<le> k" using utf8_step_Valid [OF k(1)] by simp
    have "P (drop (k - 1) r)" using "1.IH" k(2) Cons by simp
    then have "P (take k (c # r) @ drop (k - 1) r)"
      by (rule assms(3) [OF utf8_step_char [OF k(1)] k(2)])
    moreover have "take k (c # r) @ drop (k - 1) r = s" using kl Cons by (cases k) auto
    ultimately show ?thesis by simp
  qed
qed

lemma utf8_map_ascii:
  assumes "utf8_valid s"
    and hi: "\<And>c. 128 \<le> byte c \<Longrightarrow> f c = [c]"
    and lo: "\<And>c. byte c < 128 \<Longrightarrow> utf8_valid (f c)"
  shows "utf8_valid (concat (map f s))"
  using assms(1)
proof (induction rule: utf8_induct)
  case (char ch r)
  have "utf8_valid (concat (map f ch))"
  proof (cases "byte (hd ch) < 128")
    case True
    with char(1) have "ch = [hd ch]" by (auto simp: utf8_char_def)
    then have "concat (map f ch) = f (hd ch)" by (metis append_Nil2 concat.simps list.map)
    then show ?thesis using lo True by simp
  next
    case False
    from char(1) obtain c r where "ch = c # r" "if byte c < 128 then r = [] else (\<forall>x \<in> set ch. 128 \<le> byte x)"
      unfolding utf8_char_def by blast
    with False have "\<forall>x \<in> set ch. 128 \<le> byte x" by simp
    then have "map f ch = map (\<lambda>c. [c]) ch" using hi by (intro map_cong) auto
    then have "concat (map f ch) = concat (map (\<lambda>c. [c]) ch)" by (rule arg_cong)
    also have "\<dots> = ch" by simp
    finally have "concat (map f ch) = ch" .
    then show ?thesis using utf8_char_valid [OF char(1)] by simp
  qed
  then show ?case using char(3) by (simp add: utf8_valid_append)
qed simp

text \<open>
  \<open>String::from_utf8_lossy\<close>: each invalid sequence becomes U+FFFD, an input that ends inside
  a character becomes one U+FFFD.
\<close>

definition REPLACEMENT :: string where
  "REPLACEMENT = [CHR 0xEF, CHR 0xBF, CHR 0xBD]"

function from_utf8_lossy :: "bytes \<Rightarrow> string" where
  "from_utf8_lossy [] = []"
| "from_utf8_lossy (c # r) =
     (case utf8_step c r of
        Valid k \<Rightarrow> take k (c # r) @ from_utf8_lossy (drop (k - 1) r)
      | Invalid k \<Rightarrow> REPLACEMENT @ from_utf8_lossy (drop (k - 1) r)
      | Truncated \<Rightarrow> REPLACEMENT)"
  by pat_completeness auto
termination
  by (relation "measure length") auto

lemma from_utf8_lossy_valid: "utf8_valid s \<Longrightarrow> from_utf8_lossy s = s"
proof (induction s rule: from_utf8_lossy.induct)
  case (2 c r)
  from "2.prems" obtain k where k: "utf8_step c r = Valid k" "utf8_valid (drop (k - 1) r)"
    by (auto simp: utf8_valid_Cons)
  have "take k (c # r) = c # take (k - 1) r"
    using utf8_step_Valid [OF k(1)] by (cases k) auto
  with k "2.IH"(1) [OF k(1) k(2)] show ?case by simp
qed simp

section \<open>White space\<close>

text \<open>The encodings of the characters with the Unicode property \<open>White_Space\<close>.\<close>

definition ws_encodings :: "string list" where
  "ws_encodings =
     [[CHR 0x20], [CHR 0x09], [CHR 0x0A], [CHR 0x0B], [CHR 0x0C], [CHR 0x0D],
      [CHR 0xC2, CHR 0x85], [CHR 0xC2, CHR 0xA0], [CHR 0xE1, CHR 0x9A, CHR 0x80],
      [CHR 0xE2, CHR 0x80, CHR 0x80], [CHR 0xE2, CHR 0x80, CHR 0x81], [CHR 0xE2, CHR 0x80, CHR 0x82],
      [CHR 0xE2, CHR 0x80, CHR 0x83], [CHR 0xE2, CHR 0x80, CHR 0x84], [CHR 0xE2, CHR 0x80, CHR 0x85],
      [CHR 0xE2, CHR 0x80, CHR 0x86], [CHR 0xE2, CHR 0x80, CHR 0x87], [CHR 0xE2, CHR 0x80, CHR 0x88],
      [CHR 0xE2, CHR 0x80, CHR 0x89], [CHR 0xE2, CHR 0x80, CHR 0x8A], [CHR 0xE2, CHR 0x80, CHR 0xA8],
      [CHR 0xE2, CHR 0x80, CHR 0xA9], [CHR 0xE2, CHR 0x80, CHR 0xAF], [CHR 0xE2, CHR 0x81, CHR 0x9F],
      [CHR 0xE3, CHR 0x80, CHR 0x80]]"

definition ws_at :: "string list \<Rightarrow> string \<Rightarrow> nat" where
  "ws_at encs s = (case find (\<lambda>w. starts_with w s) encs of None \<Rightarrow> 0 | Some w \<Rightarrow> length w)"

lemma ws_at_Nil [simp]: "[] \<notin> set encs \<Longrightarrow> ws_at encs [] = 0"
proof (induction encs)
  case (Cons w encs)
  then show ?case by (cases w) (auto simp: ws_at_def)
qed (simp add: ws_at_def)

lemma ws_at_Nil_encodings [simp]: "ws_at ws_encodings [] = 0" "ws_at (map rev ws_encodings) [] = 0"
  by (simp_all add: ws_encodings_def)

function strip_ws :: "string list \<Rightarrow> string \<Rightarrow> string" where
  "strip_ws encs s =
     (if ws_at encs s = 0 \<or> s = [] then s else strip_ws encs (drop (ws_at encs s) s))"
  by pat_completeness auto
termination
  by (relation "measure (\<lambda>(e, s). length s)") auto

declare strip_ws.simps [simp del]

definition trim_start :: "string \<Rightarrow> string" where
  "trim_start s = strip_ws ws_encodings s"

definition trim_end :: "string \<Rightarrow> string" where
  "trim_end s = rev (strip_ws (map rev ws_encodings) (rev s))"

definition trim :: "string \<Rightarrow> string" where
  "trim s = trim_end (trim_start s)"

text \<open>A string that neither starts nor ends with white space is left alone by \<open>trim\<close>.\<close>

definition trimmed :: "string \<Rightarrow> bool" where
  "trimmed s \<longleftrightarrow> ws_at ws_encodings s = 0 \<and> ws_at (map rev ws_encodings) (rev s) = 0"

lemma trim_trimmed [simp]: "trimmed s \<Longrightarrow> trim s = s"
  by (simp add: trim_def trim_start_def trim_end_def trimmed_def strip_ws.simps)

lemma trimmed_Nil [simp]: "trimmed []"
  by (simp add: trimmed_def)

lemma trim_Nil [simp]: "trim [] = []"
  by simp

lemma strip_ws_stops: "ws_at encs (strip_ws encs s) = 0 \<or> strip_ws encs s = []"
proof (induction encs s rule: strip_ws.induct)
  case (1 encs s)
  then show ?case by (cases "ws_at encs s = 0 \<or> s = []") (simp_all add: strip_ws.simps [of encs s])
qed

text \<open>\<open>split_whitespace\<close>: the maximal runs of other characters.\<close>

function split_ws :: "string \<Rightarrow> string \<Rightarrow> string list" where
  "split_ws acc [] = [acc]"
| "split_ws acc (c # r) =
     (if ws_at ws_encodings (c # r) = 0 then split_ws (acc @ [c]) r
      else acc # split_ws [] (drop (ws_at ws_encodings (c # r) - 1) r))"
  by pat_completeness auto
termination
  by (relation "measure (\<lambda>(a, s). length s)") auto

definition split_whitespace :: "string \<Rightarrow> string list" where
  "split_whitespace s = filter (\<lambda>t. t \<noteq> []) (split_ws [] s)"

section \<open>Trimming and valid strings\<close>

lemma ws_at_zero: "[] \<notin> set encs \<Longrightarrow> ws_at encs s = 0 \<longleftrightarrow> (\<forall>w \<in> set encs. \<not> starts_with w s)"
  by (induction encs) (auto simp: ws_at_def)

lemma ws_encodings_nonempty: "[] \<notin> set ws_encodings" "[] \<notin> set (map rev ws_encodings)"
  by (simp_all add: ws_encodings_def)

lemma ws_at_pos: "ws_at encs s \<noteq> 0 \<Longrightarrow> \<exists>w \<in> set encs. \<exists>t. s = w @ t \<and> ws_at encs s = length w"
  by (induction encs) (auto simp: ws_at_def starts_with_iff split: if_splits)

text \<open>What is cut off at an end is a sequence of the given encodings.\<close>

lemma strip_ws_suffix: "\<exists>ws. set ws \<subseteq> set encs \<and> s = concat ws @ strip_ws encs s"
proof (induction encs s rule: strip_ws.induct)
  case (1 encs s)
  show ?case
  proof (cases "ws_at encs s = 0 \<or> s = []")
    case True
    then have "s = concat [] @ strip_ws encs s" by (simp add: strip_ws.simps [of encs s])
    then show ?thesis by (intro exI [of _ "[]"]) simp
  next
    case False
    then obtain w t where w: "w \<in> set encs" "s = w @ t" "ws_at encs s = length w" using ws_at_pos by blast
    from 1 [OF False] obtain ws where ws: "set ws \<subseteq> set encs" "t = concat ws @ strip_ws encs t"
      using w by auto
    have "strip_ws encs s = strip_ws encs t" using False w by (subst strip_ws.simps) simp
    then have "s = concat (w # ws) @ strip_ws encs s" using ws(2) w(2) by simp
    then show ?thesis using w(1) ws(1) by (intro exI [of _ "w # ws"]) auto
  qed
qed

lemma trimmed_trim [simp]: "trimmed (trim s)"
proof -
  let ?t = "trim_start s" and ?r = "map rev ws_encodings"
  have start: "ws_at ws_encodings ?t = 0"
    using strip_ws_stops [of ws_encodings s] by (auto simp: trim_start_def)
  obtain ws where "rev ?t = concat ws @ strip_ws ?r (rev ?t)" using strip_ws_suffix by blast
  then have t: "?t = trim s @ rev (concat ws)" by (metis rev_append rev_rev_ident trim_def trim_end_def)
  have "ws_at ws_encodings (trim s) = 0"
    using start unfolding ws_at_zero [OF ws_encodings_nonempty(1)]
    by (subst (asm) t) (auto simp: starts_with_iff)
  moreover have "ws_at ?r (rev (trim s)) = 0"
    using strip_ws_stops [of ?r "rev ?t"] by (auto simp: trim_def trim_end_def)
  ultimately show ?thesis by (simp add: trimmed_def)
qed

lemma trim_line:
  assumes "trimmed t" "t \<noteq> []"
  shows "trim (t @ [NL]) = t"
proof -
  have "\<not> starts_with w (t @ [NL])" if w: "w \<in> set ws_encodings" for w
  proof
    assume "starts_with w (t @ [NL])"
    then obtain u where u: "t @ [NL] = w @ u" by (auto simp: starts_with_iff)
    show False
    proof (cases u rule: rev_cases)
      case Nil
      then have "w = t @ [NL]" using u by simp
      moreover from this w have "w = [NL]" by (auto simp: ws_encodings_def Cons_eq_append_conv append_eq_Cons_conv)
      ultimately show False using assms(2) by simp
    next
      case (snoc v x)
      then have "t = w @ v" using u by simp
      then show False using assms(1) w by (auto simp: trimmed_def ws_at_zero [OF ws_encodings_nonempty(1)] starts_with_iff)
    qed
  qed
  then have start: "trim_start (t @ [NL]) = t @ [NL]"
    by (simp add: trim_start_def strip_ws.simps ws_at_zero [OF ws_encodings_nonempty(1)])
  have "ws_at (map rev ws_encodings) (NL # rev t) = 1" by (simp add: ws_at_def ws_encodings_def starts_with_def)
  then have "strip_ws (map rev ws_encodings) (NL # rev t) = strip_ws (map rev ws_encodings) (rev t)"
    by (simp add: strip_ws.simps [of _ "NL # rev t"])
  also have "\<dots> = rev t" using assms(1) by (simp add: strip_ws.simps trimmed_def)
  finally show ?thesis by (simp add: trim_def start trim_end_def)
qed

text \<open>A valid string can be cut before any byte that does not continue a character.\<close>

lemma utf8_rest_cut:
  "utf8_rest d n (r @ w) = Valid k \<Longrightarrow> w \<noteq> [] \<Longrightarrow> \<not> is_cont (hd w) \<Longrightarrow> n \<le> length r \<and> utf8_rest d n r = Valid k"
proof (induction d n r rule: utf8_rest.induct)
  case (3 d n c r)
  then show ?case by (auto split: if_splits)
next
  case (2 d n)
  then show ?case by (cases w) (auto split: if_splits)
qed auto

lemma second_ok_cont: "second_ok b (byte c) \<Longrightarrow> is_cont c"
  by (auto simp: second_ok_def is_cont_def split: if_splits)

lemma utf8_step_cut:
  assumes "utf8_step c (r @ w) = Valid k" "w \<noteq> []" "\<not> is_cont (hd w)"
  shows "utf8_step c r = Valid k"
proof (cases r)
  case Nil
  with assms show ?thesis
    by (cases w) (auto simp: utf8_step_def Let_def dest: second_ok_cont split: if_splits)
next
  case (Cons x r')
  with assms show ?thesis
    by (auto simp: utf8_step_def Let_def dest: utf8_rest_cut split: if_splits)
qed

lemma utf8_valid_cut:
  "utf8_valid (s @ w) \<Longrightarrow> w \<noteq> [] \<Longrightarrow> \<not> is_cont (hd w) \<Longrightarrow> utf8_valid s \<and> utf8_valid w"
proof (induction s rule: length_induct)
  case (1 s)
  show ?case
  proof (cases s)
    case Nil
    with "1.prems" show ?thesis by simp
  next
    case (Cons c r)
    with "1.prems" obtain k where k: "utf8_step c (r @ w) = Valid k" "utf8_valid (drop (k - 1) (r @ w))"
      by (auto simp: utf8_valid_Cons)
    have st: "utf8_step c r = Valid k" by (rule utf8_step_cut [OF k(1) "1.prems"(2,3)])
    then have "drop (k - 1) (r @ w) = drop (k - 1) r @ w" using utf8_step_Valid by fastforce
    then have "utf8_valid (drop (k - 1) r) \<and> utf8_valid w"
      using "1.IH" [rule_format, of "drop (k - 1) r"] "1.prems"(2,3) k(2) Cons by simp
    then show ?thesis using st Cons by (auto simp: utf8_valid_Cons)
  qed
qed

lemma ws_encodings_cut: "w \<in> set ws_encodings \<Longrightarrow> w \<noteq> [] \<and> \<not> is_cont (hd w) \<and> utf8_valid w"
proof -
  have "list_all (\<lambda>w. w \<noteq> [] \<and> \<not> is_cont (hd w) \<and> utf8_valid w) ws_encodings" by code_simp
  then show "w \<in> set ws_encodings \<Longrightarrow> w \<noteq> [] \<and> \<not> is_cont (hd w) \<and> utf8_valid w" by (simp add: list_all_iff)
qed

lemma utf8_valid_drop: "utf8_valid (w @ t) \<Longrightarrow> utf8_valid w \<Longrightarrow> utf8_valid t"
proof (induction w rule: length_induct)
  case (1 w)
  show ?case
  proof (cases w)
    case Nil
    with "1.prems" show ?thesis by simp
  next
    case (Cons c r)
    with "1.prems" obtain k where k: "utf8_step c r = Valid k" "utf8_valid (drop (k - 1) r)"
      by (auto simp: utf8_valid_Cons)
    have "utf8_valid (drop (k - 1) (r @ t))"
      using "1.prems"(1) Cons utf8_step_append [OF k(1), of t] by (simp add: utf8_valid_Cons)
    moreover have "drop (k - 1) (r @ t) = drop (k - 1) r @ t" using utf8_step_Valid [OF k(1)] by simp
    ultimately show ?thesis using "1.IH" [rule_format, of "drop (k - 1) r"] k(2) Cons by simp
  qed
qed

lemma utf8_valid_concat: "\<forall>w \<in> set ws. utf8_valid w \<Longrightarrow> utf8_valid (concat ws)"
  by (induction ws) (auto intro: utf8_valid_append)

lemma trim_start_valid: "utf8_valid s \<Longrightarrow> utf8_valid (trim_start s)"
proof -
  obtain ws where ws: "set ws \<subseteq> set ws_encodings" "s = concat ws @ trim_start s"
    using strip_ws_suffix [of ws_encodings s] by (auto simp: trim_start_def)
  have "utf8_valid (concat ws)" using ws(1) ws_encodings_cut by (blast intro: utf8_valid_concat)
  then show "utf8_valid s \<Longrightarrow> utf8_valid (trim_start s)" using ws(2) utf8_valid_drop by metis
qed

lemma utf8_cut_all:
  "utf8_valid (t @ concat ws) \<Longrightarrow> set ws \<subseteq> set ws_encodings \<Longrightarrow> utf8_valid t"
proof (induction ws arbitrary: t rule: rev_induct)
  case (snoc w ws)
  then have "utf8_valid ((t @ concat ws) @ w)" "w \<in> set ws_encodings" by simp_all
  then have "utf8_valid (t @ concat ws)" using ws_encodings_cut utf8_valid_cut by blast
  then show ?case using snoc by simp
qed simp

lemma trim_valid [utf8_intros]: "utf8_valid s \<Longrightarrow> utf8_valid (trim s)"
proof -
  assume "utf8_valid s"
  then have v: "utf8_valid (trim_start s)" by (rule trim_start_valid)
  let ?r = "map rev ws_encodings" and ?t = "trim_start s"
  obtain ws where ws: "set ws \<subseteq> set ?r" "rev ?t = concat ws @ strip_ws ?r (rev ?t)"
    using strip_ws_suffix by blast
  have "?t = rev (concat ws @ strip_ws ?r (rev ?t))" using ws(2) by simp
  then have "?t = trim s @ concat (map rev (rev ws))" by (simp add: trim_def trim_end_def rev_concat rev_map)
  moreover have "set (map rev (rev ws)) \<subseteq> set ws_encodings" using ws(1) by auto
  ultimately show ?thesis using v utf8_cut_all by metis
qed

lemma from_utf8_lossy_is_valid [simp, utf8_intros]: "utf8_valid (from_utf8_lossy s)"
proof (induction s rule: from_utf8_lossy.induct)
  case (2 c r)
  have rep: "utf8_valid REPLACEMENT" by code_simp
  show ?case
  proof (cases "utf8_step c r")
    case (Valid k)
    then have "utf8_valid (take k (c # r))" by (intro utf8_char_valid utf8_step_char)
    then show ?thesis using Valid "2.IH"(1) by (simp add: utf8_valid_append)
  qed (use 2 rep in \<open>simp_all add: utf8_valid_append\<close>)
qed simp

section \<open>Cutting at a character\<close>

text \<open>\<open>str::split(c)\<close>: always at least one piece.\<close>

fun split_on :: "'a \<Rightarrow> 'a list \<Rightarrow> 'a list list" where
  "split_on c [] = [[]]"
| "split_on c (x # s) =
     (if x = c then [] # split_on c s
      else (case split_on c s of [] \<Rightarrow> [[x]] | p # ps \<Rightarrow> (x # p) # ps))"

lemma split_on_nonempty [simp]: "split_on c s \<noteq> []"
  by (induction s) (auto split: list.splits)

lemma split_on_absent: "c \<notin> set s \<Longrightarrow> split_on c s = [s]"
  by (induction s) auto

lemma split_on_append: "c \<notin> set a \<Longrightarrow> split_on c (a @ c # b) = a # split_on c b"
  by (induction a) auto

lemma split_on_pieces: "p \<in> set (split_on c s) \<Longrightarrow> c \<notin> set p"
  by (induction s arbitrary: p) (force split: if_splits list.splits)+

definition split_once :: "'a \<Rightarrow> 'a list \<Rightarrow> ('a list \<times> 'a list) option" where
  "split_once c s = map_option (\<lambda>i. (take i s, drop (Suc i) s)) (find_byte c s)"

lemma split_once_append [simp]: "c \<notin> set a \<Longrightarrow> split_once c (a @ c # b) = Some (a, b)"
  by (simp add: split_once_def find_byte_here)

lemma split_once_None: "split_once c s = None \<longleftrightarrow> c \<notin> set s"
  by (simp add: split_once_def find_byte_None)

text \<open>\<open>str::lines\<close>: pieces between line feeds, without a trailing carriage return; no piece
  after a final line feed.\<close>

definition chop_cr :: "string \<Rightarrow> string" where
  "chop_cr l = (if l \<noteq> [] \<and> last l = CR then butlast l else l)"

definition str_lines :: "string \<Rightarrow> string list" where
  "str_lines s =
     (let ps = split_on NL s
      in map chop_cr (butlast ps) @ (if last ps = [] then [] else [last ps]))"

lemma str_lines_Nil [simp]: "str_lines [] = []"
  by (simp add: str_lines_def)

lemma str_lines_line:
  "NL \<notin> set l \<Longrightarrow> str_lines (l @ NL # s) = chop_cr l # str_lines s"
  by (simp add: str_lines_def split_on_append Let_def)

section \<open>Numbers\<close>

definition is_digit :: "char \<Rightarrow> bool" where
  "is_digit c \<longleftrightarrow> 48 \<le> byte c \<and> byte c \<le> 57"

definition digit_val :: "char \<Rightarrow> nat" where
  "digit_val c = byte c - 48"

definition digit_char :: "nat \<Rightarrow> char" where
  "digit_char d = char_of (48 + d)"

fun dec_val :: "nat \<Rightarrow> string \<Rightarrow> nat" where
  "dec_val acc [] = acc"
| "dec_val acc (c # s) = dec_val (10 * acc + digit_val c) s"

text \<open>
  \<open>str::parse\<close> for an unsigned type with largest value \<open>m\<close>: an optional plus sign, at
  least one digit, only digits, no overflow.
\<close>

definition parse_unsigned :: "nat \<Rightarrow> string \<Rightarrow> nat option" where
  "parse_unsigned m s =
     (let ds = (if s \<noteq> [] \<and> hd s = CHR ''+'' then tl s else s)
      in if ds \<noteq> [] \<and> list_all is_digit ds \<and> dec_val 0 ds \<le> m then Some (dec_val 0 ds) else None)"

definition parse_u64 :: "string \<Rightarrow> u64 option" where
  "parse_u64 s = map_option of_nat (parse_unsigned (2 ^ 64 - 1) s)"

definition parse_u32 :: "string \<Rightarrow> u32 option" where
  "parse_u32 s = map_option of_nat (parse_unsigned (2 ^ 32 - 1) s)"

text \<open>\<open>to_string\<close> of an unsigned integer.\<close>

fun nat_dec :: "nat \<Rightarrow> string" where
  "nat_dec n = (if n < 10 then [digit_char n] else nat_dec (n div 10) @ [digit_char (n mod 10)])"

declare nat_dec.simps [simp del]

definition int_dec :: "int \<Rightarrow> string" where
  "int_dec i = (if i < 0 then CHR ''-'' # nat_dec (nat (- i)) else nat_dec (nat i))"

definition u64_str :: "u64 \<Rightarrow> string" where
  "u64_str n = nat_dec (unat n)"

definition u32_str :: "u32 \<Rightarrow> string" where
  "u32_str n = nat_dec (unat n)"

lemma digit_char_byte [simp]: "d < 10 \<Longrightarrow> byte (digit_char d) = 48 + d"
  by (simp add: digit_char_def)

lemma digit_char_is_digit [simp]: "d < 10 \<Longrightarrow> is_digit (digit_char d)"
  by (simp add: is_digit_def)

lemma digit_val_char [simp]: "d < 10 \<Longrightarrow> digit_val (digit_char d) = d"
  by (simp add: digit_val_def)

lemma dec_val_append: "dec_val acc (s @ t) = dec_val (dec_val acc s) t"
  by (induction s arbitrary: acc) auto

lemma nat_dec_digits: "list_all is_digit (nat_dec n)"
proof (induction n rule: nat_dec.induct)
  case (1 n)
  then show ?case by (subst nat_dec.simps) (auto simp: list_all_append)
qed

lemma nat_dec_nonempty [simp]: "nat_dec n \<noteq> []"
  by (subst nat_dec.simps) simp

lemma dec_val_nat_dec [simp]: "dec_val 0 (nat_dec n) = n"
proof (induction n rule: nat_dec.induct)
  case (1 n)
  then show ?case by (subst nat_dec.simps) (auto simp: dec_val_append)
qed

lemma digit_ascii: "is_digit c \<Longrightarrow> byte c < 128"
  by (simp add: is_digit_def)

lemma nat_dec_bytes: "c \<in> set (nat_dec n) \<Longrightarrow> is_digit c"
  using nat_dec_digits by (metis list_all_iff)

lemma nat_dec_valid [simp, utf8_intros]: "utf8_valid (nat_dec n)"
  by (rule ascii_valid) (auto dest!: nat_dec_bytes digit_ascii)

lemma not_digit_notin [simp]: "\<not> is_digit c \<Longrightarrow> c \<notin> set (nat_dec n)"
  using nat_dec_bytes by blast

lemma hd_nat_dec: "is_digit (hd (nat_dec n))"
  by (rule nat_dec_bytes [OF hd_in_set]) simp

theorem parse_nat_dec: "n \<le> m \<Longrightarrow> parse_unsigned m (nat_dec n) = Some n"
proof -
  assume n: "n \<le> m"
  have "hd (nat_dec n) \<noteq> CHR ''+''"
    using hd_nat_dec [of n] by (auto simp: is_digit_def)
  with n show ?thesis by (simp add: parse_unsigned_def nat_dec_digits)
qed

lemma parse_u64_str [simp]: "parse_u64 (u64_str n) = Some n"
proof -
  have "unat n < 2 ^ 64" by (rule order.strict_trans2 [OF unsigned_less]) simp
  then have "unat n \<le> 2 ^ 64 - 1" by simp
  then show ?thesis by (simp add: parse_u64_def u64_str_def parse_nat_dec)
qed

lemma parse_u64_dec: "n < 2 ^ 64 \<Longrightarrow> parse_u64 (nat_dec n) = Some (of_nat n)"
  by (simp add: parse_u64_def parse_nat_dec)

text \<open>A number below \<open>10 ^ k\<close> prints in at most \<open>k\<close> digits.\<close>

lemma length_nat_dec: "n < 10 ^ k \<Longrightarrow> 0 < k \<Longrightarrow> length (nat_dec n) \<le> k"
proof (induction n arbitrary: k rule: nat_dec.induct)
  case (1 n)
  show ?case
  proof (cases "n < 10")
    case True
    then show ?thesis using "1.prems" by (subst nat_dec.simps) simp
  next
    case False
    obtain j where k: "k = Suc j" using "1.prems"(2) by (cases k) auto
    have "0 < j" using False "1.prems"(1) k by (cases j) auto
    moreover have "n div 10 < 10 ^ j" using "1.prems"(1) k by (simp add: div_less_iff_less_mult mult.commute)
    ultimately have "length (nat_dec (n div 10)) \<le> j" using "1.IH" [OF False] by simp
    then show ?thesis using False k by (subst nat_dec.simps) simp
  qed
qed

section \<open>Joining and printing\<close>

fun join_with :: "string \<Rightarrow> string list \<Rightarrow> string" where
  "join_with sep [] = []"
| "join_with sep [x] = x"
| "join_with sep (x # y # r) = x @ sep @ join_with sep (y # r)"

lemma set_join_with: "set (join_with sep ws) \<subseteq> set sep \<union> \<Union> (set ` set ws)"
  by (induction sep ws rule: join_with.induct) auto

definition bool_str :: "bool \<Rightarrow> string" where
  "bool_str b = (if b then ''true'' else ''false'')"

section \<open>Character classes\<close>

definition is_ascii_alphabetic :: "char \<Rightarrow> bool" where
  "is_ascii_alphabetic c \<longleftrightarrow> (65 \<le> byte c \<and> byte c \<le> 90) \<or> (97 \<le> byte c \<and> byte c \<le> 122)"

definition is_ascii_alphanumeric :: "char \<Rightarrow> bool" where
  "is_ascii_alphanumeric c \<longleftrightarrow> is_ascii_alphabetic c \<or> is_digit c"

definition is_ascii_uppercase :: "char \<Rightarrow> bool" where
  "is_ascii_uppercase c \<longleftrightarrow> 65 \<le> byte c \<and> byte c \<le> 90"

definition is_ascii_lowercase :: "char \<Rightarrow> bool" where
  "is_ascii_lowercase c \<longleftrightarrow> 97 \<le> byte c \<and> byte c \<le> 122"

definition ascii_lower :: "char \<Rightarrow> char" where
  "ascii_lower c = (if is_ascii_uppercase c then char_of (byte c + 32) else c)"

definition ascii_upper :: "char \<Rightarrow> char" where
  "ascii_upper c = (if is_ascii_lowercase c then char_of (byte c - 32) else c)"

definition to_ascii_lowercase :: "string \<Rightarrow> string" where
  "to_ascii_lowercase s = map ascii_lower s"

section \<open>Graphic ASCII text\<close>

text \<open>
  Text without white space, control characters or bytes above 0x7E: white space handling and
  UTF-8 decoding leave it alone.
\<close>

definition graphic_char :: "char \<Rightarrow> bool" where
  "graphic_char c \<longleftrightarrow> 33 \<le> byte c \<and> byte c \<le> 126"

definition graphic :: "string \<Rightarrow> bool" where
  "graphic s \<longleftrightarrow> list_all graphic_char s"

lemma graphic_simps [simp]:
  "graphic []" "graphic (c # s) \<longleftrightarrow> graphic_char c \<and> graphic s" "graphic (s @ t) \<longleftrightarrow> graphic s \<and> graphic t"
  by (auto simp: graphic_def)

lemma starts_with_hd: "starts_with w (c # r) \<Longrightarrow> w = [] \<or> hd w = c"
  by (cases w) simp_all

lemma graphic_not_ws:
  assumes "graphic_char c" "w \<in> set ws_encodings"
  shows "hd w \<noteq> c \<and> last w \<noteq> c \<and> w \<noteq> []"
proof -
  have "list_all (\<lambda>w. \<not> graphic_char (hd w) \<and> \<not> graphic_char (last w) \<and> w \<noteq> []) ws_encodings"
    by (simp add: ws_encodings_def graphic_char_def)
  with assms show ?thesis by (auto simp: list_all_iff)
qed

lemma graphic_ws:
  assumes "graphic_char c"
  shows "ws_at ws_encodings (c # r) = 0" "ws_at (map rev ws_encodings) (c # r) = 0"
proof -
  have "find (\<lambda>w. starts_with w (c # r)) ws_encodings = None"
    using graphic_not_ws [OF assms] starts_with_hd by (fastforce simp: find_None_iff)
  then show "ws_at ws_encodings (c # r) = 0" by (simp add: ws_at_def)
  have "find (\<lambda>w. starts_with w (c # r)) (map rev ws_encodings) = None"
    using graphic_not_ws [OF assms] starts_with_hd by (fastforce simp: find_None_iff hd_rev)
  then show "ws_at (map rev ws_encodings) (c # r) = 0" by (simp add: ws_at_def)
qed

lemma graphic_trimmed [simp]: "graphic s \<Longrightarrow> trimmed s"
proof (cases s)
  case (Cons c r)
  assume g: "graphic s"
  with Cons have "ws_at ws_encodings s = 0" by (simp add: graphic_ws)
  moreover obtain d q where "rev s = d # q" using Cons by (cases "rev s") auto
  moreover have "graphic (rev s)" using g by (simp add: graphic_def)
  ultimately show ?thesis by (simp add: trimmed_def graphic_ws)
qed simp

lemma graphic_valid [simp]: "graphic s \<Longrightarrow> utf8_valid s"
  by (rule ascii_valid) (auto simp: graphic_def list_all_iff graphic_char_def)

lemma graphic_notin: "graphic s \<Longrightarrow> \<not> graphic_char c \<Longrightarrow> c \<notin> set s"
  by (auto simp: graphic_def list_all_iff)

lemma graphic_nat_dec [simp]: "graphic (nat_dec n)"
  by (auto simp: graphic_def list_all_iff graphic_char_def is_digit_def dest!: nat_dec_bytes)

lemma graphic_int_dec [simp]: "graphic (int_dec i)"
  by (simp add: int_dec_def graphic_char_def)

end
