(* ===== verification/Json.thy ===== *)
theory Json
  imports Rust_Str
begin

text \<open>
  The data type \<open>serde_json::Value\<close> as the sources use it: its constructors and the documented
  accessors (\<open>get\<close>, \<open>as_str\<close>, \<open>as_i64\<close>, \<open>as_u64\<close>, \<open>as_array\<close>, \<open>as_object\<close>), and the
  \<open>json!\<close> object literal. An object is a \<open>BTreeMap\<close> (the crate is built without
  \<open>preserve_order\<close>), so its bindings are sorted by key. Reading and writing JSON text is the
  crate's business: it is a parameter of the components that call it.
\<close>

section \<open>Values\<close>

text \<open>
  A number is a \<open>u64\<close>, a negative \<open>i64\<close> or a finite \<open>f64\<close> (mantissa and binary exponent).
\<close>

datatype number = PosInt u64 | NegInt int | Float int int

datatype json =
    JNull
  | JBool bool
  | JNum number
  | JStr string
  | JArr "json list"
  | JObj "(string \<times> json) list"

abbreviation jint :: "int \<Rightarrow> json" where
  "jint i \<equiv> JNum (if i < 0 then NegInt i else PosInt (word_of_int i))"

definition json_get :: "json \<Rightarrow> string \<Rightarrow> json option" where
  "json_get v k = (case v of JObj m \<Rightarrow> map_of m k | _ \<Rightarrow> None)"

definition as_str :: "json \<Rightarrow> string option" where
  "as_str v = (case v of JStr s \<Rightarrow> Some s | _ \<Rightarrow> None)"

definition as_i64 :: "json \<Rightarrow> int option" where
  "as_i64 v =
     (case v of
        JNum (PosInt n) \<Rightarrow> if uint n < 2 ^ 63 then Some (uint n) else None
      | JNum (NegInt i) \<Rightarrow> Some i
      | _ \<Rightarrow> None)"

definition as_u64 :: "json \<Rightarrow> u64 option" where
  "as_u64 v = (case v of JNum (PosInt n) \<Rightarrow> Some n | _ \<Rightarrow> None)"

definition as_array :: "json \<Rightarrow> json list option" where
  "as_array v = (case v of JArr xs \<Rightarrow> Some xs | _ \<Rightarrow> None)"

definition as_object :: "json \<Rightarrow> (string \<times> json) list option" where
  "as_object v = (case v of JObj m \<Rightarrow> Some m | _ \<Rightarrow> None)"

lemma json_get_JObj [simp]: "json_get (JObj m) k = map_of m k"
  by (simp add: json_get_def)

lemma json_accessors [simp]:
  "as_str (JStr s) = Some s" "as_array (JArr xs) = Some xs" "as_object (JObj m) = Some m"
  "as_u64 (JNum (PosInt n)) = Some n" "as_str (JArr xs) = None" "as_str (JObj m) = None"
  "as_str (JNum x) = None" "as_i64 (JStr s) = None" "as_array (JStr s) = None"
  "as_i64 (JNum (NegInt i)) = Some i"
  "as_i64 (JNum (PosInt n)) = (if uint n < 2 ^ 63 then Some (uint n) else None)"
  by (simp_all add: as_str_def as_array_def as_object_def as_u64_def as_i64_def)

section \<open>Object literals\<close>

text \<open>\<open>json!({ ... })\<close>: the bindings are inserted in the order they are written.\<close>

definition json_map :: "(string \<times> json) list \<Rightarrow> (string \<times> json) list" where
  "json_map kvs = foldl (\<lambda>m (k, v). bm_insert k v m) [] kvs"

definition json_obj :: "(string \<times> json) list \<Rightarrow> json" where
  "json_obj kvs = JObj (json_map kvs)"

lemma json_map_ok: "bm_ok (json_map kvs)"
  unfolding json_map_def by (rule bm.fill_ok) (rule bm.ok_empty)

lemma json_get_obj: "json_get (json_obj kvs) k = map_of (rev kvs) k"
  by (simp add: json_obj_def json_map_def bm.lookup_fill [OF bm.ok_empty] split: option.splits)

lemma json_get_obj_field:
  "distinct (map fst kvs) \<Longrightarrow> (k, v) \<in> set kvs \<Longrightarrow> json_get (json_obj kvs) k = Some v"
  by (simp add: json_obj_def json_map_def bm.lookup_fill_distinct [OF _ _ bm.ok_empty])

section \<open>Reading request parameters\<close>

text \<open>
  The three access paths the verb handlers repeat:
  \<open>params.get(k).and_then(Value::as_str).unwrap_or(d).to_string()\<close>, its integer version, and
  the list of the strings of an array (\<open>filter_map(Value::as_str)\<close>).
\<close>

definition str_param :: "json \<Rightarrow> string \<Rightarrow> string \<Rightarrow> string" where
  "str_param p k d = unwrap_or d (Option.bind (json_get p k) as_str)"

definition int_param :: "json \<Rightarrow> string \<Rightarrow> int \<Rightarrow> int" where
  "int_param p k d = unwrap_or d (Option.bind (json_get p k) as_i64)"

definition strs_of :: "json option \<Rightarrow> string list" where
  "strs_of v = (case Option.bind v as_array of None \<Rightarrow> [] | Some xs \<Rightarrow> List.map_filter as_str xs)"

text \<open>\<open>params.get(a).or_else(|| params.get(b))\<close>.\<close>

definition get_either :: "json \<Rightarrow> string \<Rightarrow> string \<Rightarrow> json option" where
  "get_either p a b = (case json_get p a of Some v \<Rightarrow> Some v | None \<Rightarrow> json_get p b)"

definition str_either :: "json \<Rightarrow> string \<Rightarrow> string \<Rightarrow> string" where
  "str_either p a b = unwrap_or [] (Option.bind (get_either p a b) as_str)"

lemmas param_defs = str_param_def int_param_def strs_of_def get_either_def str_either_def

end
