(* ===== verification/Rpc.thy ===== *)
theory Rpc
  imports Json
begin

text \<open>
  \<open>crates/vdsm-rpc/src/protocol.rs\<close> and \<open>dispatch.rs\<close>: the JSON-RPC 2.0 envelope, its error
  objects, and the table of verb handlers. A handler maps the parameters to a result or an
  error and may change the state of the daemon, \<open>'w\<close>. The table is built once by
  \<open>register\<close> and only read afterwards.
\<close>

section \<open>The envelope\<close>

record request =
  req_jsonrpc :: string
  req_method :: string
  req_params :: json
  req_id :: "json option"

record jsonrpc_error =
  err_code :: int
  err_message :: string
  err_data :: "json option"

record response =
  resp_jsonrpc :: string
  resp_id :: "json option"
  resp_result :: "json option"
  resp_error :: "jsonrpc_error option"

definition response_ok :: "json option \<Rightarrow> json \<Rightarrow> response" where
  "response_ok i v = \<lparr>resp_jsonrpc = ''2.0'', resp_id = i, resp_result = Some v, resp_error = None\<rparr>"

definition response_err :: "json option \<Rightarrow> jsonrpc_error \<Rightarrow> response" where
  "response_err i e = \<lparr>resp_jsonrpc = ''2.0'', resp_id = i, resp_result = None, resp_error = Some e\<rparr>"

section \<open>Error objects\<close>

definition parse_error :: "string \<Rightarrow> jsonrpc_error" where
  "parse_error msg = \<lparr>err_code = - 32700, err_message = msg, err_data = None\<rparr>"

definition invalid_request :: "string \<Rightarrow> jsonrpc_error" where
  "invalid_request msg = \<lparr>err_code = - 32600, err_message = msg, err_data = None\<rparr>"

definition method_not_found :: "string \<Rightarrow> jsonrpc_error" where
  "method_not_found m = \<lparr>err_code = - 32601, err_message = ''Method not found: '' @ m, err_data = None\<rparr>"

definition invalid_params :: "string \<Rightarrow> jsonrpc_error" where
  "invalid_params msg = \<lparr>err_code = - 32602, err_message = msg, err_data = None\<rparr>"

definition internal :: "string \<Rightarrow> jsonrpc_error" where
  "internal msg = \<lparr>err_code = - 32603, err_message = msg, err_data = None\<rparr>"

lemmas error_object_defs =
  parse_error_def invalid_request_def method_not_found_def invalid_params_def internal_def

section \<open>The dispatcher\<close>

type_synonym 'w handler = "json \<Rightarrow> 'w \<Rightarrow> (jsonrpc_error, json) result \<times> 'w"

record 'w dispatcher =
  handlers :: "(string, 'w handler) hmap"

definition builder :: "'w dispatcher" where
  "builder = \<lparr>handlers = []\<rparr>"

definition register :: "string \<Rightarrow> 'w handler \<Rightarrow> 'w dispatcher \<Rightarrow> 'w dispatcher" where
  "register method h d = d\<lparr>handlers := hm_insert method h (handlers d)\<rparr>"

definition handler_count :: "'w dispatcher \<Rightarrow> nat" where
  "handler_count d = length (handlers d)"

definition invoke :: "'w dispatcher \<Rightarrow> string \<Rightarrow> 'w handler" where
  "invoke d method params w =
     (case hm_get (handlers d) method of
        Some h \<Rightarrow> h params w
      | None \<Rightarrow> (Inl (method_not_found method), w))"

text \<open>A table built from a list of registrations, as \<open>vdsmd\<close> builds its own.\<close>

definition register_all :: "(string \<times> 'w handler) list \<Rightarrow> 'w dispatcher" where
  "register_all regs = foldl (\<lambda>d (m, h). register m h d) builder regs"

lemma handlers_register_all:
  "handlers (register_all regs) = foldl (\<lambda>m (k, h). hm_insert k h m) [] regs"
proof -
  have "handlers (foldl (\<lambda>d (m, h). register m h d) d regs) =
      foldl (\<lambda>m (k, h). hm_insert k h m) (handlers d) regs" for d :: "'a dispatcher"
    by (induction regs arbitrary: d) (auto simp: register_def)
  then show ?thesis by (simp add: register_all_def builder_def)
qed

lemma handlers_ok: "hm_ok (handlers (register_all regs))"
  by (simp add: handlers_register_all hm.fill_ok hm.ok_empty)

lemma invoke_register_all:
  "invoke (register_all regs) m =
     (case map_of (rev regs) m of Some h \<Rightarrow> h | None \<Rightarrow> (\<lambda>p w. (Inl (method_not_found m), w)))"
  by (auto simp: invoke_def fun_eq_iff handlers_register_all hm.lookup_fill hm.ok_empty split: option.splits)

end
