(* ===== verification/Stream_Parser.thy ===== *)
theory Stream_Parser
  imports Prelude
begin

text \<open>
  The interface between a connection handler and the parser of its byte stream. A parser
  looks at the bytes buffered so far and has a first message with the rest of the buffer
  (\<open>got\<close>), or a verdict that ends the connection (\<open>bad\<close>), or neither (more bytes are
  needed). The handler relies on progress and on stability: what the parser has said of a
  buffer it says again when more bytes follow. The client lemmas are about
  \<open>decodes\<close>, the messages of a buffer: they exist, they are unique, and cutting the buffer
  into pieces does not change them. \<open>fits\<close> is the bound on the bytes of one connection
  that a Rust slice can hold.
\<close>

locale stream_parser =
  fixes got :: "bytes \<Rightarrow> ('f \<times> bytes) option"
    and bad :: "bytes \<Rightarrow> 'e option"
    and fits :: "bytes \<Rightarrow> bool"
  assumes got_shorter: "got b = Some (f, r) \<Longrightarrow> length r < length b"
    and got_stable: "got b = Some (f, r) \<Longrightarrow> fits (b @ x) \<Longrightarrow> got (b @ x) = Some (f, r @ x)"
    and bad_stable: "bad b = Some e \<Longrightarrow> fits (b @ x) \<Longrightarrow> bad (b @ x) = Some e"
    and got_not_bad: "got b = Some p \<Longrightarrow> bad b = None"
    and got_fits: "got b = Some (f, r) \<Longrightarrow> fits (b @ x) \<Longrightarrow> fits (r @ x)"
begin

inductive decodes :: "bytes \<Rightarrow> 'f list \<Rightarrow> bytes \<Rightarrow> 'e option \<Rightarrow> bool" where
  wait: "got b = None \<Longrightarrow> bad b = None \<Longrightarrow> decodes b [] b None"
| verdict: "bad b = Some e \<Longrightarrow> decodes b [] b (Some e)"
| message: "got b = Some (f, r) \<Longrightarrow> decodes r fs r' v \<Longrightarrow> decodes b (f # fs) r' v"

lemma decodes_exists: "\<exists>fs r v. decodes b fs r v"
proof (induction b rule: length_induct)
  case (1 b)
  show ?case
  proof (cases "got b")
    case None
    then show ?thesis by (cases "bad b") (auto intro: decodes.intros)
  next
    case (Some p)
    then obtain f r where p: "got b = Some (f, r)" by (cases p) auto
    with "1.IH" got_shorter obtain fs r' v where "decodes r fs r' v" by blast
    with p show ?thesis by (blast intro: decodes.message)
  qed
qed

lemma decodes_unique:
  assumes "decodes b fs r v" "decodes b fs' r' v'"
  shows "fs = fs' \<and> r = r' \<and> v = v'"
  using assms
proof (induction arbitrary: fs' r' v')
  case (wait b)
  from wait(3) show ?case by cases (use wait in auto)
next
  case (verdict b e)
  from verdict(2) show ?case by cases (use verdict got_not_bad in auto)
next
  case (message b f r fs r1 v)
  from message.prems show ?case
  proof cases
    case wait
    with message.hyps show ?thesis by simp
  next
    case verdict
    with message.hyps got_not_bad show ?thesis by fastforce
  next
    case (message f' r'' fs'')
    with message.hyps message.IH [of fs'' r' v'] show ?thesis by auto
  qed
qed

text \<open>A prefix that ends in a verdict ends every longer stream with the same verdict.\<close>

lemma decodes_verdict_append:
  "decodes b fs r (Some e) \<Longrightarrow> fits (b @ x) \<Longrightarrow> decodes (b @ x) fs (r @ x) (Some e)"
proof (induction b fs r "Some e" rule: decodes.induct)
  case (verdict b)
  then show ?case by (blast intro: decodes.verdict bad_stable)
next
  case (message b f r fs r')
  have "fits (r @ x)" by (rule got_fits [OF message.hyps(1) message.prems])
  with message show ?case by (blast intro: decodes.message got_stable)
qed

text \<open>A prefix that waits hands its rest to the bytes that follow.\<close>

lemma decodes_append:
  "decodes b fs r None \<Longrightarrow> fits (b @ x) \<Longrightarrow> decodes (r @ x) gs r' v \<Longrightarrow> decodes (b @ x) (fs @ gs) r' v"
proof (induction b fs r "None :: 'e option" rule: decodes.induct)
  case (wait b)
  then show ?case by simp
next
  case (message b f r fs r1)
  have "fits (r @ x)" by (rule got_fits [OF message.hyps(1) message.prems(1)])
  with message show ?case by (auto intro: decodes.message got_stable)
qed

lemma decodes_fits: "decodes b fs r v \<Longrightarrow> fits (b @ x) \<Longrightarrow> fits (r @ x)"
  by (induction rule: decodes.induct) (auto intro: got_fits)

end

text \<open>
  A parser of what an encoder writes: the message comes back and the bytes that follow
  it are untouched, so a concatenation of encoded messages is decoded message by message.
\<close>

locale framed_codec = stream_parser got bad fits
  for got :: "bytes \<Rightarrow> ('f \<times> bytes) option" and bad :: "bytes \<Rightarrow> 'e option" and fits +
  fixes enc :: "'f \<Rightarrow> bytes" and enc_ok :: "'f \<Rightarrow> bool"
  assumes got_enc: "enc_ok f \<Longrightarrow> got (enc f @ x) = Some (f, x)"
    and got_Nil: "got [] = None"
    and bad_Nil: "bad [] = None"
begin

lemma decodes_enc_append:
  "\<forall>f \<in> set fs. enc_ok f \<Longrightarrow> decodes x gs r v \<Longrightarrow> decodes (concat (map enc fs) @ x) (fs @ gs) r v"
proof (induction fs)
  case (Cons f fs)
  have g: "got (enc f @ concat (map enc fs) @ x) = Some (f, concat (map enc fs) @ x)"
    using Cons.prems by (simp add: got_enc)
  have d: "decodes (concat (map enc fs) @ x) (fs @ gs) r v" using Cons by simp
  show ?case using decodes.message [OF g d] by simp
qed simp

lemma decodes_enc: "\<forall>f \<in> set fs. enc_ok f \<Longrightarrow> decodes (concat (map enc fs)) fs [] None"
  using decodes_enc_append [of fs "[]" "[]" "[]" None] decodes.wait [OF got_Nil bad_Nil] by simp

text \<open>Messages are self-delimiting: one encoding is never the start of another's stream.\<close>

lemma enc_prefix_free:
  assumes "enc_ok f" "enc_ok g" "enc f @ x = enc g @ y"
  shows "f = g \<and> x = y"
  using got_enc [OF assms(1), of x] got_enc [OF assms(2), of y, folded assms(3)]
  by (metis option.inject prod.inject)

end

section \<open>Connection loops\<close>

text \<open>
  How a connection ends: it is still open, it was closed in order, it ended with an I/O or
  serialization error, or its task panicked.
\<close>

datatype status = Running | ClosedOk | ClosedErr | Crashed

datatype read_event = Data bytes | Eof | ReadErr

text \<open>The result of a loop without the bytes left in its buffer.\<close>

definition outcome :: "status \<times> bytes \<times> 'c \<Rightarrow> status \<times> 'c" where
  "outcome r = (fst r, snd (snd r))"

lemma outcome_simp [simp]: "outcome (st, b, c) = (st, c)"
  by (simp add: outcome_def)

text \<open>
  What both framings do with the bytes they read: append them to the buffer, take every
  message the parser has out of it and run the handler on each, until the parser waits, the
  parser gives its verdict, or the handler ends the connection.
\<close>

locale conn_loop = stream_parser got bad fits
  for got :: "bytes \<Rightarrow> ('f \<times> bytes) option" and bad :: "bytes \<Rightarrow> 'e option" and fits +
  fixes handle :: "'f \<Rightarrow> 'c \<Rightarrow> status \<times> 'c"
    and stop :: "'e \<Rightarrow> 'c \<Rightarrow> status \<times> 'c"
    and loop :: "bytes \<Rightarrow> 'c \<Rightarrow> status \<times> bytes \<times> 'c"
    and serve :: "bytes \<Rightarrow> 'c \<Rightarrow> read_event list \<Rightarrow> status \<times> bytes \<times> 'c"
  assumes loop_got:
      "got b = Some (f, r) \<Longrightarrow>
       loop b c = (case handle f c of (st, c') \<Rightarrow> if st = Running then loop r c' else (st, r, c'))"
    and loop_bad: "bad b = Some e \<Longrightarrow> loop b c = (fst (stop e c), b, snd (stop e c))"
    and loop_wait: "got b = None \<Longrightarrow> bad b = None \<Longrightarrow> loop b c = (Running, b, c)"
    and stop_ends: "fst (stop e c) \<noteq> Running"
    and serve_Nil: "serve b c [] = (Running, b, c)"
    and serve_Data:
      "d \<noteq> [] \<Longrightarrow>
       serve b c (Data d # es) =
         (case loop (b @ d) c of (st, b', c') \<Rightarrow> if st = Running then serve b' c' es else (st, b', c'))"
begin

text \<open>The handler on one message after the other, then the verdict if there is one.\<close>

fun run_all :: "'f list \<Rightarrow> 'e option \<Rightarrow> 'c \<Rightarrow> status \<times> 'c" where
  "run_all [] v c = (case v of None \<Rightarrow> (Running, c) | Some e \<Rightarrow> stop e c)"
| "run_all (f # fs) v c =
     (case handle f c of (st, c') \<Rightarrow> if st = Running then run_all fs v c' else (st, c'))"

lemma run_all_append:
  "run_all (fs @ gs) v c =
     (case run_all fs None c of (st, c') \<Rightarrow> if st = Running then run_all gs v c' else (st, c'))"
  by (induction fs arbitrary: c) (auto split: prod.splits)

lemma loop_decodes:
  assumes "decodes b fs r v"
  shows "outcome (loop b c) = run_all fs v c"
    and "fst (loop b c) = Running \<Longrightarrow> fst (snd (loop b c)) = r \<and> v = None"
proof -
  have "outcome (loop b c) = run_all fs v c \<and>
      (fst (loop b c) = Running \<longrightarrow> fst (snd (loop b c)) = r \<and> v = None)"
    using assms
    by (induction arbitrary: c)
      (auto simp: loop_wait loop_bad loop_got stop_ends split: prod.splits)
  then show "outcome (loop b c) = run_all fs v c"
    and "fst (loop b c) = Running \<Longrightarrow> fst (snd (loop b c)) = r \<and> v = None" by auto
qed

text \<open>Cutting a buffer in two does not change what the loop does.\<close>

lemma loop_append:
  assumes "fits (b @ x)"
  shows "outcome (loop (b @ x) c) =
    (case loop b c of (st, r, c') \<Rightarrow> if st = Running then outcome (loop (r @ x) c') else (st, c'))"
proof -
  obtain fs r v where d: "decodes b fs r v" using decodes_exists by blast
  obtain st r1 c1 where l: "loop b c = (st, r1, c1)" by (cases "loop b c") auto
  have out: "run_all fs v c = (st, c1)" using loop_decodes(1) [OF d, of c] l by simp
  have rest: "st = Running \<Longrightarrow> r1 = r \<and> v = None" using loop_decodes(2) [OF d, of c] l by simp
  show ?thesis
  proof (cases v)
    case None
    obtain gs r' v' where d2: "decodes (r @ x) gs r' v'" using decodes_exists by blast
    have "decodes (b @ x) (fs @ gs) r' v'"
      using decodes_append [OF _ assms d2] d None by simp
    then have "outcome (loop (b @ x) c) = run_all (fs @ gs) v' c" by (rule loop_decodes(1))
    moreover have "outcome (loop (r @ x) c1) = run_all gs v' c1" by (rule loop_decodes(1) [OF d2])
    ultimately show ?thesis using out l None rest by (simp add: run_all_append)
  next
    case (Some e)
    then have "decodes (b @ x) fs (r @ x) (Some e)" using decodes_verdict_append d assms by blast
    then have "outcome (loop (b @ x) c) = run_all fs v c" using loop_decodes(1) Some by blast
    with out l rest Some show ?thesis by auto
  qed
qed

lemma loop_fits:
  assumes "loop b c = (Running, r, c')" "fits (b @ x)"
  shows "fits (r @ x)"
proof -
  obtain fs r' v where d: "decodes b fs r' v" using decodes_exists by blast
  have "r' = r" using loop_decodes(2) [OF d, of c] assms(1) by simp
  then show ?thesis using decodes_fits [OF d assms(2)] by simp
qed

text \<open>However the bytes arrive, the connection behaves as if they had arrived at once.\<close>

lemma serve_chunks:
  assumes "\<forall>d \<in> set ds. d \<noteq> []" "fits (b @ concat ds)" "ds \<noteq> []"
  shows "outcome (serve b c (map Data ds)) = outcome (loop (b @ concat ds) c)"
  using assms
proof (induction ds arbitrary: b c)
  case (Cons d ds)
  have fits: "fits ((b @ d) @ concat ds)" using Cons.prems(2) by simp
  obtain st b' c' where l: "loop (b @ d) c = (st, b', c')" by (cases "loop (b @ d) c") auto
  show ?case
  proof (cases "ds = []")
    case True
    with l Cons.prems(1) show ?thesis by (simp add: serve_Data serve_Nil)
  next
    case False
    then have "outcome (serve b' c' (map Data ds)) = outcome (loop (b' @ concat ds) c')" if "st = Running"
      using Cons.IH [of b' c'] Cons.prems(1) loop_fits [OF l [unfolded that] fits] by simp
    with l loop_append [OF fits, of c] Cons.prems(1) show ?thesis by (simp add: serve_Data)
  qed
qed simp

lemma serve_decodes:
  assumes "\<forall>d \<in> set ds. d \<noteq> []" "fits (concat ds)" "ds \<noteq> []" "decodes (concat ds) fs r v"
  shows "outcome (serve [] c (map Data ds)) = run_all fs v c"
  using serve_chunks [of ds "[]"] assms loop_decodes(1) [OF assms(4)] by simp

lemma serve_chunking:
  assumes "\<forall>d \<in> set ds. d \<noteq> []" "\<forall>e \<in> set es. e \<noteq> []" "concat ds = concat es" "fits (concat ds)"
  shows "outcome (serve [] c (map Data ds)) = outcome (serve [] c (map Data es))"
proof (cases "ds = []")
  case True
  then have "es = []" using assms(2,3) by (cases es) auto
  with True show ?thesis by simp
next
  case False
  then have "es \<noteq> []" using assms(1,3) by (cases ds) auto
  with False assms serve_chunks [of ds "[]"] serve_chunks [of es "[]"] show ?thesis by simp
qed

end

end
