(* ===== verification/Stomp.thy ===== *)
theory Stomp
  imports Rust_Str Stream_Parser
begin

text \<open>
  \<open>crates/vdsm-rpc/src/stomp.rs\<close>: STOMP 1.2 frames, their serializer, their parser and the
  frame builders. \<open>parse_frame\<close> returns \<open>Ok(Some((frame, rest)))\<close> as \<open>Parsed\<close>,
  \<open>Ok(None)\<close> as \<open>Incomplete\<close>, \<open>Err(e)\<close> as \<open>Failed\<close>; \<open>Panicked\<close> is the slice index panic of
  \<open>cursor[..n]\<close> after \<open>n + 1\<close> wrapped around (the release profile has no overflow checks).
  The interface \<open>stream_parser\<close> states what a connection handler needs of a parser of
  a byte stream, and its client lemma is that the frames read do not depend on how the bytes
  arrive; \<open>parse_frame\<close> is shown to provide it.
\<close>

section \<open>Frames\<close>

record frame =
  command :: string
  headers :: "(string \<times> string) list"
  body :: bytes

definition frame_new :: "string \<Rightarrow> frame" where
  "frame_new c = \<lparr>command = c, headers = [], body = []\<rparr>"

definition with_header :: "string \<Rightarrow> string \<Rightarrow> frame \<Rightarrow> frame" where
  "with_header k v f = f\<lparr>headers := headers f @ [(k, v)]\<rparr>"

definition with_body :: "bytes \<Rightarrow> frame \<Rightarrow> frame" where
  "with_body b f = f\<lparr>body := b\<rparr>"

text \<open>\<open>Frame::header\<close>: the first header of that name.\<close>

definition header :: "frame \<Rightarrow> string \<Rightarrow> string option" where
  "header f name = map_option snd (find (\<lambda>(k, v). k = name) (headers f))"

section \<open>Header escaping\<close>

fun escape_char :: "char \<Rightarrow> string" where
  "escape_char c =
     (if c = BSLASH then [BSLASH, BSLASH]
      else if c = CR then [BSLASH, CHR ''r'']
      else if c = NL then [BSLASH, CHR ''n'']
      else if c = COLON then [BSLASH, CHR ''c'']
      else [c])"

definition escape_header :: "string \<Rightarrow> string" where
  "escape_header s = concat (map escape_char s)"

fun unescape_header :: "string \<Rightarrow> string" where
  "unescape_header [] = []"
| "unescape_header [c] = [c]"
| "unescape_header (c # d # s) =
     (if c = BSLASH then
        (if d = BSLASH then BSLASH # unescape_header s
         else if d = CHR ''r'' then CR # unescape_header s
         else if d = CHR ''n'' then NL # unescape_header s
         else if d = CHR ''c'' then COLON # unescape_header s
         else BSLASH # d # unescape_header s)
      else c # unescape_header (d # s))"

section \<open>Serializer\<close>

definition header_line :: "string \<times> string \<Rightarrow> bytes" where
  "header_line kv = escape_header (fst kv) @ [COLON] @ escape_header (snd kv) @ [NL]"

definition to_bytes :: "frame \<Rightarrow> bytes" where
  "to_bytes f =
     command f @ [NL] @ concat (map header_line (headers f)) @ [NL] @ body f @ [NUL]"

section \<open>Parser\<close>

datatype parse_error =
    Malformed string
  | Utf8 utf8_error
  | ContentLengthMismatch u64 nat
  | BadContentLength string

datatype parse_outcome = Parsed frame bytes | Incomplete | Failed parse_error | Panicked

fun skip_heartbeats :: "bytes \<Rightarrow> bytes" where
  "skip_heartbeats [] = []"
| "skip_heartbeats [c] = (if c = NL then [] else [c])"
| "skip_heartbeats (c # d # r) =
     (if c = NL then skip_heartbeats (d # r)
      else if c = CR \<and> d = NL then skip_heartbeats r
      else c # d # r)"

definition strip_cr :: "bytes \<Rightarrow> bytes" where
  "strip_cr l = (if l \<noteq> [] \<and> last l = CR then butlast l else l)"

text \<open>One header line: key and value, with the first \<open>content-length\<close> parsed.\<close>

definition parse_header :: "bytes \<Rightarrow> u64 option \<Rightarrow> (parse_error, (string \<times> string) \<times> u64 option) result" where
  "parse_header raw clen =
     (case find_byte COLON raw of
        None \<Rightarrow> Inl (Malformed (''header line missing '' @ [SQUOTE, COLON, SQUOTE]))
      | Some i \<Rightarrow>
          (case from_utf8 (take i raw) of
             Inl e \<Rightarrow> Inl (Utf8 e)
           | Inr k \<Rightarrow>
               (case from_utf8 (drop (Suc i) raw) of
                  Inl e \<Rightarrow> Inl (Utf8 e)
                | Inr v \<Rightarrow>
                    (let key = unescape_header k; val = unescape_header v
                     in if key = ''content-length'' \<and> clen = None then
                          (case parse_u64 val of
                             None \<Rightarrow> Inl (BadContentLength val)
                           | Some n \<Rightarrow> Inr ((key, val), Some n))
                        else Inr ((key, val), clen)))))"

datatype headers_outcome =
    HDone "(string \<times> string) list" "u64 option" bytes
  | HIncomplete
  | HFailed parse_error

function parse_headers :: "(string \<times> string) list \<Rightarrow> u64 option \<Rightarrow> bytes \<Rightarrow> headers_outcome" where
  "parse_headers hs clen cursor =
     (case find_byte NL cursor of
        None \<Rightarrow> HIncomplete
      | Some i \<Rightarrow>
          (let raw = strip_cr (take i cursor); rest = drop (Suc i) cursor
           in if raw = [] then HDone hs clen rest
              else (case parse_header raw clen of
                      Inl e \<Rightarrow> HFailed e
                    | Inr (kv, clen') \<Rightarrow> parse_headers (hs @ [kv]) clen' rest)))"
  by pat_completeness auto
termination
  by (relation "measure (\<lambda>(hs, cl, c). length c)") (auto dest: find_byte_less)

declare parse_headers.simps [simp del]

text \<open>
  The body. \<open>n + 1\<close> is computed at 64 bits: for the largest \<open>n\<close> it wraps to 0, the length
  test passes and slicing \<open>cursor[..n]\<close> panics.
\<close>

definition parse_body :: "string \<Rightarrow> (string \<times> string) list \<Rightarrow> u64 option \<Rightarrow> bytes \<Rightarrow> parse_outcome" where
  "parse_body cmd hs clen cursor =
     (case clen of
        Some n \<Rightarrow>
          (if length cursor < unat (n + 1) then Incomplete
           else if length cursor < unat n then Panicked
           else if length cursor = unat n then Panicked
           else if cursor ! unat n \<noteq> NUL then
             Failed (ContentLengthMismatch n (unwrap_or (unat n) (find_byte NUL (take (unat n) cursor))))
           else Parsed \<lparr>command = cmd, headers = hs, body = take (unat n) cursor\<rparr>
                       (drop (Suc (unat n)) cursor))
      | None \<Rightarrow>
          (case find_byte NUL cursor of
             None \<Rightarrow> Incomplete
           | Some i \<Rightarrow> Parsed \<lparr>command = cmd, headers = hs, body = take i cursor\<rparr> (drop (Suc i) cursor)))"

definition parse_frame :: "bytes \<Rightarrow> parse_outcome" where
  "parse_frame input =
     (let cursor = skip_heartbeats input
      in if cursor = [] then Incomplete
         else
           (case find_byte NL cursor of
              None \<Rightarrow> Incomplete
            | Some i \<Rightarrow>
                (let command_line = strip_cr (take i cursor)
                 in if command_line = [] then Failed (Malformed ''empty command line'')
                    else
                      (case from_utf8 command_line of
                         Inl e \<Rightarrow> Failed (Utf8 e)
                       | Inr cmd \<Rightarrow>
                           (case parse_headers [] None (drop (Suc i) cursor) of
                              HIncomplete \<Rightarrow> Incomplete
                            | HFailed e \<Rightarrow> Failed e
                            | HDone hs clen rest \<Rightarrow> parse_body cmd hs clen rest)))))"

section \<open>Builders\<close>

definition connected_frame :: "string \<Rightarrow> string \<Rightarrow> string option \<Rightarrow> frame" where
  "connected_frame version server session =
     (let f = with_header ''heart-beat'' ''0,0''
                (with_header ''server'' server
                  (with_header ''version'' version (frame_new ''CONNECTED'')))
      in case session of None \<Rightarrow> f | Some s \<Rightarrow> with_header ''session'' s f)"

definition message_frame :: "string \<Rightarrow> string \<Rightarrow> bytes \<Rightarrow> frame" where
  "message_frame destination subscription b =
     with_body b
       (with_header ''content-length'' (nat_dec (length b))
         (with_header ''content-type'' ''application/json''
           (with_header ''subscription'' subscription
             (with_header ''destination'' destination (frame_new ''MESSAGE'')))))"

definition error_frame :: "string \<Rightarrow> string \<Rightarrow> frame" where
  "error_frame message b =
     with_body b
       (with_header ''content-length'' (nat_dec (length b))
         (with_header ''content-type'' ''text/plain''
           (with_header ''message'' message (frame_new ''ERROR''))))"

definition receipt_frame :: "string \<Rightarrow> frame" where
  "receipt_frame receipt_id = with_header ''receipt-id'' receipt_id (frame_new ''RECEIPT'')"

text \<open>The \<open>Display\<close> of a parse error, as \<open>thiserror\<close> derives it; it is the body of the ERROR frame.\<close>

definition utf8_error_text :: "utf8_error \<Rightarrow> string" where
  "utf8_error_text e =
     (case e of
        Utf8Error i (Some n) \<Rightarrow>
          ''invalid utf-8 sequence of '' @ nat_dec n @ '' bytes from index '' @ nat_dec i
      | Utf8Error i None \<Rightarrow> ''incomplete utf-8 byte sequence from index '' @ nat_dec i)"

definition parse_error_text :: "parse_error \<Rightarrow> string" where
  "parse_error_text e =
     (case e of
        Malformed m \<Rightarrow> ''malformed frame: '' @ m
      | Utf8 u \<Rightarrow> ''invalid utf-8 in command or header: '' @ utf8_error_text u
      | ContentLengthMismatch n a \<Rightarrow>
          ''declared content-length '' @ u64_str n @ '' disagrees with body terminator at '' @ nat_dec a
      | BadContentLength v \<Rightarrow> ''invalid content-length header: '' @ v)"

section \<open>Escaping\<close>

lemma escape_header_simps [simp]:
  "escape_header [] = []"
  "escape_header (c # s) = escape_char c @ escape_header s"
  "escape_header (s @ t) = escape_header s @ escape_header t"
  by (simp_all add: escape_header_def del: escape_char.simps)

lemma unescape_plain: "c \<noteq> BSLASH \<Longrightarrow> unescape_header (c # s) = c # unescape_header s"
  by (cases s) simp_all

lemma unescape_escape [simp]: "unescape_header (escape_header s) = s"
  by (induction s) (auto simp: unescape_plain)

lemma escape_header_clean:
  "NL \<notin> set (escape_header s)" "CR \<notin> set (escape_header s)" "COLON \<notin> set (escape_header s)"
  by (induction s) auto

lemma escape_header_valid [utf8_intros]: "utf8_valid s \<Longrightarrow> utf8_valid (escape_header s)"
  unfolding escape_header_def by (rule utf8_map_ascii) auto

lemma find_first_binding: "map_option snd (find (\<lambda>(k, v). k = name) hs) = map_of hs name"
  by (induction hs) auto

lemma header_map_of: "header f name = map_of (headers f) name"
  by (simp add: header_def find_first_binding)

section \<open>What the serializer writes, the parser reads\<close>

text \<open>
  The frames the wire format can carry: a non-empty command of one line, header texts that
  are Rust strings, and a \<open>content-length\<close> that agrees with the body where there is one,
  or a body without a zero byte where there is none.
\<close>

definition frame_ok :: "frame \<Rightarrow> bool" where
  "frame_ok f \<longleftrightarrow>
     command f \<noteq> [] \<and> NL \<notin> set (command f) \<and> last (command f) \<noteq> CR \<and> utf8_valid (command f) \<and>
     list_all (\<lambda>(k, v). utf8_valid k \<and> utf8_valid v) (headers f) \<and>
     (case header f ''content-length'' of
        None \<Rightarrow> NUL \<notin> set (body f)
      | Some v \<Rightarrow> parse_u64 v = Some (of_nat (length (body f))) \<and> length (body f) < 2 ^ 64 - 1)"

lemma strip_cr_id: "CR \<notin> set l \<Longrightarrow> strip_cr l = l"
  using last_in_set by (fastforce simp: strip_cr_def)

lemma parse_headers_step:
  assumes "NL \<notin> set l"
  shows "parse_headers hs clen (l @ NL # s) =
    (if strip_cr l = [] then HDone hs clen s
     else case parse_header (strip_cr l) clen of
            Inl e \<Rightarrow> HFailed e
          | Inr (kv, clen') \<Rightarrow> parse_headers (hs @ [kv]) clen' s)"
  using assms by (subst parse_headers.simps) (simp add: find_byte_here Let_def)

lemma parse_header_escaped:
  assumes "utf8_valid k" "utf8_valid v"
  shows "parse_header (escape_header k @ COLON # escape_header v) clen =
    (if k = ''content-length'' \<and> clen = None then
       (case parse_u64 v of None \<Rightarrow> Inl (BadContentLength v) | Some n \<Rightarrow> Inr ((k, v), Some n))
     else Inr ((k, v), clen))"
  using assms
  by (simp add: parse_header_def find_byte_here escape_header_clean escape_header_valid Let_def)

lemma header_line_snoc: "header_line (k, v) = (escape_header k @ COLON # escape_header v) @ [NL]"
  by (simp add: header_line_def)

lemma parse_headers_line:
  assumes "utf8_valid k" "utf8_valid v"
  shows "parse_headers hs clen (header_line (k, v) @ s) =
    (if k = ''content-length'' \<and> clen = None then
       (case parse_u64 v of
          None \<Rightarrow> HFailed (BadContentLength v)
        | Some n \<Rightarrow> parse_headers (hs @ [(k, v)]) (Some n) s)
     else parse_headers (hs @ [(k, v)]) clen s)"
proof -
  let ?l = "escape_header k @ COLON # escape_header v"
  have "NL \<notin> set ?l" "strip_cr ?l = ?l" using escape_header_clean by (auto intro!: strip_cr_id)
  then have "parse_headers hs clen (?l @ NL # s) =
    (case parse_header ?l clen of
       Inl e \<Rightarrow> HFailed e | Inr (kv, clen') \<Rightarrow> parse_headers (hs @ [kv]) clen' s)"
    using parse_headers_step [of ?l hs clen s] by simp
  then show ?thesis
    by (simp add: header_line_snoc parse_header_escaped [OF assms] split: option.splits)
qed

lemma parse_headers_blank: "parse_headers hs clen (NL # s) = HDone hs clen s"
  using parse_headers_step [of "[]"] by (simp add: strip_cr_def)

text \<open>The header block as a whole, once the content length is known and before.\<close>

lemma parse_headers_known:
  assumes "list_all (\<lambda>(k, v). utf8_valid k \<and> utf8_valid v) kvs"
  shows "parse_headers hs (Some n) (concat (map header_line kvs) @ NL # s) = HDone (hs @ kvs) (Some n) s"
  using assms
  by (induction kvs arbitrary: hs) (auto simp: parse_headers_blank parse_headers_line)

lemma parse_headers_all:
  assumes "list_all (\<lambda>(k, v). utf8_valid k \<and> utf8_valid v) kvs"
    and "\<And>v. map_of kvs ''content-length'' = Some v \<Longrightarrow> parse_u64 v \<noteq> None"
  shows "parse_headers hs None (concat (map header_line kvs) @ NL # s) =
    HDone (hs @ kvs) (Option.bind (map_of kvs ''content-length'') parse_u64) s"
  using assms
proof (induction kvs arbitrary: hs)
  case Nil
  then show ?case by (simp add: parse_headers_blank)
next
  case (Cons kv kvs)
  obtain k v where kv: "kv = (k, v)" by fastforce
  have val: "utf8_valid k" "utf8_valid v" "list_all (\<lambda>(k, v). utf8_valid k \<and> utf8_valid v) kvs"
    using Cons.prems(1) by (auto simp: kv)
  show ?case
  proof (cases "k = ''content-length''")
    case True
    then obtain n where "parse_u64 v = Some n" using Cons.prems(2) [of v] by (auto simp: kv)
    with True val show ?thesis
      by (simp add: kv parse_headers_line parse_headers_known)
  next
    case False
    have "\<And>w. map_of kvs ''content-length'' = Some w \<Longrightarrow> parse_u64 w \<noteq> None"
      using Cons.prems(2) False by (simp add: kv)
    from Cons.IH [OF val(3) this, of "hs @ [(k, v)]"] False val show ?thesis
      by (simp add: kv parse_headers_line)
  qed
qed

text \<open>Leading heartbeats (line feeds, with or without a carriage return) are skipped.\<close>

lemma skip_heartbeats_NL [simp]: "skip_heartbeats (NL # s) = skip_heartbeats s"
  by (cases s) simp_all

lemma skip_heartbeats_command:
  assumes "c \<noteq> []" "NL \<notin> set c" "last c \<noteq> CR"
  shows "skip_heartbeats (c @ NL # s) = c @ NL # s"
proof (cases c)
  case (Cons x xs)
  show ?thesis
  proof (cases xs)
    case Nil
    with Cons assms show ?thesis by simp
  next
    case (Cons y ys)
    with \<open>c = x # xs\<close> assms show ?thesis by auto
  qed
qed (use assms in simp)

lemma parse_body_sized:
  assumes "length b < 2 ^ 64 - 1"
  shows "parse_body cmd hs (Some (of_nat (length b))) (b @ NUL # rest) =
    Parsed \<lparr>command = cmd, headers = hs, body = b\<rparr> rest"
proof -
  have n: "unat (of_nat (length b) :: u64) = length b"
    using assms by (simp add: unat_of_nat)
  have "unat (of_nat (length b) + 1 :: u64) = unat (of_nat (Suc (length b)) :: u64)"
    by (simp add: add.commute)
  also have "\<dots> = Suc (length b)" using assms by (simp add: unat_of_nat del: of_nat_Suc)
  finally show ?thesis by (simp add: parse_body_def n)
qed

lemma parse_body_until_nul:
  "NUL \<notin> set b \<Longrightarrow> parse_body cmd hs None (b @ NUL # rest) = Parsed \<lparr>command = cmd, headers = hs, body = b\<rparr> rest"
  by (simp add: parse_body_def find_byte_here)

lemma parse_frame_command:
  assumes "c \<noteq> []" "NL \<notin> set c" "last c \<noteq> CR" "utf8_valid c"
  shows "parse_frame (c @ NL # s) =
    (case parse_headers [] None s of
       HIncomplete \<Rightarrow> Incomplete
     | HFailed e \<Rightarrow> Failed e
     | HDone hs clen rest \<Rightarrow> parse_body c hs clen rest)"
proof -
  have "strip_cr c = c" using assms by (simp add: strip_cr_def)
  with assms show ?thesis
    by (simp add: parse_frame_def Let_def skip_heartbeats_command find_byte_here)
qed

lemma parse_to_bytes:
  assumes "frame_ok f"
  shows "parse_frame (to_bytes f @ rest) = Parsed f rest"
proof -
  note ok = assms [unfolded frame_ok_def header_map_of]
  let ?cl = "Option.bind (map_of (headers f) ''content-length'') parse_u64"
  have hs: "parse_headers [] None (concat (map header_line (headers f)) @ NL # body f @ NUL # rest) =
      HDone (headers f) ?cl (body f @ NUL # rest)"
    using ok parse_headers_all [of "headers f" "[]"] by (auto split: option.splits)
  have "parse_body (command f) (headers f) ?cl (body f @ NUL # rest) = Parsed f rest"
    using ok by (auto simp: parse_body_sized parse_body_until_nul split: option.splits)
  with hs ok show ?thesis
    by (simp add: to_bytes_def parse_frame_command)
qed

section \<open>Progress and stability\<close>

lemma length_skip_heartbeats: "length (skip_heartbeats s) \<le> length s"
  by (induction s rule: skip_heartbeats.induct) auto

lemma parse_headers_rest: "parse_headers hs cl s = HDone hs' cl' r \<Longrightarrow> length r < length s"
proof (induction hs cl s rule: parse_headers.induct)
  case (1 hs cl s)
  note p = "1.prems" [unfolded parse_headers.simps [of hs cl s]]
  then obtain i where i: "find_byte NL s = Some i" by (auto split: option.splits)
  then have len: "length (drop (Suc i) s) < length s" using find_byte_less [OF i] by simp
  show ?case
  proof (cases "strip_cr (take i s) = []")
    case True
    with p i len show ?thesis by simp
  next
    case False
    with p i obtain kv cl2 where "parse_header (strip_cr (take i s)) cl = Inr (kv, cl2)"
      "parse_headers (hs @ [kv]) cl2 (drop (Suc i) s) = HDone hs' cl' r"
      by (auto simp: Let_def split: sum.splits)
    from "1.IH" [OF i refl refl False this(1) refl this(2)] len show ?thesis by simp
  qed
qed

lemma parse_body_rest: "parse_body c hs cl s = Parsed f r \<Longrightarrow> length r < length s"
  by (auto simp: parse_body_def split: option.splits if_splits dest: find_byte_less)

lemma parse_frame_shorter:
  assumes "parse_frame b = Parsed f r"
  shows "length r < length b"
proof -
  obtain i hs cl s where "parse_headers [] None (drop (Suc i) (skip_heartbeats b)) = HDone hs cl s"
    and "length r < length s"
    using assms unfolding parse_frame_def Let_def
    by (auto split: option.splits if_splits sum.splits headers_outcome.splits dest: parse_body_rest)
  then have "length r < length (drop (Suc i) (skip_heartbeats b))"
    using parse_headers_rest by fastforce
  then show ?thesis using length_skip_heartbeats [of b] by simp
qed

lemma skip_heartbeats_append:
  "NL \<in> set (skip_heartbeats b) \<Longrightarrow> skip_heartbeats (b @ x) = skip_heartbeats b @ x"
  by (induction b rule: skip_heartbeats.induct) (auto split: if_splits)

lemma parse_headers_append:
  "parse_headers hs cl s = HDone hs' cl' r \<Longrightarrow> parse_headers hs cl (s @ x) = HDone hs' cl' (r @ x)"
  "parse_headers hs cl s = HFailed e \<Longrightarrow> parse_headers hs cl (s @ x) = HFailed e"
proof (induction hs cl s rule: parse_headers.induct)
  case (1 hs cl s)
  have step: "parse_headers hs cl (s @ x) =
      (let raw = strip_cr (take i s); rest = drop (Suc i) s
       in if raw = [] then HDone hs cl (rest @ x)
          else case parse_header raw cl of
                 Inl e \<Rightarrow> HFailed e
               | Inr (kv, cl2) \<Rightarrow> parse_headers (hs @ [kv]) cl2 (rest @ x))"
    if "find_byte NL s = Some i" for i
    using that find_byte_less [OF that]
    by (subst parse_headers.simps) (simp add: find_byte_stable Let_def)
  show "parse_headers hs cl (s @ x) = HDone hs' cl' (r @ x)" if "parse_headers hs cl s = HDone hs' cl' r"
    using that [unfolded parse_headers.simps [of hs cl s]] "1.IH"(1)
    by (auto simp: step Let_def split: option.splits if_splits sum.splits)
  show "parse_headers hs cl (s @ x) = HFailed e" if "parse_headers hs cl s = HFailed e"
    using that [unfolded parse_headers.simps [of hs cl s]] "1.IH"(2)
    by (auto simp: step Let_def split: option.splits if_splits sum.splits)
qed

lemma parse_body_append:
  "parse_body c hs cl s = Parsed f r \<Longrightarrow> parse_body c hs cl (s @ x) = Parsed f (r @ x)"
  "parse_body c hs cl s = Failed e \<Longrightarrow> parse_body c hs cl (s @ x) = Failed e"
  "parse_body c hs cl s = Panicked \<Longrightarrow> length (s @ x) < 2 ^ 64 \<Longrightarrow> parse_body c hs cl (s @ x) = Panicked"
proof -
  show "parse_body c hs cl s = Parsed f r \<Longrightarrow> parse_body c hs cl (s @ x) = Parsed f (r @ x)"
    using find_byte_less [of NUL s]
    by (auto simp: parse_body_def find_byte_stable nth_append split: option.splits if_splits)
  show "parse_body c hs cl s = Failed e \<Longrightarrow> parse_body c hs cl (s @ x) = Failed e"
    by (auto simp: parse_body_def nth_append split: option.splits if_splits)
  assume p: "parse_body c hs cl s = Panicked" and len: "length (s @ x) < 2 ^ 64"
  from p obtain n where n: "cl = Some n" "unat (n + 1) \<le> length s" "length s \<le> unat n"
    by (fastforce simp: parse_body_def split: option.splits if_splits)
  then have "unat n = 2 ^ 64 - 1" using u64_succ_wraps [of n] by auto
  with n len show "parse_body c hs cl (s @ x) = Panicked"
    by (auto simp: parse_body_def)
qed

lemma parse_frame_header_stage:
  assumes "parse_frame b \<noteq> Incomplete"
  shows "\<exists>i. find_byte NL (skip_heartbeats b) = Some i"
  using assms by (auto simp: parse_frame_def Let_def split: option.splits if_splits)

lemma parse_frame_append:
  assumes "find_byte NL (skip_heartbeats b) = Some i"
  shows "parse_frame (b @ x) =
    (let command_line = strip_cr (take i (skip_heartbeats b))
     in if command_line = [] then Failed (Malformed ''empty command line'')
        else (case from_utf8 command_line of
                Inl e \<Rightarrow> Failed (Utf8 e)
              | Inr cmd \<Rightarrow>
                  (case parse_headers [] None (drop (Suc i) (skip_heartbeats b) @ x) of
                     HIncomplete \<Rightarrow> Incomplete
                   | HFailed e \<Rightarrow> Failed e
                   | HDone hs clen rest \<Rightarrow> parse_body cmd hs clen rest)))"
proof -
  from find_byte_SomeE [OF assms] obtain pre post where
    y: "skip_heartbeats b = pre @ NL # post" "NL \<notin> set pre" "i = length pre" .
  then have "skip_heartbeats (b @ x) = pre @ NL # post @ x" by (simp add: skip_heartbeats_append)
  with y show ?thesis by (simp add: parse_frame_def Let_def find_byte_here split: sum.splits)
qed

lemma parse_frame_stable:
  "parse_frame b = Parsed f r \<Longrightarrow> parse_frame (b @ x) = Parsed f (r @ x)"
  "parse_frame b = Failed e \<Longrightarrow> parse_frame (b @ x) = Failed e"
  "parse_frame b = Panicked \<Longrightarrow> length (b @ x) < 2 ^ 64 \<Longrightarrow> parse_frame (b @ x) = Panicked"
proof -
  have stage: "\<exists>i. find_byte NL (skip_heartbeats b) = Some i" if "parse_frame b \<noteq> Incomplete"
    using that by (rule parse_frame_header_stage)
  note split = option.splits if_splits sum.splits headers_outcome.splits
  show "parse_frame b = Parsed f r \<Longrightarrow> parse_frame (b @ x) = Parsed f (r @ x)"
    using stage parse_frame_append [of b _ x] parse_frame_append [of b _ "[]"]
    by (auto simp: Let_def parse_headers_append parse_body_append split: split)
  show "parse_frame b = Failed e \<Longrightarrow> parse_frame (b @ x) = Failed e"
    using stage parse_frame_append [of b _ x] parse_frame_append [of b _ "[]"]
    by (auto simp: Let_def parse_headers_append split: split) (metis parse_body_append(2))
  assume p: "parse_frame b = Panicked" and len: "length (b @ x) < 2 ^ 64"
  from stage p obtain i where i: "find_byte NL (skip_heartbeats b) = Some i" by auto
  from p parse_frame_append [OF i, of "[]"] obtain hs cl s where
    s: "parse_headers [] None (drop (Suc i) (skip_heartbeats b)) = HDone hs cl s"
    and cmd: "strip_cr (take i (skip_heartbeats b)) \<noteq> []" "utf8_valid (strip_cr (take i (skip_heartbeats b)))"
    and body: "parse_body (strip_cr (take i (skip_heartbeats b))) hs cl s = Panicked"
    by (auto simp: Let_def from_utf8_Inr split: split)
  have "length s < length (skip_heartbeats b)" using parse_headers_rest [OF s] by simp
  then have "length (s @ x) < 2 ^ 64" using len length_skip_heartbeats [of b] by simp
  from parse_body_append(3) [OF body this] cmd s show "parse_frame (b @ x) = Panicked"
    by (simp add: parse_frame_append [OF i] Let_def parse_headers_append)
qed

section \<open>The parser as a stream parser\<close>

datatype parse_stop = StopError parse_error | StopPanic

definition frame_got :: "bytes \<Rightarrow> (frame \<times> bytes) option" where
  "frame_got b = (case parse_frame b of Parsed f r \<Rightarrow> Some (f, r) | _ \<Rightarrow> None)"

definition frame_bad :: "bytes \<Rightarrow> parse_stop option" where
  "frame_bad b =
     (case parse_frame b of Failed e \<Rightarrow> Some (StopError e) | Panicked \<Rightarrow> Some StopPanic | _ \<Rightarrow> None)"

definition slice_fits :: "bytes \<Rightarrow> bool" where
  "slice_fits b \<longleftrightarrow> length b < 2 ^ 64"

lemma frame_got_iff: "frame_got b = Some (f, r) \<longleftrightarrow> parse_frame b = Parsed f r"
  by (auto simp: frame_got_def split: parse_outcome.splits)

lemma frame_bad_iff:
  "frame_bad b = Some v \<longleftrightarrow>
     (\<exists>e. v = StopError e \<and> parse_frame b = Failed e) \<or> v = StopPanic \<and> parse_frame b = Panicked"
  by (auto simp: frame_bad_def split: parse_outcome.splits)

lemma frame_idle_iff: "frame_got b = None \<and> frame_bad b = None \<longleftrightarrow> parse_frame b = Incomplete"
  by (auto simp: frame_got_def frame_bad_def split: parse_outcome.splits)

interpretation stomp: framed_codec frame_got frame_bad slice_fits to_bytes frame_ok
proof
  fix b r x :: bytes and f :: frame
  show "frame_got b = Some (f, r) \<Longrightarrow> length r < length b"
    by (simp add: frame_got_iff parse_frame_shorter)
  show "frame_got b = Some (f, r) \<Longrightarrow> slice_fits (b @ x) \<Longrightarrow> frame_got (b @ x) = Some (f, r @ x)"
    by (simp add: frame_got_iff parse_frame_stable)
  show "frame_got b = Some (f, r) \<Longrightarrow> slice_fits (b @ x) \<Longrightarrow> slice_fits (r @ x)"
    using parse_frame_shorter [of b f r] by (simp add: frame_got_iff slice_fits_def)
  show "frame_ok f \<Longrightarrow> frame_got (to_bytes f @ x) = Some (f, x)"
    by (simp add: frame_got_iff parse_to_bytes)
next
  fix b x :: bytes and e
  show "frame_bad b = Some e \<Longrightarrow> slice_fits (b @ x) \<Longrightarrow> frame_bad (b @ x) = Some e"
    by (auto simp: frame_bad_iff slice_fits_def parse_frame_stable)
next
  fix b p
  show "frame_got b = Some p \<Longrightarrow> frame_bad b = None"
    by (auto simp: frame_got_def frame_bad_def split: parse_outcome.splits)
qed (simp_all add: frame_got_def frame_bad_def parse_frame_def)

section \<open>The frames the server builds\<close>

lemma connected_frame_ok:
  "utf8_valid version \<Longrightarrow> utf8_valid server \<Longrightarrow> pred_option utf8_valid session \<Longrightarrow>
   frame_ok (connected_frame version server session)"
  by (cases session)
    (simp_all add: frame_ok_def connected_frame_def Let_def with_header_def frame_new_def header_map_of)

lemma message_frame_ok:
  "utf8_valid destination \<Longrightarrow> utf8_valid subscription \<Longrightarrow> length b < 2 ^ 64 - 1 \<Longrightarrow>
   frame_ok (message_frame destination subscription b)"
  by (simp add: frame_ok_def message_frame_def with_header_def with_body_def frame_new_def header_map_of
      parse_u64_dec)

lemma error_frame_ok:
  "utf8_valid message \<Longrightarrow> length b < 2 ^ 64 - 1 \<Longrightarrow> frame_ok (error_frame message b)"
  by (simp add: frame_ok_def error_frame_def with_header_def with_body_def frame_new_def header_map_of
      parse_u64_dec)

lemma receipt_frame_ok: "utf8_valid i \<Longrightarrow> frame_ok (receipt_frame i)"
  by (simp add: frame_ok_def receipt_frame_def with_header_def frame_new_def header_map_of)

lemmas built_frame_ok = connected_frame_ok message_frame_ok error_frame_ok receipt_frame_ok

section \<open>What the parser delivers\<close>

lemma unescape_skip: "BSLASH \<notin> set a \<Longrightarrow> unescape_header (a @ r) = a @ unescape_header r"
  by (induction a) (auto simp: unescape_plain)

lemma utf8_char_cases:
  assumes "utf8_char ch"
  obtains (ascii) c where "ch = [c]" "byte c < 128"
  | (high) d r where "ch = d # r" "\<forall>x \<in> set ch. 128 \<le> byte x"
  using assms unfolding utf8_char_def by (metis (mono_tags, lifting))

lemma unescape_valid [utf8_intros]:
  assumes "utf8_valid s"
  shows "utf8_valid (unescape_header s)"
proof -
  from assms have "utf8_valid (unescape_header s) \<and> utf8_valid (unescape_header (BSLASH # s))"
  proof (induction rule: utf8_induct)
    case (char ch r)
    from char.hyps(1) show ?case
    proof (cases rule: utf8_char_cases)
      case (ascii c)
      with char show ?thesis by (cases "c = BSLASH") (auto simp: unescape_plain)
    next
      case (high d t)
      have "BSLASH \<notin> set ch" using high(2) by fastforce
      then have "unescape_header (ch @ r) = ch @ unescape_header r"
        "unescape_header (t @ r) = t @ unescape_header r"
        using high(1) unescape_skip [of ch r] unescape_skip [of t r] by simp_all
      moreover have "d \<noteq> BSLASH" "d \<noteq> CHR ''r''" "d \<noteq> CHR ''n''" "d \<noteq> CHR ''c''" using high by auto
      ultimately have "unescape_header (BSLASH # ch @ r) = BSLASH # ch @ unescape_header r"
        using high by simp
      with char utf8_char_valid [OF char.hyps(1)] show ?thesis
        using \<open>unescape_header (ch @ r) = ch @ unescape_header r\<close> by (simp add: utf8_valid_append)
    qed
  qed simp
  then show ?thesis by simp
qed

lemma length_unescape: "length (unescape_header s) \<le> length s"
  by (induction s rule: unescape_header.induct) auto

text \<open>The header texts of a parsed frame are Rust strings.\<close>

definition headers_text :: "(string \<times> string) list \<Rightarrow> bool" where
  "headers_text hs \<longleftrightarrow> list_all (\<lambda>(k, v). utf8_valid k \<and> utf8_valid v) hs"

lemma parse_header_text: "parse_header raw cl = Inr ((k, v), cl') \<Longrightarrow> utf8_valid k \<and> utf8_valid v"
  by (auto simp: parse_header_def Let_def from_utf8_Inr unescape_valid
      split: option.splits sum.splits if_splits)

lemma parse_headers_text:
  "parse_headers hs cl s = HDone hs' cl' r \<Longrightarrow> headers_text hs \<Longrightarrow> headers_text hs'"
proof (induction hs cl s rule: parse_headers.induct)
  case (1 hs cl s)
  note p = "1.prems"(1) [unfolded parse_headers.simps [of hs cl s]]
  then obtain i where i: "find_byte NL s = Some i" by (auto split: option.splits)
  show ?case
  proof (cases "strip_cr (take i s) = []")
    case True
    with p i "1.prems"(2) show ?thesis by simp
  next
    case False
    with p i obtain k v cl2 where h: "parse_header (strip_cr (take i s)) cl = Inr ((k, v), cl2)"
      "parse_headers (hs @ [(k, v)]) cl2 (drop (Suc i) s) = HDone hs' cl' r"
      by (auto simp: Let_def split: sum.splits)
    have "headers_text (hs @ [(k, v)])"
      using "1.prems"(2) parse_header_text [OF h(1)] by (simp add: headers_text_def list_all_iff)
    from "1.IH" [OF i refl refl False h(1) refl h(2) this] show ?thesis .
  qed
qed

lemma parse_frame_text: "parse_frame b = Parsed f r \<Longrightarrow> headers_text (headers f)"
  by (auto simp: parse_frame_def parse_body_def Let_def headers_text_def
      split: option.splits if_splits sum.splits headers_outcome.splits
      dest!: parse_headers_text)

lemma header_text: "headers_text (headers f) \<Longrightarrow> header f k = Some v \<Longrightarrow> utf8_valid v"
  by (auto simp: header_map_of headers_text_def list_all_iff dest!: map_of_SomeD)

text \<open>The text of a parse error is hardly longer than the input.\<close>

definition error_short :: "nat \<Rightarrow> parse_error \<Rightarrow> bool" where
  "error_short n e \<longleftrightarrow>
     (case e of
        Malformed m \<Rightarrow> length m \<le> 100
      | Utf8 (Utf8Error i k) \<Rightarrow> i \<le> n \<and> unwrap_or 0 k \<le> Suc n
      | ContentLengthMismatch l a \<Rightarrow> a \<le> unat l
      | BadContentLength v \<Rightarrow> length v \<le> n)"

lemma error_short_mono: "error_short n e \<Longrightarrow> n \<le> m \<Longrightarrow> error_short m e"
  by (auto simp: error_short_def split: parse_error.splits utf8_error.splits)

lemma from_utf8_short: "from_utf8 s = Inl e \<Longrightarrow> error_short (length s) (Utf8 e)"
proof -
  have "utf8_check i s = Some (Utf8Error j k) \<Longrightarrow> j \<le> i + length s \<and> unwrap_or 0 k \<le> Suc (length s)"
    for i j k
  proof (induction i s rule: utf8_check.induct)
    case (2 i c r)
    then show ?case
      using utf8_step_Valid [of c r] utf8_step_Invalid [of c r]
      by (fastforce split: utf8_step.splits)
  qed simp
  then show "from_utf8 s = Inl e \<Longrightarrow> error_short (length s) (Utf8 e)"
    by (cases e) (fastforce simp: from_utf8_def error_short_def split: option.splits)
qed

lemma unescaped_short:
  "from_utf8 s = Inr v \<Longrightarrow> length s \<le> n \<Longrightarrow> error_short n (BadContentLength (unescape_header v))"
  using length_unescape [of v] by (simp add: from_utf8_Inr error_short_def)

lemma parse_header_short:
  assumes "parse_header raw cl = Inl e"
  shows "error_short (length raw) e"
proof (cases "find_byte COLON raw")
  case None
  with assms show ?thesis by (auto simp: parse_header_def error_short_def)
next
  case (Some i)
  have "error_short (length raw) (Utf8 u)" if "from_utf8 (take i raw) = Inl u \<or> from_utf8 (drop (Suc i) raw) = Inl u" for u
    using that by (elim disjE) (auto dest!: from_utf8_short intro: error_short_mono)
  with assms Some show ?thesis
    by (auto simp: parse_header_def Let_def split: sum.splits if_splits option.splits intro: unescaped_short)
qed

lemma parse_headers_short: "parse_headers hs cl s = HFailed e \<Longrightarrow> error_short (length s) e"
proof (induction hs cl s rule: parse_headers.induct)
  case (1 hs cl s)
  note p = "1.prems" [unfolded parse_headers.simps [of hs cl s]]
  then obtain i where i: "find_byte NL s = Some i" by (auto split: option.splits)
  have len: "length (strip_cr (take i s)) \<le> length s" by (auto simp: strip_cr_def)
  from p i have raw: "strip_cr (take i s) \<noteq> []" by auto
  show ?case
  proof (cases "parse_header (strip_cr (take i s)) cl")
    case (Inl e')
    with p i raw have "e' = e" by (auto simp: Let_def)
    with parse_header_short [OF Inl] len show ?thesis by (auto intro: error_short_mono)
  next
    case (Inr q)
    obtain kv cl2 where q: "q = (kv, cl2)" by fastforce
    with p i raw Inr have "parse_headers (hs @ [kv]) cl2 (drop (Suc i) s) = HFailed e"
      by (auto simp: Let_def)
    from "1.IH" [OF i refl refl raw Inr q [symmetric] this] show ?thesis by (auto intro: error_short_mono)
  qed
qed

lemma parse_body_short: "parse_body cmd hs cl s = Failed e \<Longrightarrow> error_short n e"
  by (auto simp: parse_body_def error_short_def unwrap_or_def split: option.splits if_splits
      dest!: find_byte_less)

lemma parse_frame_short:
  assumes "parse_frame b = Failed e"
  shows "error_short (length b) e"
proof -
  let ?c = "skip_heartbeats b"
  have le: "length ?c \<le> length b" by (rule length_skip_heartbeats)
  obtain i where i: "find_byte NL ?c = Some i" using parse_frame_header_stage [of b] assms by auto
  have "length (strip_cr (take i ?c)) \<le> length b" using le by (auto simp: strip_cr_def)
  moreover have "length (drop (Suc i) ?c) \<le> length b" using le by simp
  ultimately have parts: "from_utf8 (strip_cr (take i ?c)) = Inl u \<Longrightarrow> error_short (length b) (Utf8 u)"
    "parse_headers [] None (drop (Suc i) ?c) = HFailed u' \<Longrightarrow> error_short (length b) u'" for u u'
    using from_utf8_short parse_headers_short error_short_mono by blast+
  moreover have "error_short (length b) (Malformed ''empty command line'')" by (simp add: error_short_def)
  ultimately show ?thesis
    using assms parse_frame_append [OF i, of "[]"] parse_body_short
    by (auto simp: Let_def split: if_splits sum.splits headers_outcome.splits)
qed

lemma error_text_bound:
  assumes "error_short n e" "n < 2 ^ 63"
  shows "length (parse_error_text e) < 2 ^ 64 - 1"
proof -
  have dec: "length (nat_dec k) \<le> 20" if "k < 18446744073709551616" for k
    using that by (intro length_nat_dec) simp_all
  show ?thesis
  proof (cases e)
    case (Utf8 u)
    obtain i k where u: "u = Utf8Error i k" by (cases u) auto
    with assms Utf8 have "length (nat_dec i) \<le> 20" "length (nat_dec (unwrap_or 0 k)) \<le> 20"
      by (auto simp: error_short_def intro!: dec)
    then show ?thesis
      by (cases k) (simp_all add: Utf8 u parse_error_text_def utf8_error_text_def)
  next
    case (ContentLengthMismatch l a)
    then have "length (nat_dec a) \<le> 20" "length (nat_dec (unat l)) \<le> 20"
      using assms u64_bound [of l] by (auto simp: error_short_def intro!: dec)
    then show ?thesis by (simp add: ContentLengthMismatch parse_error_text_def u64_str_def)
  qed (use assms in \<open>simp_all add: error_short_def parse_error_text_def\<close>)
qed

section \<open>The one panic of the parser\<close>

lemma u64_max_unat: "unat (- 1 :: u64) = 18446744073709551615"
  by (simp add: unsigned_minus_1_eq_mask mask_eq_exp_minus_1)

lemma u64_max: "(n :: u64) = - 1 \<longleftrightarrow> unat n = 18446744073709551615"
proof
  assume "unat n = 18446744073709551615"
  then have "unat n = unat (- 1 :: u64)" by (simp add: u64_max_unat)
  then show "n = - 1" by (simp only: word_unat_eq_iff)
qed (simp add: u64_max_unat)

lemma parse_body_panic:
  assumes "length s < 2 ^ 64 - 1"
  shows "parse_body cmd hs cl s = Panicked \<longleftrightarrow> cl = Some (- 1)"
proof
  assume "parse_body cmd hs cl s = Panicked"
  then obtain n where "cl = Some n" "unat (n + 1) \<le> length s" "length s \<le> unat n"
    by (fastforce simp: parse_body_def split: option.splits if_splits)
  then show "cl = Some (- 1)" using u64_succ_wraps [of n] by (auto simp: u64_max)
qed (use assms in \<open>simp add: parse_body_def u64_max_unat\<close>)

section \<open>Properties of the wire format\<close>

text \<open>
  C1: what \<open>Frame::to_bytes\<close> writes, \<open>parse_frame\<close> reads back, header escaping and a body with
  zero bytes included, and leaves the bytes that follow untouched; on every proper prefix of
  the bytes it asks for more input instead of failing or returning another frame.
\<close>

theorem stomp_frame_roundtrip:
  assumes "frame_ok f" "length (to_bytes f) < 2 ^ 64"
  shows "parse_frame (to_bytes f @ rest) = Parsed f rest \<and>
    (\<forall>p x. to_bytes f = p @ x \<and> x \<noteq> [] \<longrightarrow> parse_frame p = Incomplete)"
proof (intro conjI allI impI; (elim conjE)?)
  show "parse_frame (to_bytes f @ rest) = Parsed f rest" by (rule parse_to_bytes [OF assms(1)])
  fix p x
  assume px: "to_bytes f = p @ x" "x \<noteq> []"
  have whole: "parse_frame (p @ x) = Parsed f []" using parse_to_bytes [OF assms(1), of "[]"] px by simp
  show "parse_frame p = Incomplete"
  proof (cases "parse_frame p")
    case (Parsed g r)
    with whole px show ?thesis using parse_frame_stable(1) [OF Parsed, of x] by simp
  next
    case (Failed e)
    with whole show ?thesis using parse_frame_stable(2) [OF Failed, of x] by simp
  next
    case Panicked
    with whole px assms(2) show ?thesis using parse_frame_stable(3) [OF Panicked, of x] by simp
  qed simp
qed

theorem stomp_frame_roundtrip_witness:
  "parse_frame (to_bytes (message_frame ''/q:1'' ''0'' [NUL, NL]) @ [NL]) =
     Parsed (message_frame ''/q:1'' ''0'' [NUL, NL]) [NL] \<and>
   parse_frame (butlast (to_bytes (message_frame ''/q:1'' ''0'' [NUL, NL]))) = Incomplete"
proof -
  let ?f = "message_frame ''/q:1'' ''0'' [NUL, NL]"
  have ok: "frame_ok ?f" by (rule message_frame_ok) simp_all
  have "to_bytes ?f = butlast (to_bytes ?f) @ [NUL]" by (simp add: to_bytes_def butlast_append)
  moreover have "length (to_bytes ?f) < 2 ^ 64"
    by (simp add: to_bytes_def message_frame_def with_header_def with_body_def frame_new_def
        header_line_def nat_dec.simps)
  ultimately show ?thesis
    using stomp_frame_roundtrip [OF ok, of "[NL]"] by blast
qed

text \<open>
  C9: \<open>parse_frame\<close> panics on an input exactly when the header block declares the content
  length 18446744073709551615: \<open>n + 1\<close> wraps to 0, the length check passes and the slice
  \<open>cursor[..n]\<close> is out of range. No other input makes it panic.
\<close>

theorem parse_frame_panic_iff:
  assumes "length b < 2 ^ 64 - 1"
  shows "parse_frame b = Panicked \<longleftrightarrow>
    (\<exists>i cmd hs rest.
       find_byte NL (skip_heartbeats b) = Some i \<and>
       from_utf8 (strip_cr (take i (skip_heartbeats b))) = Inr cmd \<and> cmd \<noteq> [] \<and>
       parse_headers [] None (drop (Suc i) (skip_heartbeats b)) = HDone hs (Some (- 1)) rest)"
proof (cases "find_byte NL (skip_heartbeats b)")
  case None
  then show ?thesis using parse_frame_header_stage [of b] by auto
next
  case (Some i)
  have short: "length rest < 2 ^ 64 - 1"
    if "parse_headers [] None (drop (Suc i) (skip_heartbeats b)) = HDone hs cl rest" for hs cl rest
    using parse_headers_rest [OF that] assms length_skip_heartbeats [of b] by simp
  show ?thesis
    using Some parse_frame_append [OF Some, of "[]"] parse_body_panic [OF short]
    by (auto simp: Let_def from_utf8_Inr split: sum.splits headers_outcome.splits)
qed

theorem parse_frame_panic_iff_witness:
  "parse_frame (''SEND'' @ [NL] @ ''content-length:18446744073709551615'' @ [NL, NL]) = Panicked"
proof -
  let ?h = "''content-length:18446744073709551615'' @ [NL, NL]"
  let ?b = "''SEND'' @ [NL] @ ?h"
  have "length ?b < 2 ^ 64 - 1" by simp
  note iff = parse_frame_panic_iff [OF this]
  have "find_byte NL (skip_heartbeats ?b) = Some 4" by simp
  moreover have "from_utf8 (strip_cr (take 4 (skip_heartbeats ?b))) = Inr ''SEND''"
    by (simp add: strip_cr_def)
  moreover have "parse_headers [] None (drop (Suc 4) (skip_heartbeats ?b)) =
      HDone [(''content-length'', ''18446744073709551615'')] (Some (- 1)) []"
  proof -
    have "parse_u64 ''18446744073709551615'' = Some (- 1)"
      by (simp add: parse_u64_def parse_unsigned_def is_digit_def digit_val_def)
    then have "parse_headers [] None (header_line (''content-length'', ''18446744073709551615'') @ [NL]) =
        HDone [(''content-length'', ''18446744073709551615'')] (Some (- 1)) []"
      by (simp add: parse_headers_line parse_headers_blank)
    moreover have "drop (Suc 4) (skip_heartbeats ?b) =
        header_line (''content-length'', ''18446744073709551615'') @ [NL]"
      by (simp add: header_line_def)
    ultimately show ?thesis by (simp only:)
  qed
  ultimately show ?thesis using iff by blast
qed

end
