(* ===== verification/Server.thy ===== *)
theory Server
  imports Rpc Stomp
begin

text \<open>
  \<open>crates/vdsm-rpc/src/server.rs\<close>: the two connection handlers. One connection is a record:
  the STOMP subscriptions, the handshake flag, the bytes written so far and the state of the
  daemon the verb handlers work on. A write may fail; \<open>writes_left\<close> is the number of
  writes the peer still accepts. The bytes read arrive as a list of events, so that a
  connection can be run up to any point.

  What is not in the repository is in the record \<open>srv\<close>: the JSON text codec of
  \<open>serde_json\<close> (\<open>de_request\<close>, \<open>ser_response\<close>), the printed peer address, and the
  iteration order of the \<open>HashMap\<close> of subscriptions (\<open>hash_order\<close>), which the standard
  library leaves open.
\<close>

section \<open>Configuration\<close>

datatype framing = Line | Stomp

definition framing_from_str_lossy :: "string \<Rightarrow> framing" where
  "framing_from_str_lossy s =
     (let t = to_ascii_lowercase (trim s)
      in if t = ''stomp'' then Stomp else if t = ''line'' then Line else Line)"

record server_config =
  bind_addr :: string
  port :: u16
  tls_enabled :: bool
  tls_cert :: string
  tls_key :: string
  framing :: framing

section \<open>Connections\<close>

record 'w srv =
  de_request :: "string \<Rightarrow> (string, request) result"
  ser_response :: "response \<Rightarrow> (string, bytes) result"
  dispatcher :: "'w dispatcher"
  peer :: string
  hash_order :: "(string, string) hmap \<Rightarrow> (string \<times> string) list"

record 'w conn =
  subscriptions :: "(string, string) hmap"
  connected :: bool
  sent :: bytes
  writes_left :: nat
  world :: 'w

definition conn_init :: "nat \<Rightarrow> 'w \<Rightarrow> 'w conn" where
  "conn_init n w = \<lparr>subscriptions = [], connected = False, sent = [], writes_left = n, world = w\<rparr>"

text \<open>\<open>write_all\<close> and \<open>flush\<close>.\<close>

definition write_all :: "bytes \<Rightarrow> 'w conn \<Rightarrow> bool \<times> 'w conn" where
  "write_all b c =
     (if writes_left c = 0 then (False, c)
      else (True, c\<lparr>sent := sent c @ b, writes_left := writes_left c - 1\<rparr>))"

definition send_frame :: "frame \<Rightarrow> 'w conn \<Rightarrow> bool \<times> 'w conn" where
  "send_frame f c = write_all (to_bytes f) c"

section \<open>Line framing\<close>

definition process_one :: "'w srv \<Rightarrow> string \<Rightarrow> 'w \<Rightarrow> response option \<times> 'w" where
  "process_one s line w =
     (case de_request s line of
        Inl e \<Rightarrow> (Some (response_err None (parse_error (''invalid JSON-RPC envelope: '' @ e))), w)
      | Inr req \<Rightarrow>
          (case invoke (dispatcher s) (req_method req) (req_params req) w of
             (result, w') \<Rightarrow>
               if req_id req = None then (None, w')
               else (Some (case result of
                             Inr v \<Rightarrow> response_ok (req_id req) v
                           | Inl e \<Rightarrow> response_err (req_id req) e), w')))"

text \<open>One line as \<open>read_line\<close> delivers it.\<close>

definition handle_line :: "'w srv \<Rightarrow> bytes \<Rightarrow> 'w conn \<Rightarrow> status \<times> 'w conn" where
  "handle_line s l c =
     (case from_utf8 l of
        Inl _ \<Rightarrow> (ClosedErr, c)
      | Inr line \<Rightarrow>
          (if trim line = [] then (Running, c)
           else
             (case process_one s (trim line) (world c) of
                (None, w') \<Rightarrow> (Running, c\<lparr>world := w'\<rparr>)
              | (Some resp, w') \<Rightarrow>
                  (case ser_response s resp of
                     Inl _ \<Rightarrow> (ClosedErr, c\<lparr>world := w'\<rparr>)
                   | Inr b \<Rightarrow>
                       (case write_all (b @ [NL]) (c\<lparr>world := w'\<rparr>) of
                          (ok, c') \<Rightarrow> (if ok then Running else ClosedErr, c'))))))"

function drain_lines :: "'w srv \<Rightarrow> bytes \<Rightarrow> 'w conn \<Rightarrow> status \<times> bytes \<times> 'w conn" where
  "drain_lines s b c =
     (case find_byte NL b of
        None \<Rightarrow> (Running, b, c)
      | Some i \<Rightarrow>
          (case handle_line s (take (Suc i) b) c of
             (Running, c') \<Rightarrow> drain_lines s (drop (Suc i) b) c'
           | (st, c') \<Rightarrow> (st, drop (Suc i) b, c')))"
  by pat_completeness auto
termination
  by (relation "measure (\<lambda>(s, b, c). length b)") (auto dest: find_byte_less)

declare drain_lines.simps [simp del]

text \<open>At the end of the stream the bytes left over are a last line.\<close>

definition finish_lines :: "'w srv \<Rightarrow> bytes \<Rightarrow> 'w conn \<Rightarrow> status \<times> bytes \<times> 'w conn" where
  "finish_lines s b c =
     (if b = [] then (ClosedOk, b, c)
      else (case handle_line s b c of
              (Running, c') \<Rightarrow> (ClosedOk, [], c')
            | (st, c') \<Rightarrow> (st, [], c')))"

fun serve_lines :: "'w srv \<Rightarrow> bytes \<Rightarrow> 'w conn \<Rightarrow> read_event list \<Rightarrow> status \<times> bytes \<times> 'w conn" where
  "serve_lines s b c [] = (Running, b, c)"
| "serve_lines s b c (Data d # es) =
     (if d = [] then finish_lines s b c
      else (case drain_lines s (b @ d) c of
              (Running, b', c') \<Rightarrow> serve_lines s b' c' es
            | (st, b', c') \<Rightarrow> (st, b', c')))"
| "serve_lines s b c (Eof # es) = finish_lines s b c"
| "serve_lines s b c (ReadErr # es) = (ClosedErr, b, c)"

section \<open>STOMP framing\<close>

text \<open>
  The log statement before a reply is written cuts the frame into a head and a body and takes
  the first and last 200 bytes of the body. Its slices are modelled because a slice out of
  range panics: \<open>None\<close> is that panic, \<open>Some\<close> the logged body length.
\<close>

fun find_blank :: "bytes \<Rightarrow> nat option" where
  "find_blank (x # y # r) = (if x = NL \<and> y = NL then Some 0 else map_option Suc (find_blank (y # r)))"
| "find_blank _ = None"

definition wire_trace :: "bytes \<Rightarrow> nat option" where
  "wire_trace fb =
     (let sep = unwrap_or 0 (find_blank fb);
          body_start = sep + 2;
          body_end = length fb - 1;
          first_end = min (body_start + 200) body_end;
          last_off = max (body_end - 200) body_start
      in if body_start \<le> first_end \<and> first_end \<le> length fb \<and> last_off \<le> body_end \<and> body_end \<le> length fb
         then Some (body_end - body_start) else None)"

definition DEFAULT_DEST :: string where
  "DEFAULT_DEST = ''/queue/_local/vdsm/responses''"

definition reply_dest :: "'w srv \<Rightarrow> frame \<Rightarrow> (string, string) hmap \<Rightarrow> string" where
  "reply_dest s f subs =
     (case header f ''reply-to'' of
        Some d \<Rightarrow> d
      | None \<Rightarrow> (case map snd (hash_order s subs) of d # _ \<Rightarrow> d | [] \<Rightarrow> DEFAULT_DEST))"

definition reply_sub :: "'w srv \<Rightarrow> (string, string) hmap \<Rightarrow> string \<Rightarrow> string" where
  "reply_sub s subs dest =
     (case find (\<lambda>(i, d). d = dest) (hash_order s subs) of Some (i, d) \<Rightarrow> i | None \<Rightarrow> ''0'')"

text \<open>The response to a request body, the id it answers, and the state after the handler.\<close>

definition answer :: "'w srv \<Rightarrow> string \<Rightarrow> 'w \<Rightarrow> response \<times> json option \<times> 'w" where
  "answer s text w =
     (case de_request s text of
        Inr req \<Rightarrow>
          (case invoke (dispatcher s) (req_method req) (req_params req) w of
             (result, w') \<Rightarrow>
               ((case result of
                   Inr v \<Rightarrow> response_ok (req_id req) v
                 | Inl e \<Rightarrow> response_err (req_id req) e), req_id req, w'))
      | Inl e \<Rightarrow> (response_err None (parse_error (''invalid JSON-RPC envelope: '' @ e)), None, w))"

definition handle_stomp_send :: "'w srv \<Rightarrow> frame \<Rightarrow> 'w conn \<Rightarrow> status \<times> 'w conn" where
  "handle_stomp_send s f c =
     (case from_utf8 (body f) of
        Inl _ \<Rightarrow> (Running, c)
      | Inr text \<Rightarrow>
          (case answer s text (world c) of
             (resp, request_id, w') \<Rightarrow>
               (let c1 = c\<lparr>world := w'\<rparr>
                in if request_id = None \<and> resp_error resp = None then (Running, c1)
                   else
                     (case ser_response s resp of
                        Inl _ \<Rightarrow> (ClosedErr, c1)
                      | Inr b \<Rightarrow>
                          (let dest = reply_dest s f (subscriptions c);
                               msg = message_frame dest (reply_sub s (subscriptions c) dest) b
                           in case wire_trace (to_bytes msg) of
                                None \<Rightarrow> (Crashed, c1)
                              | Some _ \<Rightarrow>
                                  (case send_frame msg c1 of
                                     (ok, c2) \<Rightarrow> (if ok then Running else ClosedErr, c2)))))))"

definition SERVER_ID :: string where
  "SERVER_ID = ''vdsm-rs/4.5.7''"

definition handle_frame :: "'w srv \<Rightarrow> frame \<Rightarrow> 'w conn \<Rightarrow> status \<times> 'w conn" where
  "handle_frame s f c =
     (let cmd = command f
      in if \<not> connected c \<and> cmd \<noteq> ''CONNECT'' \<and> cmd \<noteq> ''STOMP'' then
           (ClosedOk, snd (send_frame (error_frame ''expected CONNECT'' []) c))
         else if cmd = ''CONNECT'' \<or> cmd = ''STOMP'' then
           (if connected c then (ClosedOk, snd (send_frame (error_frame ''already connected'' []) c))
            else (case send_frame (connected_frame ''1.2'' SERVER_ID (Some (''vdsm-rs-'' @ peer s))) c of
                    (True, c') \<Rightarrow> (Running, c'\<lparr>connected := True\<rparr>)
                  | (False, c') \<Rightarrow> (ClosedErr, c')))
         else if cmd = ''SUBSCRIBE'' then
           (Running,
            c\<lparr>subscriptions :=
                hm_insert (unwrap_or ''0'' (header f ''id''))
                  (unwrap_or DEFAULT_DEST (header f ''destination'')) (subscriptions c)\<rparr>)
         else if cmd = ''UNSUBSCRIBE'' then
           (Running,
            (case header f ''id'' of
               Some i \<Rightarrow> c\<lparr>subscriptions := hm_remove i (subscriptions c)\<rparr>
             | None \<Rightarrow> c))
         else if cmd = ''SEND'' then handle_stomp_send s f c
         else if cmd = ''DISCONNECT'' then
           (ClosedOk,
            (case header f ''receipt'' of
               Some i \<Rightarrow> snd (send_frame (receipt_frame i) c)
             | None \<Rightarrow> c))
         else (Running, c))"

text \<open>The inner loop: as many frames as the buffer holds.\<close>

function drain :: "'w srv \<Rightarrow> bytes \<Rightarrow> 'w conn \<Rightarrow> status \<times> bytes \<times> 'w conn" where
  "drain s b c =
     (case parse_frame b of
        Parsed f r \<Rightarrow>
          (case handle_frame s f c of
             (Running, c') \<Rightarrow> drain s r c'
           | (st, c') \<Rightarrow> (st, r, c'))
      | Incomplete \<Rightarrow> (Running, b, c)
      | Failed e \<Rightarrow>
          (ClosedOk, b, snd (send_frame (error_frame ''malformed frame'' (parse_error_text e)) c))
      | Panicked \<Rightarrow> (Crashed, b, c))"
  by pat_completeness auto
termination
  by (relation "measure (\<lambda>(s, b, c). length b)") (auto dest: parse_frame_shorter)

declare drain.simps [simp del]

fun serve_stomp :: "'w srv \<Rightarrow> bytes \<Rightarrow> 'w conn \<Rightarrow> read_event list \<Rightarrow> status \<times> bytes \<times> 'w conn" where
  "serve_stomp s b c [] = (Running, b, c)"
| "serve_stomp s b c (Data d # es) =
     (if d = [] then (ClosedOk, b, c)
      else (case drain s (b @ d) c of
              (Running, b', c') \<Rightarrow> serve_stomp s b' c' es
            | (st, b', c') \<Rightarrow> (st, b', c')))"
| "serve_stomp s b c (Eof # es) = (ClosedOk, b, c)"
| "serve_stomp s b c (ReadErr # es) = (ClosedErr, b, c)"

text \<open>
  \<open>handle_conn\<close>: with TLS the handshake comes first (\<open>Some ok\<close> is its outcome, \<open>None\<close>
  a plain listener), then the framing selected at start.
\<close>

definition handle_conn ::
  "bool option \<Rightarrow> framing \<Rightarrow> 'w srv \<Rightarrow> 'w conn \<Rightarrow> read_event list \<Rightarrow> status \<times> bytes \<times> 'w conn" where
  "handle_conn tls fr s c es =
     (if tls = Some False then (ClosedErr, [], c)
      else case fr of Line \<Rightarrow> serve_lines s [] c es | Stomp \<Rightarrow> serve_stomp s [] c es)"

section \<open>Both framings as connection loops\<close>

text \<open>What the STOMP loop does at a parser verdict.\<close>

definition malformed_stop :: "parse_stop \<Rightarrow> 'w conn \<Rightarrow> status \<times> 'w conn" where
  "malformed_stop v c =
     (case v of
        StopError e \<Rightarrow>
          (ClosedOk, snd (send_frame (error_frame ''malformed frame'' (parse_error_text e)) c))
      | StopPanic \<Rightarrow> (Crashed, c))"

interpretation stomp_loop: conn_loop frame_got frame_bad slice_fits
  "handle_frame s" malformed_stop "drain s" "serve_stomp s" for s :: "'w srv"
proof
  fix b f r c
  assume "frame_got b = Some (f, r)"
  then show "drain s b c =
      (case handle_frame s f c of (st, c') \<Rightarrow> if st = Running then drain s r c' else (st, r, c'))"
    by (auto simp: frame_got_iff drain.simps [of s b] split: prod.splits status.splits)
next
  fix b v c
  assume "frame_bad b = Some v"
  then show "drain s b c = (fst (malformed_stop v c), b, snd (malformed_stop v c))"
    by (auto simp: frame_bad_iff drain.simps [of s b] malformed_stop_def)
next
  fix b c
  assume "frame_got b = None" "frame_bad b = None"
  then have "parse_frame b = Incomplete" using frame_idle_iff by blast
  then show "drain s b c = (Running, b, c)" by (simp add: drain.simps [of s b])
next
  fix d b c es
  assume "d \<noteq> ([] :: bytes)"
  then show "serve_stomp s b c (Data d # es) =
      (case drain s (b @ d) c of (st, b', c') \<Rightarrow>
         if st = Running then serve_stomp s b' c' es else (st, b', c'))"
    by (auto split: prod.splits status.splits)
qed (auto simp: malformed_stop_def split: parse_stop.splits)

text \<open>The parser of the line framing: the bytes up to and with the next line feed.\<close>

definition line_got :: "bytes \<Rightarrow> (bytes \<times> bytes) option" where
  "line_got b = map_option (\<lambda>i. (take (Suc i) b, drop (Suc i) b)) (find_byte NL b)"

definition line_bad :: "bytes \<Rightarrow> unit option" where
  "line_bad b = None"

interpretation line: framed_codec line_got line_bad "\<lambda>_. True" "\<lambda>l. l" "\<lambda>l. \<exists>t. l = t @ [NL] \<and> NL \<notin> set t"
proof
  have le: "find_byte NL b = Some i \<Longrightarrow> Suc i \<le> length b" for b i
    by (rule Suc_leI [OF find_byte_less])
  fix b f r x
  show "line_got b = Some (f, r) \<Longrightarrow> length r < length b"
    by (auto simp: line_got_def dest: find_byte_less)
  show "line_got b = Some (f, r) \<Longrightarrow> True \<Longrightarrow> line_got (b @ x) = Some (f, r @ x)"
    using le by (auto simp: line_got_def find_byte_stable)
  show "\<exists>t. f = t @ [NL] \<and> NL \<notin> set t \<Longrightarrow> line_got (f @ x) = Some (f, x)"
    by (auto simp: line_got_def find_byte_here)
qed (simp_all add: line_got_def line_bad_def)

interpretation line_loop: conn_loop line_got line_bad "\<lambda>_. True"
  "handle_line s" "\<lambda>_ c. (ClosedErr, c)" "drain_lines s" "serve_lines s" for s :: "'w srv"
proof
  fix b f r c
  assume "line_got b = Some (f, r)"
  then show "drain_lines s b c =
      (case handle_line s f c of (st, c') \<Rightarrow> if st = Running then drain_lines s r c' else (st, r, c'))"
    by (auto simp: line_got_def drain_lines.simps [of s b] split: prod.splits status.splits)
next
  fix d b c es
  assume "d \<noteq> ([] :: bytes)"
  then show "serve_lines s b c (Data d # es) =
      (case drain_lines s (b @ d) c of (st, b', c') \<Rightarrow>
         if st = Running then serve_lines s b' c' es else (st, b', c'))"
    by (auto split: prod.splits status.splits)
qed (auto simp: line_got_def line_bad_def drain_lines.simps)

section \<open>The log statement\<close>

lemma find_blank_NL: "y \<noteq> NL \<Longrightarrow> find_blank (NL # y # s) = map_option Suc (find_blank (y # s))"
  by simp

lemma find_blank_skip: "NL \<notin> set l \<Longrightarrow> find_blank (l @ s) = map_option ((+) (length l)) (find_blank s)"
proof (induction l)
  case Nil
  then show ?case by (simp add: option.map_ident)
next
  case (Cons x l)
  then show ?case by (cases "l @ s") (auto simp: option.map_comp comp_def)
qed

lemma find_blank_lines:
  "list_all (\<lambda>l. l \<noteq> [] \<and> NL \<notin> set l) ls \<Longrightarrow>
   find_blank (NL # concat (map (\<lambda>l. l @ [NL]) ls) @ NL # s) =
     Some (length (concat (map (\<lambda>l. l @ [NL]) ls)))"
proof (induction ls)
  case (Cons l ls)
  obtain y t where l: "l = y # t" "y \<noteq> NL" using Cons.prems by (cases l) auto
  have "find_blank (NL # (l @ NL # concat (map (\<lambda>l. l @ [NL]) ls) @ NL # s)) =
      map_option Suc (find_blank (l @ NL # concat (map (\<lambda>l. l @ [NL]) ls) @ NL # s))"
    using l by (simp add: find_blank_NL del: find_blank.simps)
  with Cons show ?case by (simp add: find_blank_skip del: find_blank.simps)
qed simp

lemma wire_trace_to_bytes:
  assumes "NL \<notin> set (command f)"
  shows "wire_trace (to_bytes f) = Some (length (body f))"
proof -
  let ?ls = "map (\<lambda>(k, v). escape_header k @ COLON # escape_header v) (headers f)"
  have lines: "concat (map header_line (headers f)) = concat (map (\<lambda>l. l @ [NL]) ?ls)"
    by (simp add: header_line_def [abs_def] comp_def case_prod_beta)
  have "list_all (\<lambda>l. l \<noteq> [] \<and> NL \<notin> set l) ?ls"
    by (auto simp: list_all_iff escape_header_clean)
  then have "find_blank (to_bytes f) =
      Some (length (command f) + length (concat (map header_line (headers f))))"
    unfolding lines to_bytes_def using find_blank_lines [of ?ls] assms
    by (simp add: find_blank_skip del: find_blank.simps)
  then show ?thesis by (simp add: wire_trace_def Let_def to_bytes_def)
qed

lemma message_trace: "wire_trace (to_bytes (message_frame d i b)) = Some (length b)"
  by (simp add: wire_trace_to_bytes message_frame_def with_header_def with_body_def frame_new_def)

section \<open>Runs of a STOMP connection\<close>

text \<open>
  The steps of a connection: a parsed frame is handled, the parser gives its verdict, the
  peer hangs up or the read fails. A step is taken only while the connection is open.
\<close>

inductive conn_run :: "'w srv \<Rightarrow> 'w conn \<Rightarrow> status \<Rightarrow> 'w conn \<Rightarrow> bool" for s c0 where
  start: "conn_run s c0 Running c0"
| frame: "conn_run s c0 Running c \<Longrightarrow> headers_text (headers f) \<Longrightarrow> handle_frame s f c = (st, c') \<Longrightarrow>
    conn_run s c0 st c'"
| malformed: "conn_run s c0 Running c \<Longrightarrow> length (parse_error_text e) < 2 ^ 64 - 1 \<Longrightarrow>
    malformed_stop (StopError e) c = (st, c') \<Longrightarrow> conn_run s c0 st c'"
| panic: "conn_run s c0 Running c \<Longrightarrow> conn_run s c0 Crashed c"
| hangup: "conn_run s c0 Running c \<Longrightarrow> st = ClosedOk \<or> st = ClosedErr \<Longrightarrow> conn_run s c0 st c"

lemma drain_run:
  "conn_run s c0 Running c \<Longrightarrow> length b < 2 ^ 63 \<Longrightarrow> drain s b c = (st, r, c') \<Longrightarrow>
   conn_run s c0 st c' \<and> length r \<le> length b"
proof (induction s b c arbitrary: st r c' rule: drain.induct)
  case (1 s b c)
  show ?case
  proof (cases "parse_frame b")
    case (Parsed f q)
    obtain st1 c1 where h: "handle_frame s f c = (st1, c1)" by fastforce
    have run: "conn_run s c0 st1 c1"
      using conn_run.frame [OF "1.prems"(1) parse_frame_text [OF Parsed] h] .
    have len: "length q < length b" by (rule parse_frame_shorter [OF Parsed])
    show ?thesis
    proof (cases "st1 = Running")
      case True
      with "1.prems" Parsed h have "drain s q c1 = (st, r, c')" by (simp add: drain.simps [of s b])
      with "1.IH" [OF Parsed h [symmetric] True] run len "1.prems"(2) True show ?thesis by auto
    next
      case False
      with "1.prems" Parsed h run len show ?thesis
        by (auto simp: drain.simps [of s b] split: status.splits)
    qed
  next
    case Incomplete
    with "1.prems" show ?thesis by (auto simp: drain.simps [of s b])
  next
    case (Failed e)
    have "length (parse_error_text e) < 2 ^ 64 - 1"
      by (rule error_text_bound [OF parse_frame_short [OF Failed] "1.prems"(2)])
    from conn_run.malformed [OF "1.prems"(1) this] "1.prems"(3) Failed show ?thesis
      by (auto simp: drain.simps [of s b] malformed_stop_def)
  next
    case Panicked
    with "1.prems" show ?thesis by (auto simp: drain.simps [of s b] intro: conn_run.panic)
  qed
qed

text \<open>The bytes of a list of read events.\<close>

definition event_bytes :: "read_event list \<Rightarrow> bytes" where
  "event_bytes es = concat (map (\<lambda>e. case e of Data d \<Rightarrow> d | _ \<Rightarrow> []) es)"

lemma event_bytes_simps [simp]:
  "event_bytes [] = []" "event_bytes (Data d # es) = d @ event_bytes es"
  "event_bytes (Eof # es) = event_bytes es" "event_bytes (ReadErr # es) = event_bytes es"
  by (simp_all add: event_bytes_def)

lemma serve_stomp_run:
  "conn_run s c0 Running c \<Longrightarrow> length (b @ event_bytes es) < 2 ^ 63 \<Longrightarrow>
   serve_stomp s b c es = (st, r, c') \<Longrightarrow> conn_run s c0 st c'"
proof (induction s b c es arbitrary: st r c' rule: serve_stomp.induct)
  case (2 s b c d es)
  show ?case
  proof (cases "d = []")
    case True
    with "2.prems" show ?thesis by (auto intro: conn_run.hangup)
  next
    case False
    obtain st1 b1 c1 where dr: "drain s (b @ d) c = (st1, b1, c1)" by (cases "drain s (b @ d) c") auto
    have run: "conn_run s c0 st1 c1" "length b1 \<le> length (b @ d)"
      using drain_run [OF "2.prems"(1) _ dr] "2.prems"(2) by auto
    show ?thesis
    proof (cases "st1 = Running")
      case True
      then have "serve_stomp s b1 c1 es = (st, r, c')" using "2.prems"(3) False dr by simp
      with "2.IH" [OF False dr [symmetric] True refl] run True "2.prems"(2) show ?thesis by auto
    next
      case st1: False
      with "2.prems"(3) False dr run show ?thesis by (auto split: status.splits)
    qed
  qed
qed (auto intro: conn_run.hangup)

section \<open>The connection invariant\<close>

text \<open>
  What the server relies on: the peer address prints as text, a serialized response fits a
  slice, and iterating over the subscription map visits its entries.
\<close>

definition srv_ok :: "'w srv \<Rightarrow> bool" where
  "srv_ok s \<longleftrightarrow>
     utf8_valid (peer s) \<and>
     (\<forall>r b. ser_response s r = Inr b \<longrightarrow> length b < 2 ^ 64 - 1) \<and>
     (\<forall>m. hm_ok m \<longrightarrow> set (hash_order s m) = set m)"

definition hello :: "'w srv \<Rightarrow> frame" where
  "hello s = connected_frame ''1.2'' SERVER_ID (Some (''vdsm-rs-'' @ peer s))"

definition subs_text :: "(string, string) hmap \<Rightarrow> bool" where
  "subs_text m \<longleftrightarrow> hm_ok m \<and> list_all (\<lambda>(i, d). utf8_valid i \<and> utf8_valid d) m"

text \<open>
  The frames written so far. Before the handshake there are none, or one ERROR; after it the
  first is CONNECTED and the others are MESSAGE, ERROR and RECEIPT frames.
\<close>

definition wire_ok :: "'w srv \<Rightarrow> status \<Rightarrow> bool \<Rightarrow> frame list \<Rightarrow> bool" where
  "wire_ok s st conn fs \<longleftrightarrow>
     list_all frame_ok fs \<and>
     (if conn then
        (\<exists>gs. fs = hello s # gs \<and>
              list_all (\<lambda>g. command g \<in> {''MESSAGE'', ''ERROR'', ''RECEIPT''}) gs)
      else fs = [] \<or> st \<noteq> Running \<and> (\<exists>g. fs = [g] \<and> command g = ''ERROR''))"

definition conn_inv :: "'w srv \<Rightarrow> 'w conn \<Rightarrow> status \<Rightarrow> 'w conn \<Rightarrow> bool" where
  "conn_inv s c0 st c \<longleftrightarrow>
     subs_text (subscriptions c) \<and>
     (\<not> connected c \<longrightarrow> subscriptions c = [] \<and> world c = world c0) \<and>
     (\<exists>fs. sent c = concat (map to_bytes fs) \<and> wire_ok s st (connected c) fs)"

lemma frame_commands [simp]:
  "command (connected_frame v i n) = ''CONNECTED''" "command (message_frame d i b) = ''MESSAGE''"
  "command (error_frame m b) = ''ERROR''" "command (receipt_frame r) = ''RECEIPT''"
  by (auto simp: connected_frame_def message_frame_def error_frame_def receipt_frame_def
      with_header_def with_body_def frame_new_def Let_def split: option.splits)

lemma hello_ok: "srv_ok s \<Longrightarrow> frame_ok (hello s)"
  unfolding hello_def
  by (rule connected_frame_ok) (simp_all add: srv_ok_def SERVER_ID_def)

lemma subs_text_iff:
  "subs_text m \<longleftrightarrow> hm_ok m \<and> (\<forall>i d. hm_get m i = Some d \<longrightarrow> utf8_valid i \<and> utf8_valid d)"
  by (auto simp: subs_text_def hm_ok_def list_all_iff)

lemma subs_text_insert: "subs_text m \<Longrightarrow> utf8_valid i \<Longrightarrow> utf8_valid d \<Longrightarrow> subs_text (hm_insert i d m)"
  by (simp add: subs_text_iff hm.ok_insert hm.lookup_insert)

lemma subs_text_remove: "subs_text m \<Longrightarrow> subs_text (hm_remove i m)"
  by (simp add: subs_text_iff hm.ok_remove hm.lookup_remove)

lemma reply_text:
  assumes "srv_ok s" "subs_text m" "headers_text (headers f)"
  shows "utf8_valid (reply_dest s f m)" "utf8_valid (reply_sub s m d)"
proof -
  have set: "set (hash_order s m) = set m" using assms(1,2) by (simp add: srv_ok_def subs_text_def)
  then have vals: "\<forall>(i, d) \<in> set (hash_order s m). utf8_valid i \<and> utf8_valid d"
    using assms(2) by (simp add: subs_text_def list_all_iff)
  show "utf8_valid (reply_dest s f m)"
    using vals header_text [OF assms(3)]
    by (cases "hash_order s m") (auto simp: reply_dest_def DEFAULT_DEST_def split: option.splits)
  show "utf8_valid (reply_sub s m d)"
    using vals by (auto simp: reply_sub_def dest!: find_in_set split: option.splits)
qed

lemma send_frame_cases:
  obtains "send_frame f c = (False, c)" "writes_left c = 0"
  | "send_frame f c = (True, c\<lparr>sent := sent c @ to_bytes f, writes_left := writes_left c - 1\<rparr>)"
  by (cases "writes_left c = 0") (auto simp: send_frame_def write_all_def)

text \<open>One more frame of the kinds sent after the handshake.\<close>

lemma wire_ok_snoc:
  "wire_ok s st True fs \<Longrightarrow> frame_ok g \<Longrightarrow> command g \<in> {''MESSAGE'', ''ERROR'', ''RECEIPT''} \<Longrightarrow>
   wire_ok s st' True (fs @ [g])"
  by (auto simp: wire_ok_def)

lemma wire_ok_status: "wire_ok s Running conn fs \<Longrightarrow> wire_ok s st conn fs"
  by (auto simp: wire_ok_def)

lemma conn_inv_status: "conn_inv s c0 Running c \<Longrightarrow> conn_inv s c0 st c"
  by (auto simp: conn_inv_def intro: wire_ok_status)

lemma conn_inv_send:
  assumes "conn_inv s c0 Running c" "frame_ok g"
    and "connected c \<and> command g \<in> {''MESSAGE'', ''ERROR'', ''RECEIPT''} \<or> command g = ''ERROR'' \<and> st \<noteq> Running"
  shows "conn_inv s c0 st (snd (send_frame g c))"
proof (rule send_frame_cases [of g c])
  assume "send_frame g c = (False, c)"
  with assms(1) show ?thesis by (simp add: conn_inv_status)
next
  assume sent: "send_frame g c = (True, c\<lparr>sent := sent c @ to_bytes g, writes_left := writes_left c - 1\<rparr>)"
  from assms(1) obtain fs where fs: "sent c = concat (map to_bytes fs)" "wire_ok s Running (connected c) fs"
    by (auto simp: conn_inv_def)
  have "wire_ok s st (connected c) (fs @ [g])"
  proof (cases "connected c")
    case True
    with fs assms(2,3) show ?thesis by (auto intro!: wire_ok_snoc)
  next
    case False
    with fs assms(2,3) show ?thesis by (auto simp: wire_ok_def)
  qed
  moreover have "sent c @ to_bytes g = concat (map to_bytes (fs @ [g]))" by (simp add: fs)
  ultimately show ?thesis using sent assms(1) by (auto simp: conn_inv_def simp del: map_append concat_append)
qed

lemma conn_inv_world: "connected c \<Longrightarrow> conn_inv s c0 st (c\<lparr>world := w\<rparr>) \<longleftrightarrow> conn_inv s c0 st c"
  by (simp add: conn_inv_def)

lemma conn_inv_subs: "connected c \<Longrightarrow> subs_text m \<Longrightarrow> conn_inv s c0 st c \<Longrightarrow> conn_inv s c0 st (c\<lparr>subscriptions := m\<rparr>)"
  by (simp add: conn_inv_def)

text \<open>What a SEND frame leads to: nothing is written, or one MESSAGE with the serialized response.\<close>

lemma handle_stomp_send_cases:
  assumes "handle_stomp_send s f c = (st, c')"
  obtains (quiet) w where "c' = c\<lparr>world := w\<rparr>" "st = Running \<or> st = ClosedErr"
  | (reply) w resp b where "ser_response s resp = Inr b" "st = Running \<or> st = ClosedErr"
      "c' = snd (send_frame (message_frame (reply_dest s f (subscriptions c))
               (reply_sub s (subscriptions c) (reply_dest s f (subscriptions c))) b) (c\<lparr>world := w\<rparr>))"
proof (cases "from_utf8 (body f)")
  case (Inl e)
  with assms quiet [of "world c"] show ?thesis by (simp add: handle_stomp_send_def)
next
  case (Inr t)
  let ?d = "reply_dest s f (subscriptions c)"
  obtain resp i w where a: "answer s t (world c) = (resp, i, w)" by (cases "answer s t (world c)") auto
  show ?thesis
  proof (cases "i = None \<and> resp_error resp = None \<or> (\<exists>e. ser_response s resp = Inl e)")
    case True
    with assms Inr a have "c' = c\<lparr>world := w\<rparr>" "st = Running \<or> st = ClosedErr"
      by (auto simp: handle_stomp_send_def Let_def split: if_splits)
    then show ?thesis by (rule quiet)
  next
    case False
    then obtain b where b: "ser_response s resp = Inr b" by (cases "ser_response s resp") auto
    let ?m = "message_frame ?d (reply_sub s (subscriptions c) ?d) b"
    from False assms Inr a b have "(st, c') =
        (case send_frame ?m (c\<lparr>world := w\<rparr>) of (ok, c2) \<Rightarrow> (if ok then Running else ClosedErr, c2))"
      by (auto simp: handle_stomp_send_def Let_def message_trace)
    then have "st = Running \<or> st = ClosedErr" "c' = snd (send_frame ?m (c\<lparr>world := w\<rparr>))"
      by (auto split: prod.splits if_splits)
    with b show ?thesis by (rule reply)
  qed
qed

lemma handle_frame_not_crashed: "handle_frame s f c = (st, c') \<Longrightarrow> st \<noteq> Crashed"
  by (auto simp: handle_frame_def Let_def split: if_splits prod.splits bool.splits
      elim!: handle_stomp_send_cases)

lemma conn_inv_error:
  "conn_inv s c0 Running c \<Longrightarrow> utf8_valid m \<Longrightarrow> conn_inv s c0 ClosedOk (snd (send_frame (error_frame m []) c))"
  by (rule conn_inv_send) (simp_all add: error_frame_ok)

lemma handshake_inv:
  assumes ok: "srv_ok s" and inv: "conn_inv s c0 Running c" and new: "\<not> connected c" and h: "handle_frame s f c = (st, c')"
  shows "conn_inv s c0 st c'"
proof (cases "command f = ''CONNECT'' \<or> command f = ''STOMP''")
  case True
  then have hs: "handle_frame s f c = (case send_frame (hello s) c of
      (True, c') \<Rightarrow> (Running, c'\<lparr>connected := True\<rparr>) | (False, c') \<Rightarrow> (ClosedErr, c'))"
    using new by (auto simp: handle_frame_def Let_def hello_def)
  show ?thesis
  proof (rule send_frame_cases [of "hello s" c])
    assume "send_frame (hello s) c = (False, c)"
    with hs h inv show ?thesis by (simp add: conn_inv_status)
  next
    assume "send_frame (hello s) c =
      (True, c\<lparr>sent := sent c @ to_bytes (hello s), writes_left := writes_left c - 1\<rparr>)"
    moreover have "wire_ok s Running True [hello s]" by (simp add: wire_ok_def hello_ok [OF ok])
    moreover have "sent c = []" using inv new by (auto simp: conn_inv_def wire_ok_def)
    ultimately show ?thesis
      using hs h inv by (auto simp: conn_inv_def intro!: exI [of _ "[hello s]"])
  qed
next
  case False
  with h new have "st = ClosedOk" "c' = snd (send_frame (error_frame ''expected CONNECT'' []) c)"
    by (auto simp: handle_frame_def Let_def)
  then show ?thesis using conn_inv_error [OF inv] by simp
qed

lemma handle_stomp_send_inv:
  assumes ok: "srv_ok s" and inv: "conn_inv s c0 Running c" and hdrs: "headers_text (headers f)" and on: "connected c"
    and "handle_stomp_send s f c = (st, c')"
  shows "conn_inv s c0 st c'"
  using assms(5)
proof (cases rule: handle_stomp_send_cases)
  case (quiet w)
  with inv on show ?thesis by (simp add: conn_inv_world conn_inv_status)
next
  case (reply w resp b)
  have subs: "subs_text (subscriptions c)" using inv by (simp add: conn_inv_def)
  from reply have "length b < 2 ^ 64 - 1" using ok by (auto simp: srv_ok_def)
  with reply on inv show ?thesis
    by (auto intro!: conn_inv_send message_frame_ok reply_text [OF ok subs hdrs] simp: conn_inv_world)
qed

lemma handle_frame_inv:
  assumes ok: "srv_ok s" and inv: "conn_inv s c0 Running c" and hdrs: "headers_text (headers f)"
    and h: "handle_frame s f c = (st, c')"
  shows "conn_inv s c0 st c'"
proof (cases "connected c")
  case False
  then show ?thesis by (rule handshake_inv [OF ok inv _ h])
next
  case True
  have subs: "subs_text (subscriptions c)" using inv by (simp add: conn_inv_def)
  have hdr: "utf8_valid (unwrap_or d (header f k))" if "utf8_valid d" for d k
    using that header_text [OF hdrs] by (cases "header f k") auto
  consider (dup) "command f = ''CONNECT'' \<or> command f = ''STOMP''"
    | (sub) "command f = ''SUBSCRIBE''" | (unsub) "command f = ''UNSUBSCRIBE''"
    | (send) "command f = ''SEND''" | (bye) "command f = ''DISCONNECT''"
    | (other) "command f \<notin> {''CONNECT'', ''STOMP'', ''SUBSCRIBE'', ''UNSUBSCRIBE'', ''SEND'', ''DISCONNECT''}"
    by blast
  then show ?thesis
  proof cases
    case dup
    with h True show ?thesis using conn_inv_error [OF inv, of "''already connected''"] by (auto simp: handle_frame_def Let_def)
  next
    case sub
    with h True inv subs hdr show ?thesis
      by (auto simp: handle_frame_def Let_def DEFAULT_DEST_def intro!: conn_inv_subs subs_text_insert)
  next
    case unsub
    with h True inv subs show ?thesis
      by (auto simp: handle_frame_def Let_def intro!: conn_inv_subs subs_text_remove split: option.splits)
  next
    case send
    with h True have "handle_stomp_send s f c = (st, c')" by (simp add: handle_frame_def Let_def)
    then show ?thesis by (rule handle_stomp_send_inv [OF ok inv hdrs True])
  next
    case bye
    with h True inv show ?thesis
      by (auto simp: handle_frame_def Let_def conn_inv_status split: option.splits
          intro!: conn_inv_send receipt_frame_ok dest: header_text [OF hdrs])
  next
    case other
    with h True inv show ?thesis by (auto simp: handle_frame_def Let_def)
  qed
qed

lemma conn_run_inv:
  assumes "srv_ok s"
  shows "conn_run s c0 st c \<Longrightarrow> conn_inv s c0 Running c0 \<Longrightarrow> conn_inv s c0 st c"
proof (induction rule: conn_run.induct)
  case (frame c f st c')
  then show ?case using handle_frame_inv [OF assms] by blast
next
  case (malformed c e st c')
  then show ?case by (auto simp: malformed_stop_def intro!: conn_inv_send error_frame_ok)
qed (auto intro: conn_inv_status)

lemma conn_inv_init: "conn_inv s (conn_init n w) Running (conn_init n w)"
  by (auto simp: conn_inv_def conn_init_def subs_text_def hm_ok_def wire_ok_def)

lemma serve_stomp_inv:
  assumes "srv_ok s" "length (event_bytes es) < 2 ^ 63" "serve_stomp s [] (conn_init n w) es = (st, r, c)"
  shows "conn_inv s (conn_init n w) st c"
  using conn_run_inv [OF assms(1) serve_stomp_run [OF conn_run.start _ assms(3)] conn_inv_init] assms(2)
  by simp

section \<open>Properties of the STOMP server\<close>

text \<open>A small server for the concrete instances: every text is a call of the method it spells.\<close>

definition sample_srv :: "nat srv" where
  "sample_srv =
     \<lparr>de_request = (\<lambda>t. if t = ''bad'' then Inl ''eof''
        else Inr \<lparr>req_jsonrpc = ''2.0'', req_method = t, req_params = JNull,
                  req_id = (if t = ''note'' then None else Some (JStr ''7''))\<rparr>),
      ser_response = (\<lambda>r. Inr (case resp_result r of Some (JStr t) \<Rightarrow> take 8 t | _ \<Rightarrow> ''error'')),
      dispatcher = register_all [(''inc'', \<lambda>p w. (Inr (JStr ''done''), Suc w))],
      peer = ''[::1]:9'', hash_order = (\<lambda>m. m)\<rparr>"

lemma sample_srv_ok: "srv_ok sample_srv"
  by (auto simp: srv_ok_def sample_srv_def split: option.splits json.splits)

text \<open>
  C3: the way TCP cuts the byte stream into reads does not matter. Two lists of non-empty
  reads with the same bytes leave the connection in the same state: the same frames handled in
  the same order, the same bytes written, the same daemon state, the same way of ending.
\<close>

theorem stomp_reads_irrelevant:
  assumes "\<forall>d \<in> set ds. d \<noteq> []" "\<forall>e \<in> set es. e \<noteq> []" "concat ds = concat es" "length (concat ds) < 2 ^ 64"
  shows "outcome (serve_stomp s [] c (map Data ds)) = outcome (serve_stomp s [] c (map Data es))"
  using stomp_loop.serve_chunking [of ds es s c] assms by (simp add: slice_fits_def)

theorem stomp_reads_irrelevant_witness:
  "outcome (serve_stomp sample_srv [] (conn_init 9 0) (map Data [''CO'', ''NNECT'' @ [NL], [NL, NUL]])) =
   outcome (serve_stomp sample_srv [] (conn_init 9 0) (map Data [''CONNECT'' @ [NL, NL, NUL]]))"
  by (rule stomp_reads_irrelevant) simp_all

text \<open>
  The abstract connection: frames are handled one after the other until one ends it.
\<close>

fun run_frames :: "'w srv \<Rightarrow> frame list \<Rightarrow> 'w conn \<Rightarrow> status \<times> 'w conn" where
  "run_frames s [] c = (Running, c)"
| "run_frames s (f # fs) c =
     (case handle_frame s f c of (st, c') \<Rightarrow> if st = Running then run_frames s fs c' else (st, c'))"

lemma run_frames_run_all: "run_frames s fs c = stomp_loop.run_all s fs None c"
  by (induction fs arbitrary: c) (auto split: prod.splits)

lemma serves_frames:
  assumes "\<forall>f \<in> set fs. frame_ok f" "concat ds = concat (map to_bytes fs)" "\<forall>d \<in> set ds. d \<noteq> []"
    and "length (concat ds) < 2 ^ 64"
  shows "outcome (serve_stomp s [] c (map Data ds)) = run_frames s fs c"
proof (cases "ds = []")
  case True
  then have "fs = []" using assms(2) by (cases fs) (auto simp: to_bytes_def)
  with True show ?thesis by simp
next
  case False
  have "stomp.decodes (concat ds) fs [] None" using stomp.decodes_enc [OF assms(1)] assms(2) by simp
  from stomp_loop.serve_decodes [OF assms(3) _ False this] assms(4) show ?thesis
    by (simp add: slice_fits_def run_frames_run_all)
qed

text \<open>
  C4: the server on the bytes of a sequence of frames, in whatever reads they arrive, is the
  frame handler applied to the frames themselves, in order and each exactly once.
\<close>

theorem stomp_serves_frames:
  assumes "\<forall>f \<in> set fs. frame_ok f" "concat ds = concat (map to_bytes fs)" "\<forall>d \<in> set ds. d \<noteq> []"
    and "length (concat ds) < 2 ^ 64"
  shows "outcome (serve_stomp s [] c (map Data ds)) = run_frames s fs c"
  using assms by (rule serves_frames)

theorem stomp_serves_frames_witness:
  "outcome (serve_stomp sample_srv [] (conn_init 9 0)
     (map Data [to_bytes (frame_new ''CONNECT'') @ ''DISC'', ''ONNECT'' @ [NL, NL, NUL]])) =
   run_frames sample_srv [frame_new ''CONNECT'', frame_new ''DISCONNECT''] (conn_init 9 0)"
  by (rule stomp_serves_frames) (auto simp: frame_ok_def frame_new_def header_def to_bytes_def)

text \<open>
  C5: the handshake gate. Whatever the peer sends, as long as the connection has not accepted
  a CONNECT (or STOMP) frame the daemon state is untouched, no subscription exists, and the
  bytes written are none, or those of one ERROR frame on a connection that has been ended.
\<close>

theorem stomp_handshake_gate:
  assumes "srv_ok s" "length (event_bytes es) < 2 ^ 63"
    and "serve_stomp s [] (conn_init n w) es = (st, r, c)" "\<not> connected c"
  shows "world c = w \<and> subscriptions c = [] \<and>
    (sent c = [] \<or> st \<noteq> Running \<and> (\<exists>f. command f = ''ERROR'' \<and> frame_ok f \<and> sent c = to_bytes f))"
  using serve_stomp_inv [OF assms(1-3)] assms(4)
  by (auto simp: conn_inv_def wire_ok_def conn_init_def)

theorem stomp_handshake_gate_witness:
  "\<exists>r c. serve_stomp sample_srv [] (conn_init 9 0) [Data (to_bytes (with_body ''inc'' (frame_new ''SEND'')))]
       = (ClosedOk, r, c) \<and> world c = 0 \<and> subscriptions c = []"
proof -
  let ?f = "with_body ''inc'' (frame_new ''SEND'')"
  let ?b = "to_bytes ?f"
  have ok: "frame_ok ?f" by (simp add: frame_ok_def frame_new_def with_body_def header_def)
  have pf: "parse_frame ?b = Parsed ?f []" using parse_to_bytes [OF ok, of "[]"] by simp
  obtain c where h: "handle_frame sample_srv ?f (conn_init 9 0) = (ClosedOk, c)" "\<not> connected c"
    by (simp add: handle_frame_def conn_init_def frame_new_def with_body_def send_frame_def write_all_def)
  have "?b \<noteq> []" by (simp add: to_bytes_def)
  then have s: "serve_stomp sample_srv [] (conn_init 9 0) [Data ?b] = (ClosedOk, [], c)"
    using pf h by (simp add: drain.simps [of _ ?b])
  have "length (event_bytes [Data ?b]) < 2 ^ 63"
    by (simp add: to_bytes_def frame_new_def with_body_def)
  from stomp_handshake_gate [OF sample_srv_ok this s h(2)] s show ?thesis by auto
qed

text \<open>
  The bytes the server writes always form a sequence of well-formed frames, so a client
  that parses them with the same grammar gets every frame back with nothing left over. After
  the handshake the first frame is CONNECTED and it is sent once; all others are MESSAGE, ERROR
  and RECEIPT frames.
\<close>

theorem stomp_output_wellformed:
  assumes "srv_ok s" "length (event_bytes es) < 2 ^ 63" "serve_stomp s [] (conn_init n w) es = (st, r, c)"
  shows "\<exists>fs. stomp.decodes (sent c) fs [] None \<and> sent c = concat (map to_bytes fs) \<and>
    (connected c \<longrightarrow> (\<exists>gs. fs = connected_frame ''1.2'' SERVER_ID (Some (''vdsm-rs-'' @ peer s)) # gs \<and>
       (\<forall>g \<in> set gs. command g \<in> {''MESSAGE'', ''ERROR'', ''RECEIPT''})))"
proof -
  from serve_stomp_inv [OF assms] obtain fs where fs: "sent c = concat (map to_bytes fs)"
      "wire_ok s st (connected c) fs"
    by (auto simp: conn_inv_def)
  then have "stomp.decodes (sent c) fs [] None"
    using stomp.decodes_enc [of fs] by (simp add: wire_ok_def list_all_iff)
  with fs show ?thesis by (auto simp: wire_ok_def list_all_iff hello_def)
qed

theorem stomp_output_wellformed_witness:
  "\<exists>c fs gs. serve_stomp sample_srv [] (conn_init 9 0) [Data (to_bytes (frame_new ''CONNECT''))] = (Running, [], c) \<and>
     stomp.decodes (sent c) fs [] None \<and>
     fs = connected_frame ''1.2'' ''vdsm-rs/4.5.7'' (Some ''vdsm-rs-[::1]:9'') # gs"
proof -
  let ?f = "frame_new ''CONNECT''"
  let ?b = "to_bytes ?f"
  have ok: "frame_ok ?f" by (simp add: frame_ok_def frame_new_def header_def)
  have pf: "parse_frame ?b = Parsed ?f []" using parse_to_bytes [OF ok, of "[]"] by simp
  obtain c where h: "handle_frame sample_srv ?f (conn_init 9 0) = (Running, c)" "connected c"
    by (simp add: handle_frame_def conn_init_def frame_new_def send_frame_def write_all_def)
  have "?b \<noteq> []" by (simp add: to_bytes_def)
  then have s: "serve_stomp sample_srv [] (conn_init 9 0) [Data ?b] = (Running, [], c)"
    using pf h by (simp add: drain.simps parse_frame_def)
  have "length (event_bytes [Data ?b]) < 2 ^ 63" by (simp add: to_bytes_def frame_new_def)
  from stomp_output_wellformed [OF sample_srv_ok this s] s h show ?thesis
    by (auto simp: SERVER_ID_def sample_srv_def)
qed

lemma send_answered:
  assumes "connected c" "command f = ''SEND''" "from_utf8 (body f) = Inr t"
    and "de_request s t = Inr req" "req_id req = Some i"
    and "invoke (dispatcher s) (req_method req) (req_params req) (world c) = (res, w')"
    and "ser_response s (case res of Inr v \<Rightarrow> response_ok (Some i) v | Inl e \<Rightarrow> response_err (Some i) e) = Inr b"
    and "0 < writes_left c"
  shows "handle_frame s f c =
    (Running, c\<lparr>world := w', writes_left := writes_left c - 1,
       sent := sent c @ to_bytes (message_frame (reply_dest s f (subscriptions c))
         (reply_sub s (subscriptions c) (reply_dest s f (subscriptions c))) b)\<rparr>)"
  using assms
  by (cases res)
    (simp_all add: handle_frame_def handle_stomp_send_def answer_def message_trace send_frame_def
      write_all_def Let_def)

text \<open>
  A request is answered. A SEND frame on an open session whose body is a request with an id
  runs the handler once and writes exactly one MESSAGE frame: the serialized response (result
  or error object, with the request's id), addressed by the reply routing; the session stays
  open and nothing else of it changes.
\<close>

theorem stomp_send_answered:
  assumes "connected c" "command f = ''SEND''" "from_utf8 (body f) = Inr t"
    and "de_request s t = Inr req" "req_id req = Some i"
    and "invoke (dispatcher s) (req_method req) (req_params req) (world c) = (res, w')"
    and "ser_response s (case res of Inr v \<Rightarrow> response_ok (Some i) v | Inl e \<Rightarrow> response_err (Some i) e) = Inr b"
    and "0 < writes_left c"
  shows "handle_frame s f c =
    (Running, c\<lparr>world := w', writes_left := writes_left c - 1,
       sent := sent c @ to_bytes (message_frame (reply_dest s f (subscriptions c))
         (reply_sub s (subscriptions c) (reply_dest s f (subscriptions c))) b)\<rparr>)"
  using assms by (rule send_answered)

theorem stomp_send_answered_witness:
  "handle_frame sample_srv (with_header ''reply-to'' ''/q'' (with_body ''inc'' (frame_new ''SEND'')))
     (conn_init 9 0\<lparr>connected := True\<rparr>) =
   (Running, conn_init 9 0\<lparr>connected := True, world := 1, writes_left := 8,
      sent := to_bytes (message_frame ''/q'' ''0'' ''done'')\<rparr>)"
proof -
  let ?f = "with_header ''reply-to'' ''/q'' (with_body ''inc'' (frame_new ''SEND''))"
  have "invoke (dispatcher sample_srv) ''inc'' JNull 0 = (Inr (JStr ''done''), 1)"
    by (simp add: sample_srv_def invoke_register_all)
  from stomp_send_answered [of "conn_init 9 0\<lparr>connected := True\<rparr>" ?f "''inc''" sample_srv
      "\<lparr>req_jsonrpc = ''2.0'', req_method = ''inc'', req_params = JNull, req_id = Some (JStr ''7'')\<rparr>"
      "JStr ''7''" "Inr (JStr ''done'')" 1 "''done''"] this
  show ?thesis
    by (simp add: conn_init_def with_header_def with_body_def frame_new_def response_ok_def
        reply_dest_def reply_sub_def header_def) (simp add: sample_srv_def)
qed

lemma hash_order_get:
  assumes "srv_ok s" "hm_ok m"
  shows "hm_get m i = Some d \<longleftrightarrow> (i, d) \<in> set (hash_order s m)"
  using assms by (simp add: srv_ok_def hm_ok_def)

lemma reply_dest_subscribed:
  assumes "srv_ok s" "hm_ok m" "header f ''reply-to'' = None" "m \<noteq> []"
  shows "\<exists>i. hm_get m i = Some (reply_dest s f m)"
proof -
  from assms obtain i d r where "hash_order s m = (i, d) # r"
    by (cases "hash_order s m") (auto simp: srv_ok_def)
  with assms show ?thesis by (intro exI [of _ i]) (simp add: hash_order_get reply_dest_def)
qed

lemma reply_sub_subscribed:
  assumes "srv_ok s" "hm_ok m" "hm_get m i = Some e"
  shows "hm_get m (reply_sub s m e) = Some e"
proof -
  have "(i, e) \<in> set (hash_order s m)" using assms by (simp add: hash_order_get)
  then obtain p where p: "find (\<lambda>(i, d). d = e) (hash_order s m) = Some p"
    by (cases "find (\<lambda>(i, d). d = e) (hash_order s m)") (auto simp: find_None_iff)
  from find_in_set [OF p] have "(fst p, e) \<in> set (hash_order s m)" by (auto split: prod.splits)
  with p assms show ?thesis by (cases p) (simp add: hash_order_get reply_sub_def)
qed



text \<open>
  The comment on the reply routing says the first destination the client subscribed to. The map
  is a \<open>HashMap\<close>: with an iteration order the standard library allows, the reply of a client
  that subscribed to \<open>/a\<close> and then to \<open>/b\<close> goes to \<open>/b\<close>.
\<close>

theorem reply_not_first_subscription:
  "srv_ok (sample_srv\<lparr>hash_order := rev\<rparr>) \<and>
   (let sub = (\<lambda>i d. with_header ''destination'' d (with_header ''id'' i (frame_new ''SUBSCRIBE'')));
        r = run_frames (sample_srv\<lparr>hash_order := rev\<rparr>) [sub ''1'' ''/a'', sub ''2'' ''/b'']
              (conn_init 9 0\<lparr>connected := True\<rparr>)
    in fst r = Running \<and>
       reply_dest (sample_srv\<lparr>hash_order := rev\<rparr>) (frame_new ''SEND'') (subscriptions (snd r)) = ''/b'')"
  using sample_srv_ok
  by (simp add: srv_ok_def conn_init_def handle_frame_def with_header_def frame_new_def header_def
      reply_dest_def Let_def)

text \<open>
  No frame, request or handler result makes the task of a connection panic: it ends in a
  panic only where the frame parser does, on the bytes still in the buffer.
\<close>

theorem stomp_crash_only_in_parser:
  assumes "serve_stomp s b c es = (Crashed, r, c')"
  shows "parse_frame r = Panicked"
proof -
  have loop: "drain s b c = (Crashed, r, c') \<Longrightarrow> parse_frame r = Panicked" for s :: "'a srv" and b c
  proof (induction s b c rule: drain.induct)
    case (1 s b c)
    show ?case
    proof (cases "parse_frame b")
      case (Parsed f q)
      obtain st c1 where h: "handle_frame s f c = (st, c1)" by fastforce
      have "st = Running" "drain s q c1 = (Crashed, r, c')"
        using "1.prems" Parsed h handle_frame_not_crashed [OF h]
        by (auto simp: drain.simps [of s b] split: status.splits)
      with "1.IH" [OF Parsed h [symmetric]] show ?thesis by blast
    qed (use "1.prems" in \<open>auto simp: drain.simps [of s b]\<close>)
  qed
  show ?thesis
    using assms
  proof (induction s b c es rule: serve_stomp.induct)
    case (2 s b c d es)
    obtain st b1 c1 where dr: "drain s (b @ d) c = (st, b1, c1)" by (cases "drain s (b @ d) c") auto
    with "2.prems" "2.IH" loop show ?case by (cases st) (auto split: if_splits)
  qed auto
qed

theorem stomp_crash_only_in_parser_witness:
  "let b = ''SEND'' @ [NL] @ ''content-length:18446744073709551615'' @ [NL, NL]
   in serve_stomp sample_srv [] (conn_init 9 0) [Data b] = (Crashed, b, conn_init 9 0) \<and> parse_frame b = Panicked"
proof -
  let ?h = "header_line (''content-length'', ''18446744073709551615'') @ [NL]"
  let ?b = "''SEND'' @ NL # ?h"
  have "parse_u64 ''18446744073709551615'' = Some (- 1)"
    by (simp add: parse_u64_def parse_unsigned_def is_digit_def digit_val_def)
  then have "parse_frame ?b = Panicked"
    by (subst parse_frame_command) (simp_all add: parse_headers_line parse_headers_blank parse_body_panic)
  then have run: "serve_stomp sample_srv [] (conn_init 9 0) [Data ?b] = (Crashed, ?b, conn_init 9 0)"
    by (simp add: drain.simps)
  from stomp_crash_only_in_parser [OF this] run show ?thesis by (simp add: header_line_def Let_def)
qed

section \<open>Properties of the line framing\<close>

fun run_lines :: "'w srv \<Rightarrow> bytes list \<Rightarrow> 'w conn \<Rightarrow> status \<times> 'w conn" where
  "run_lines s [] c = (Running, c)"
| "run_lines s (l # ls) c =
     (case handle_line s (l @ [NL]) c of (st, c') \<Rightarrow> if st = Running then run_lines s ls c' else (st, c'))"

text \<open>
  C10: with line framing every line is handled once, in order, however the bytes arrive, until
  one of them ends the connection.
\<close>

theorem lines_served_in_order:
  assumes "\<forall>l \<in> set ls. NL \<notin> set l" "concat ds = concat (map (\<lambda>l. l @ [NL]) ls)" "\<forall>d \<in> set ds. d \<noteq> []"
  shows "outcome (serve_lines s [] c (map Data ds)) = run_lines s ls c"
proof (cases "ds = []")
  case True
  then have "ls = []" using assms(2) by (cases ls) auto
  with True show ?thesis by simp
next
  case False
  have "line.decodes (concat (map (\<lambda>l. l) (map (\<lambda>l. l @ [NL]) ls))) (map (\<lambda>l. l @ [NL]) ls) [] None"
    using assms(1) by (intro line.decodes_enc) auto
  then have "line.decodes (concat ds) (map (\<lambda>l. l @ [NL]) ls) [] None" using assms(2) by simp
  then have "outcome (serve_lines s [] c (map Data ds)) =
      line_loop.run_all s (map (\<lambda>l. l @ [NL]) ls) None c"
    by (intro line_loop.serve_decodes [OF assms(3) TrueI False])
  also have "\<dots> = run_lines s ls c" by (induction ls arbitrary: c) (auto split: prod.splits)
  finally show ?thesis .
qed

theorem lines_served_in_order_witness:
  "outcome (serve_lines sample_srv [] (conn_init 9 0) (map Data [''i'', ''nc'' @ [NL] @ ''no'', ''te'' @ [NL]])) =
   run_lines sample_srv [''inc'', ''note''] (conn_init 9 0)"
  by (rule lines_served_in_order) simp_all

text \<open>
  Both framings answer the same. For the same text and daemon state they run the same
  handler and build the same response object, with the error code -32700 for a text that is no
  request; the line framing drops it exactly for a request without an id.
\<close>

theorem framings_agree:
  "process_one s t w =
     (let (resp, i, w') = answer s t w
      in (if (\<exists>req. de_request s t = Inr req \<and> req_id req = None) then None else Some resp, w')) \<and>
   (\<forall>e. de_request s t = Inl e \<longrightarrow>
      map_option err_code (resp_error (fst (answer s t w))) = Some (- 32700) \<and> snd (snd (answer s t w)) = w)"
  by (auto simp: process_one_def answer_def response_err_def parse_error_def
      split: sum.splits prod.splits)

theorem framings_agree_witness:
  "process_one sample_srv ''inc'' 4 = (Some (fst (answer sample_srv ''inc'' 4)), 5) \<and>
   map_option err_code (resp_error (fst (answer sample_srv ''bad'' 4))) = Some (- 32700)"
  using framings_agree [of sample_srv "''inc''" 4] framings_agree [of sample_srv "''bad''" 4]
  by (simp add: sample_srv_def answer_def invoke_register_all)

text \<open>
  Notifications that fail. A request without an id gets no answer with line framing; over
  STOMP it gets none when its handler succeeds, but when the handler fails a MESSAGE with the
  error is written although the comment says notifications have no response.
\<close>

theorem failed_notification_answered:
  assumes "connected c" "command f = ''SEND''" "from_utf8 (body f) = Inr t"
    and "de_request s t = Inr req" "req_id req = None" "0 < writes_left c"
    and "invoke (dispatcher s) (req_method req) (req_params req) (world c) = (res, w')"
    and "\<forall>e. ser_response s (response_err None e) = Inr b"
  shows "process_one s t (world c) = (None, w') \<and>
    (case res of
       Inr v \<Rightarrow> handle_frame s f c = (Running, c\<lparr>world := w'\<rparr>)
     | Inl e \<Rightarrow> sent (snd (handle_frame s f c)) = sent c @ to_bytes (message_frame
         (reply_dest s f (subscriptions c)) (reply_sub s (subscriptions c) (reply_dest s f (subscriptions c))) b))"
  using assms
  by (cases res)
    (simp_all add: process_one_def handle_frame_def handle_stomp_send_def answer_def message_trace
      send_frame_def write_all_def response_ok_def response_err_def Let_def)

theorem failed_notification_answered_witness:
  "process_one sample_srv ''note'' 3 = (None, 3) \<and>
   sent (snd (handle_frame sample_srv (with_body ''note'' (frame_new ''SEND'')) (conn_init 9 3\<lparr>connected := True\<rparr>))) =
     to_bytes (message_frame DEFAULT_DEST ''0'' ''error'')"
proof -
  have inv: "invoke (dispatcher sample_srv) ''note'' JNull 3 = (Inl (method_not_found ''note''), 3)"
    by (simp add: sample_srv_def invoke_register_all)
  have "\<forall>e. ser_response sample_srv (response_err None e) = Inr ''error''"
    by (simp add: sample_srv_def response_err_def)
  from failed_notification_answered [of "conn_init 9 3\<lparr>connected := True\<rparr>"
      "with_body ''note'' (frame_new ''SEND'')" "''note''" sample_srv
      "\<lparr>req_jsonrpc = ''2.0'', req_method = ''note'', req_params = JNull, req_id = None\<rparr>"
      "Inl (method_not_found ''note'')" 3 "''error''"] this inv
  show ?thesis
    by (simp add: conn_init_def with_body_def frame_new_def reply_dest_def reply_sub_def header_def)
      (simp add: sample_srv_def)
qed

end
