(* ===== verification/Os.thy ===== *)
theory Os
  imports Json "HOL-Library.Sublist"
begin

text \<open>
  What the daemons use of the operating system through the Rust standard library and
  \<open>tokio\<close>: paths, the file system, and spawning programs. The file system is a tree of
  directories and files, keyed by the components of a path; a path is walked component by
  component, so that a component is only entered below an existing directory. Symbolic links
  are not modelled.

  Three things lie outside the program and are parameters in the record \<open>env\<close>: the programs
  the daemons spawn (\<open>exec\<close>, which may change the system), failures of a file operation for
  reasons of its own such as permissions or a full disk (\<open>fault\<close>, with the state it leaves
  behind), and the order in which a directory is listed (\<open>dir_order\<close>).
\<close>

section \<open>State and environment\<close>

record cmd_output =
  exit_code :: "int option"
  stdout_bytes :: bytes
  stderr_bytes :: bytes

definition success :: "cmd_output \<Rightarrow> bool" where
  "success r \<longleftrightarrow> exit_code r = Some 0"

datatype node = NDir | NFile bytes

type_synonym fs = "(string list \<times> node) list"

record 'x os =
  files :: fs
  now_secs :: u64
  outside :: 'x

datatype io_op = OpRead | OpWrite | OpMkdir | OpRemove | OpList | OpStat

record 'x env =
  exec :: "string \<Rightarrow> string list \<Rightarrow> 'x os \<Rightarrow> (string, cmd_output) result \<times> 'x os"
  fault :: "io_op \<Rightarrow> string \<Rightarrow> 'x os \<Rightarrow> (string \<times> 'x os) option"
  dir_order :: "string list \<Rightarrow> string list"
  dir_len :: u64

section \<open>Paths\<close>

text \<open>\<open>PathBuf::join\<close>: an absolute path replaces, a relative one is appended.\<close>

definition path_join :: "string \<Rightarrow> string \<Rightarrow> string" where
  "path_join a b =
     (if b \<noteq> [] \<and> hd b = SLASH then b
      else if a = [] \<or> last a = SLASH then a @ b
      else a @ [SLASH] @ b)"

definition path_joins :: "string \<Rightarrow> string list \<Rightarrow> string" where
  "path_joins a bs = foldl path_join a bs"

text \<open>\<open>Path::parent\<close>: trailing separators and dots do not count as components.\<close>

fun strip_seps_rev :: "string \<Rightarrow> string" where
  "strip_seps_rev (c # r) =
     (if c = SLASH \<and> r \<noteq> [] then strip_seps_rev r
      else if c = CHR ''.'' \<and> r \<noteq> [] \<and> hd r = SLASH then strip_seps_rev r
      else c # r)"
| "strip_seps_rev [] = []"

definition path_parent :: "string \<Rightarrow> string option" where
  "path_parent p =
     (let q = strip_seps_rev (rev p)
      in if q = [] \<or> q = [SLASH] then None
         else Some (rev (strip_seps_rev (dropWhile (\<lambda>c. c \<noteq> SLASH) q))))"

definition components :: "string \<Rightarrow> string list" where
  "components p = split_on SLASH p"

section \<open>The tree\<close>

definition node_at :: "fs \<Rightarrow> string list \<Rightarrow> node option" where
  "node_at f p = (if p = [] then Some NDir else map_of f p)"

definition dir_at :: "fs \<Rightarrow> string list \<Rightarrow> bool" where
  "dir_at f p \<longleftrightarrow> node_at f p = Some NDir"

definition ENOENT :: string where
  "ENOENT = ''No such file or directory (os error 2)''"

definition ENOTDIR :: string where
  "ENOTDIR = ''Not a directory (os error 20)''"

definition EISDIR :: string where
  "EISDIR = ''Is a directory (os error 21)''"

definition EEXIST :: string where
  "EEXIST = ''File exists (os error 17)''"

definition NUL_ERROR :: string where
  "NUL_ERROR = ''file name contained an unexpected NUL byte''"

definition UTF8_ERROR :: string where
  "UTF8_ERROR = ''stream did not contain valid UTF-8''"

definition enter_error :: "fs \<Rightarrow> string list \<Rightarrow> string" where
  "enter_error f p = (if node_at f p = None then ENOENT else ENOTDIR)"

fun walk :: "fs \<Rightarrow> string list \<Rightarrow> string list \<Rightarrow> (string, string list) result" where
  "walk f cur [] = Inr cur"
| "walk f cur (c # cs) =
     (if \<not> dir_at f cur then Inl (enter_error f cur)
      else if c = [] \<or> c = ''.'' then walk f cur cs
      else if c = ''..'' then walk f (butlast cur) cs
      else walk f (cur @ [c]) cs)"

definition locate :: "fs \<Rightarrow> string \<Rightarrow> (string, string list) result" where
  "locate f p = (if NUL \<in> set p then Inl NUL_ERROR else walk f [] (components p))"

definition children :: "fs \<Rightarrow> string list \<Rightarrow> string list" where
  "children f p = map last (filter (\<lambda>q. q \<noteq> [] \<and> butlast q = p) (map fst f))"

definition set_node :: "string list \<Rightarrow> node \<Rightarrow> 'x os \<Rightarrow> 'x os" where
  "set_node p n s = s\<lparr>files := hm_insert p n (files s)\<rparr>"

section \<open>File operations\<close>

definition fs_read :: "'x env \<Rightarrow> string \<Rightarrow> 'x os \<Rightarrow> (string, bytes) result" where
  "fs_read e p s =
     (case fault e OpRead p s of
        Some (m, _) \<Rightarrow> Inl m
      | None \<Rightarrow>
          (case locate (files s) p of
             Inl m \<Rightarrow> Inl m
           | Inr q \<Rightarrow>
               (case node_at (files s) q of
                  None \<Rightarrow> Inl ENOENT
                | Some NDir \<Rightarrow> Inl EISDIR
                | Some (NFile b) \<Rightarrow> Inr b)))"

definition read_to_string :: "'x env \<Rightarrow> string \<Rightarrow> 'x os \<Rightarrow> (string, string) result" where
  "read_to_string e p s =
     (case fs_read e p s of
        Inl m \<Rightarrow> Inl m
      | Inr b \<Rightarrow> (case from_utf8 b of Inl _ \<Rightarrow> Inl UTF8_ERROR | Inr t \<Rightarrow> Inr t))"

definition fs_stat :: "'x env \<Rightarrow> string \<Rightarrow> 'x os \<Rightarrow> (string, node) result" where
  "fs_stat e p s =
     (case fault e OpStat p s of
        Some (m, _) \<Rightarrow> Inl m
      | None \<Rightarrow>
          (case locate (files s) p of
             Inl m \<Rightarrow> Inl m
           | Inr q \<Rightarrow> (case node_at (files s) q of None \<Rightarrow> Inl ENOENT | Some n \<Rightarrow> Inr n)))"

definition path_exists :: "'x env \<Rightarrow> string \<Rightarrow> 'x os \<Rightarrow> bool" where
  "path_exists e p s \<longleftrightarrow> (case fs_stat e p s of Inl _ \<Rightarrow> False | Inr _ \<Rightarrow> True)"

definition is_dir :: "'x env \<Rightarrow> string \<Rightarrow> 'x os \<Rightarrow> bool" where
  "is_dir e p s \<longleftrightarrow> fs_stat e p s = Inr NDir"

definition metadata_len :: "'x env \<Rightarrow> string \<Rightarrow> 'x os \<Rightarrow> u64 option" where
  "metadata_len e p s =
     (case fs_stat e p s of
        Inl _ \<Rightarrow> None
      | Inr NDir \<Rightarrow> Some (dir_len e)
      | Inr (NFile b) \<Rightarrow> Some (of_nat (length b)))"

definition fs_write :: "'x env \<Rightarrow> string \<Rightarrow> bytes \<Rightarrow> 'x os \<Rightarrow> (string, unit) result \<times> 'x os" where
  "fs_write e p b s =
     (case fault e OpWrite p s of
        Some (m, s') \<Rightarrow> (Inl m, s')
      | None \<Rightarrow>
          (case locate (files s) p of
             Inl m \<Rightarrow> (Inl m, s)
           | Inr q \<Rightarrow>
               (if dir_at (files s) q then (Inl EISDIR, s)
                else (Inr (), set_node q (NFile b) s))))"

text \<open>\<open>create_dir_all\<close>: missing directories are made on the way, a file in the way is an error.\<close>

fun make_dirs :: "string list \<Rightarrow> string list \<Rightarrow> 'x os \<Rightarrow> (string, unit) result \<times> 'x os" where
  "make_dirs cur [] s = (Inr (), s)"
| "make_dirs cur (c # cs) s =
     (if c = [] \<or> c = ''.'' then make_dirs cur cs s
      else if c = ''..'' then make_dirs (butlast cur) cs s
      else
        (case node_at (files s) (cur @ [c]) of
           Some NDir \<Rightarrow> make_dirs (cur @ [c]) cs s
         | Some (NFile b) \<Rightarrow> (Inl (if cs = [] then EEXIST else ENOTDIR), s)
         | None \<Rightarrow> make_dirs (cur @ [c]) cs (set_node (cur @ [c]) NDir s)))"

definition create_dir_all :: "'x env \<Rightarrow> string \<Rightarrow> 'x os \<Rightarrow> (string, unit) result \<times> 'x os" where
  "create_dir_all e p s =
     (case fault e OpMkdir p s of
        Some (m, s') \<Rightarrow> (Inl m, s')
      | None \<Rightarrow>
          (if NUL \<in> set p then (Inl NUL_ERROR, s) else make_dirs [] (components p) s))"

definition remove_file :: "'x env \<Rightarrow> string \<Rightarrow> 'x os \<Rightarrow> (string, unit) result \<times> 'x os" where
  "remove_file e p s =
     (case fault e OpRemove p s of
        Some (m, s') \<Rightarrow> (Inl m, s')
      | None \<Rightarrow>
          (case locate (files s) p of
             Inl m \<Rightarrow> (Inl m, s)
           | Inr q \<Rightarrow>
               (case node_at (files s) q of
                  None \<Rightarrow> (Inl ENOENT, s)
                | Some NDir \<Rightarrow> (Inl EISDIR, s)
                | Some (NFile b) \<Rightarrow> (Inr (), s\<lparr>files := hm_remove q (files s)\<rparr>))))"

definition remove_tree :: "string list \<Rightarrow> fs \<Rightarrow> fs" where
  "remove_tree q f = filter (\<lambda>(p, n). \<not> starts_with q p) f"

definition remove_dir_all :: "'x env \<Rightarrow> string \<Rightarrow> 'x os \<Rightarrow> (string, unit) result \<times> 'x os" where
  "remove_dir_all e p s =
     (case fault e OpRemove p s of
        Some (m, s') \<Rightarrow> (Inl m, s')
      | None \<Rightarrow>
          (case locate (files s) p of
             Inl m \<Rightarrow> (Inl m, s)
           | Inr q \<Rightarrow>
               (case node_at (files s) q of
                  None \<Rightarrow> (Inl ENOENT, s)
                | Some (NFile b) \<Rightarrow> (Inl ENOTDIR, s)
                | Some NDir \<Rightarrow> (Inr (), s\<lparr>files := remove_tree q (files s)\<rparr>))))"

definition read_dir :: "'x env \<Rightarrow> string \<Rightarrow> 'x os \<Rightarrow> (string, string list) result" where
  "read_dir e p s =
     (case fault e OpList p s of
        Some (m, _) \<Rightarrow> Inl m
      | None \<Rightarrow>
          (case locate (files s) p of
             Inl m \<Rightarrow> Inl m
           | Inr q \<Rightarrow>
               (if dir_at (files s) q then Inr (dir_order e (children (files s) q))
                else Inl (enter_error (files s) q))))"

section \<open>Walking\<close>

lemma walk_mono:
  "walk f cur cs = Inr q \<Longrightarrow> (\<And>p. dir_at f p \<Longrightarrow> dir_at g p) \<Longrightarrow> walk g cur cs = Inr q"
  by (induction f cur cs rule: walk.induct) (auto split: if_splits)

lemma node_at_insert: "p \<noteq> [] \<Longrightarrow> node_at (hm_insert p n f) q = (if q = p then Some n else node_at f q)"
  by (auto simp: node_at_def update_conv')

lemma node_at_set_node: "p \<noteq> [] \<Longrightarrow> node_at (files (set_node p n s)) q = (if q = p then Some n else node_at (files s) q)"
  by (simp add: set_node_def node_at_insert)

lemma dir_at_Nil [simp]: "dir_at f []"
  by (simp add: dir_at_def node_at_def)

text \<open>A write is read back, and is seen nowhere else.\<close>

lemma locate_write:
  assumes "locate (files s) p = Inr q" "\<not> dir_at (files s) q"
  shows "locate (files (set_node q (NFile b) s)) p' = Inr r \<longleftrightarrow> locate (files s) p' = Inr r"
proof -
  have ne: "q \<noteq> []" using assms(2) by auto
  have same: "dir_at (files (set_node q (NFile b) s)) = dir_at (files s)"
    using assms(2) ne by (auto simp: dir_at_def node_at_set_node fun_eq_iff)
  then show ?thesis
    unfolding locate_def by (auto intro: walk_mono)
qed

definition no_faults :: "'x env \<Rightarrow> bool" where
  "no_faults e \<longleftrightarrow> (\<forall>op p s. fault e op p s = None)"

lemma no_faultsD [simp]: "no_faults e \<Longrightarrow> fault e op p s = None"
  by (simp add: no_faults_def)

lemma fs_write_read:
  assumes "no_faults e" "fs_write e p b s = (Inr (), s')"
  shows "fs_read e p s' = Inr b"
proof -
  from assms obtain q where q: "locate (files s) p = Inr q" "\<not> dir_at (files s) q" "s' = set_node q (NFile b) s"
    by (auto simp: fs_write_def split: option.splits prod.splits sum.splits if_splits)
  then have "locate (files s') p = Inr q" using locate_write by blast
  moreover have "q \<noteq> []" using q(2) by auto
  ultimately show ?thesis using assms(1) q(3) by (simp add: fs_read_def node_at_set_node)
qed

text \<open>Without dot-dot components a walk never leaves the directory it starts in.\<close>

lemma walk_below: "walk f cur cs = Inr q \<Longrightarrow> ''..'' \<notin> set cs \<Longrightarrow> starts_with cur q"
proof (induction f cur cs rule: walk.induct)
  case (2 f cur c cs)
  then show ?case by (auto simp: starts_with_iff split: if_splits)
qed (simp add: starts_with_iff)

lemma walk_append:
  "walk f cur (cs @ ds) = (case walk f cur cs of Inl m \<Rightarrow> Inl m | Inr p \<Rightarrow> walk f p ds)"
  by (induction f cur cs rule: walk.induct) auto

lemma components_append: "components (a @ SLASH # b) = components a @ components b"
  by (induction a) (auto simp: components_def split: list.splits)

lemma no_dotdot_component: "\<not> has_substr ''..'' p \<Longrightarrow> ''..'' \<notin> set (components p)"
proof -
  have "c \<in> set (split_on SLASH p) \<Longrightarrow> \<exists>a b. p = a @ c @ b" for c
  proof (induction p arbitrary: c)
    case (Cons x p)
    show ?case
    proof (cases "x = SLASH")
      case True
      with Cons.prems have "c = [] \<or> c \<in> set (split_on SLASH p)" by simp
      then show ?thesis
      proof
        assume "c = []"
        then show ?thesis by (intro exI [of _ "[]"] exI [of _ "x # p"]) simp
      next
        assume "c \<in> set (split_on SLASH p)"
        then obtain a b where "p = a @ c @ b" using Cons.IH by blast
        then show ?thesis by (intro exI [of _ "x # a"] exI [of _ b]) simp
      qed
    next
      case False
      obtain d ds where d: "split_on SLASH p = d # ds" by (cases "split_on SLASH p") auto
      have pre: "\<exists>b. p = d @ b" using d
      proof (induction p arbitrary: d ds)
        case (Cons y p)
        then show ?case by (auto split: if_splits list.splits)
      qed simp
      from Cons.prems False d have "c = x # d \<or> c \<in> set ds" by simp
      then show ?thesis
      proof
        assume "c = x # d"
        with pre obtain b where "x # p = [] @ c @ b" by auto
        then show ?thesis by blast
      next
        assume "c \<in> set ds"
        then obtain a b where "p = a @ c @ b" using Cons.IH [of c] d by auto
        then show ?thesis by (intro exI [of _ "x # a"] exI [of _ b]) simp
      qed
    qed
  qed simp
  then show "\<not> has_substr ''..'' p \<Longrightarrow> ''..'' \<notin> set (components p)"
    unfolding components_def has_substr_iff by blast
qed

text \<open>A path with a fixed prefix and no dot-dot lies in the directory the prefix names.\<close>

lemma locate_below:
  assumes "locate f (pre @ SLASH # r) = Inr q" "\<not> has_substr ''..'' (pre @ SLASH # r)"
  shows "\<exists>d. walk f [] (components pre) = Inr d \<and> starts_with d q"
proof -
  have nd: "''..'' \<notin> set (components pre @ components r)"
    using no_dotdot_component [OF assms(2)] by (simp add: components_append)
  from assms(1) obtain d where "walk f [] (components pre) = Inr d" "walk f d (components r) = Inr q"
    by (auto simp: locate_def components_append walk_append split: if_splits sum.splits)
  then show ?thesis using walk_below nd by auto
qed

section \<open>Plain names and proper paths\<close>

text \<open>
  A plain name is one path component; a proper path is not empty and has no trailing slash.
  Joining plain names to a proper path is walking on from where it leads.
\<close>

definition plain :: "string \<Rightarrow> bool" where
  "plain n \<longleftrightarrow> n \<noteq> [] \<and> n \<noteq> ''.'' \<and> n \<noteq> ''..'' \<and> SLASH \<notin> set n \<and> NUL \<notin> set n"

definition proper :: "string \<Rightarrow> bool" where
  "proper p \<longleftrightarrow> p \<noteq> [] \<and> last p \<noteq> SLASH \<and> NUL \<notin> set p"

definition norm :: "string list \<Rightarrow> string list" where
  "norm cs = filter (\<lambda>c. c \<noteq> [] \<and> c \<noteq> ''.'') cs"

lemma norm_simps [simp]:
  "norm [] = []" "norm (cs @ ds) = norm cs @ norm ds" "plain c \<Longrightarrow> norm (c # cs) = c # norm cs"
  by (simp_all add: norm_def plain_def)

lemma starts_with_prefix: "starts_with p q \<longleftrightarrow> prefix p q"
  by (auto simp: starts_with_iff prefix_def)

lemma plain_join: "plain b \<Longrightarrow> proper p \<Longrightarrow> path_join p b = p @ SLASH # b"
  by (cases b) (auto simp: path_join_def plain_def proper_def)

lemma proper_join: "plain b \<Longrightarrow> proper p \<Longrightarrow> proper (path_join p b)"
  using last_in_set by (fastforce simp: plain_join proper_def plain_def)

lemma components_join: "plain b \<Longrightarrow> proper p \<Longrightarrow> components (path_join p b) = components p @ [b]"
proof -
  assume "plain b" "proper p"
  moreover from this have "components b = [b]" by (simp add: components_def split_on_absent plain_def)
  ultimately show ?thesis by (simp add: plain_join components_append)
qed

lemma locate_walk: "proper p \<Longrightarrow> locate f p = walk f [] (components p)"
  by (simp add: locate_def proper_def)

lemma locate_join:
  assumes "plain b" "proper p" "locate f p = Inr q" "dir_at f q"
  shows "locate f (path_join p b) = Inr (q @ [b])"
proof -
  have "locate f (path_join p b) = walk f [] (components p @ [b])"
    using assms by (simp add: locate_walk proper_join components_join)
  also have "\<dots> = Inr (q @ [b])"
    using assms by (simp add: walk_append locate_walk) (auto simp: plain_def)
  finally show ?thesis .
qed

lemma locate_join_dir:
  assumes "plain b" "proper p" "locate f p = Inr q"
  shows "locate f (path_join p b) = Inr r \<longleftrightarrow> dir_at f q \<and> r = q @ [b]"
proof -
  have "locate f (path_join p b) = walk f q [b]"
    using assms by (simp add: locate_walk proper_join components_join walk_append)
  then show ?thesis using assms(1) by (auto simp: plain_def)
qed

lemma walk_norm: "walk f cur cs = Inr q \<Longrightarrow> ''..'' \<notin> set cs \<Longrightarrow> q = cur @ norm cs"
  by (induction f cur cs rule: walk.induct) (auto simp: norm_def split: if_splits)

section \<open>What creating directories does\<close>

text \<open>Nodes that are there stay as they are; what is new is a directory on the way.\<close>

lemma make_dirs_keeps:
  "make_dirs cur cs s = (r, s') \<Longrightarrow> node_at (files s) p = Some n \<Longrightarrow> node_at (files s') p = Some n"
proof (induction cur cs s rule: make_dirs.induct)
  case (2 cur c cs s)
  then show ?case
    by (cases "p = cur @ [c]") (auto simp: node_at_set_node split: if_splits option.splits node.splits)
qed simp

lemma make_dirs_frame:
  "make_dirs cur cs s = (r, s') \<Longrightarrow> ''..'' \<notin> set cs \<Longrightarrow> node_at (files s') p \<noteq> node_at (files s) p \<Longrightarrow>
   prefix p (cur @ norm cs)"
proof (induction cur cs s rule: make_dirs.induct)
  case (2 cur c cs s)
  show ?case
  proof (cases "c = [] \<or> c = ''.''")
    case True
    with 2 show ?thesis by (auto simp: norm_def)
  next
    case False
    then have c: "norm (c # cs) = c # norm cs" "c \<noteq> ''..''" using "2.prems"(2) by (auto simp: norm_def)
    show ?thesis
    proof (cases "p = cur @ [c]")
      case True
      then show ?thesis by (simp add: c(1))
    next
      case p: False
      then have "node_at (files (set_node (cur @ [c]) NDir s)) p = node_at (files s) p"
        by (simp add: node_at_set_node)
      with 2 False c p show ?thesis by (auto split: option.splits node.splits)
    qed
  qed
qed simp

lemma make_dirs_reaches:
  "make_dirs cur cs s = (Inr (), s') \<Longrightarrow> ''..'' \<notin> set cs \<Longrightarrow> dir_at (files s) cur \<Longrightarrow>
   walk (files s') cur cs = Inr (cur @ norm cs) \<and> dir_at (files s') (cur @ norm cs)"
proof (induction cur cs s rule: make_dirs.induct)
  case (2 cur c cs s)
  have here: "dir_at (files s') cur"
    using make_dirs_keeps [OF "2.prems"(1)] "2.prems"(3) by (simp add: dir_at_def)
  show ?case
  proof (cases "c = [] \<or> c = ''.''")
    case True
    with 2 here show ?thesis by (auto simp: norm_def)
  next
    case False
    then have c: "norm (c # cs) = c # norm cs" "c \<noteq> ''..''" using "2.prems"(2) by (auto simp: norm_def)
    have "dir_at (files (set_node (cur @ [c]) NDir s)) (cur @ [c])"
      by (simp add: dir_at_def node_at_set_node)
    with 2 False c here show ?thesis
      by (auto simp: dir_at_def split: option.splits node.splits)
  qed
qed simp

text \<open>A proper path without dot-dot, and the place it names.\<close>

definition place :: "string \<Rightarrow> string list" where
  "place p = norm (components p)"

definition straight :: "string \<Rightarrow> bool" where
  "straight p \<longleftrightarrow> proper p \<and> ''..'' \<notin> set (components p)"

lemma straight_join: "plain b \<Longrightarrow> straight p \<Longrightarrow> straight (path_join p b)"
  by (auto simp: straight_def proper_join components_join plain_def)

lemma place_join: "plain b \<Longrightarrow> straight p \<Longrightarrow> place (path_join p b) = place p @ [b]"
  by (simp add: place_def straight_def components_join)

lemma locate_place: "straight p \<Longrightarrow> locate f p = Inr q \<Longrightarrow> q = place p"
  using walk_norm by (auto simp: straight_def locate_walk place_def)

lemma locate_dir_join:
  "straight p \<Longrightarrow> plain b \<Longrightarrow> locate f p = Inr (place p) \<Longrightarrow> dir_at f (place p) \<Longrightarrow>
   locate f (path_join p b) = Inr (place (path_join p b))"
  by (simp add: locate_join straight_def place_join)

lemma create_dir_all_spec:
  assumes "no_faults e" "create_dir_all e p s = (Inr (), s')" "straight p"
  shows "locate (files s') p = Inr (place p)" "dir_at (files s') (place p)"
    and "node_at (files s) q = Some n \<Longrightarrow> node_at (files s') q = Some n"
    and "node_at (files s') q \<noteq> node_at (files s) q \<Longrightarrow> prefix q (place p)"
proof -
  have m: "make_dirs [] (components p) s = (Inr (), s')"
    using assms by (auto simp: create_dir_all_def split: if_splits)
  have nd: "''..'' \<notin> set (components p)" using assms(3) by (simp add: straight_def)
  show "locate (files s') p = Inr (place p)" "dir_at (files s') (place p)"
    using make_dirs_reaches [OF m nd] assms(3) by (simp_all add: place_def straight_def locate_walk)
  show "node_at (files s) q = Some n \<Longrightarrow> node_at (files s') q = Some n" by (rule make_dirs_keeps [OF m])
  show "node_at (files s') q \<noteq> node_at (files s) q \<Longrightarrow> prefix q (place p)"
    using make_dirs_frame [OF m nd] by (simp add: place_def)
qed

section \<open>What writing a file does\<close>

lemma fs_write_spec:
  assumes "no_faults e" "fs_write e p b s = (r, s')"
  shows "dir_at (files s') = dir_at (files s)"
    and "locate (files s) p \<noteq> Inr q \<Longrightarrow> node_at (files s') q = node_at (files s) q"
    and "r = Inr () \<Longrightarrow> locate (files s) p = Inr q \<Longrightarrow> node_at (files s') q = Some (NFile b)"
proof -
  have "s' = s \<and> r \<noteq> Inr () \<or> (\<exists>q. locate (files s) p = Inr q \<and> \<not> dir_at (files s) q \<and> s' = set_node q (NFile b) s)"
    using assms by (auto simp: fs_write_def split: sum.splits if_splits)
  then have "(s' = s \<and> r \<noteq> Inr ()) \<or> (\<exists>q. q \<noteq> [] \<and> locate (files s) p = Inr q \<and> \<not> dir_at (files s) q \<and> s' = set_node q (NFile b) s)"
    using dir_at_Nil by metis
  then show "dir_at (files s') = dir_at (files s)"
    and "locate (files s) p \<noteq> Inr q \<Longrightarrow> node_at (files s') q = node_at (files s) q"
    and "r = Inr () \<Longrightarrow> locate (files s) p = Inr q \<Longrightarrow> node_at (files s') q = Some (NFile b)"
    by (auto simp: dir_at_def node_at_set_node fun_eq_iff split: if_splits)
qed

lemma walk_dirs: "dir_at f = dir_at g \<Longrightarrow> walk f cur cs = Inr q \<longleftrightarrow> walk g cur cs = Inr q"
  using walk_mono by metis

lemma locate_dirs: "dir_at f = dir_at g \<Longrightarrow> locate f p = Inr q \<longleftrightarrow> locate g p = Inr q"
  using walk_dirs [of f g "[]" "components p" q] by (simp add: locate_def)

text \<open>Directories only: enough to walk through.\<close>

lemma locate_mono: "locate f p = Inr q \<Longrightarrow> (\<And>r. dir_at f r \<Longrightarrow> dir_at g r) \<Longrightarrow> locate g p = Inr q"
  unfolding locate_def by (auto split: if_splits intro: walk_mono)

lemma children_iff: "n \<in> set (children f p) \<longleftrightarrow> node_at f (p @ [n]) \<noteq> None"
proof -
  have "n \<in> set (children f p) \<longleftrightarrow> p @ [n] \<in> fst ` set f"
  proof
    assume "n \<in> set (children f p)"
    then obtain q where "q \<in> fst ` set f" "q \<noteq> []" "butlast q = p" "last q = n" by (auto simp: children_def)
    then show "p @ [n] \<in> fst ` set f" by (metis append_butlast_last_id)
  next
    assume "p @ [n] \<in> fst ` set f"
    then have "p @ [n] \<in> set (filter (\<lambda>q. q \<noteq> [] \<and> butlast q = p) (map fst f))" by simp
    then have "last (p @ [n]) \<in> last ` set (filter (\<lambda>q. q \<noteq> [] \<and> butlast q = p) (map fst f))" by (rule imageI)
    then show "n \<in> set (children f p)" by (simp only: children_def set_map last_snoc)
  qed
  then show ?thesis by (simp add: node_at_def map_of_eq_None_iff)
qed

lemma is_dir_iff:
  "no_faults e \<Longrightarrow> is_dir e p s \<longleftrightarrow> (\<exists>q. locate (files s) p = Inr q \<and> dir_at (files s) q)"
  by (auto simp: is_dir_def fs_stat_def dir_at_def split: sum.splits option.splits)

lemma fs_read_iff:
  "no_faults e \<Longrightarrow> fs_read e p s = Inr b \<longleftrightarrow> (\<exists>q. locate (files s) p = Inr q \<and> node_at (files s) q = Some (NFile b))"
  by (auto simp: fs_read_def split: sum.splits option.splits node.splits)

lemma path_exists_iff:
  "no_faults e \<Longrightarrow> path_exists e p s \<longleftrightarrow> (\<exists>q. locate (files s) p = Inr q \<and> node_at (files s) q \<noteq> None)"
  by (auto simp: path_exists_def fs_stat_def split: sum.splits option.splits)

section \<open>What removing a directory does\<close>

lemma node_at_remove_tree:
  "node_at (remove_tree t f) q = (if q \<noteq> [] \<and> prefix t q then None else node_at f q)"
proof -
  have "map_of (filter (\<lambda>(p, n). \<not> starts_with t p) f) q = (if prefix t q then None else map_of f q)"
    by (induction f) (auto simp: starts_with_prefix)
  then show ?thesis by (simp add: node_at_def remove_tree_def)
qed

end
