(* ===== verification/Supervdsm.thy ===== *)
theory Supervdsm
  imports Os
begin

text \<open>
  The privilege boundary: \<open>crates/vdsm-common/src/supervdsm.rs\<close> (the closed set of operations
  and the client side \<open>call\<close>/\<open>run\<close>) and \<open>crates/supervdsm\<close> (the root daemon: \<open>lookup_user\<close> and
  \<open>handle\<close> of \<open>main.rs\<close>, the validation and the command lines of \<open>exec.rs\<close>). The daemon works on
  the same system state as its client. The JSON text of an operation and of a result is written
  and read by \<open>serde_json\<close>: the four codec functions, the uids and the state of the socket are
  in the record \<open>bus\<close>, beside the environment of the client (\<open>sys\<close>) and that of the root
  daemon (\<open>root\<close>): a file operation or a program may fail for one and not for the other.
\<close>

section \<open>Operations and results\<close>

datatype priv_op =
    Mount (op_fstype: string) (op_spec: string) (op_target: string) (op_options: string)
  | Umount (op_target: string)
  | IscsiDiscover (op_portal: string)
  | IscsiLogin (op_iqn: string) (op_portal: string)
  | IscsiLogout (op_iqn: string) (op_portal: string)
  | IscsiRescan
  | Pvcreate (op_device: string)
  | Vgcreate (op_vg: string) (op_devices: "string list")
  | Vgextend (op_vg: string) (op_device: string)
  | Vgremove (op_vg: string)
  | Lvcreate (op_vg: string) (op_lv: string) (op_size_bytes: u64)
  | Lvchange (op_vg: string) (op_lv: string) (op_active: bool)
  | Lvremove (op_vg: string) (op_lv: string)
  | FcScan
  | MultipathList

record priv_result =
  pr_ok :: bool
  pr_code :: int
  pr_stdout :: string
  pr_stderr :: string

definition failure :: "string \<Rightarrow> priv_result" where
  "failure msg = \<lparr>pr_ok = False, pr_code = - 1, pr_stdout = [], pr_stderr = msg\<rparr>"

section \<open>Validation\<close>

definition MOUNT_ROOT :: string where
  "MOUNT_ROOT = ''/rhev/data-center/mnt/''"

definition valid_lvm_name :: "string \<Rightarrow> bool" where
  "valid_lvm_name s \<longleftrightarrow>
     s \<noteq> [] \<and> \<not> starts_with ''-'' s \<and> length s \<le> 128 \<and>
     list_all (\<lambda>c. is_ascii_alphanumeric c \<or> c \<in> {CHR ''-'', CHR ''_'', CHR ''.'', CHR ''+''}) s"

definition valid_device :: "string \<Rightarrow> bool" where
  "valid_device s \<longleftrightarrow>
     starts_with ''/dev/'' s \<and> \<not> has_substr ''..'' s \<and> NUL \<notin> set s \<and> length s \<le> 4096"

definition valid_target :: "string \<Rightarrow> bool" where
  "valid_target s \<longleftrightarrow> starts_with MOUNT_ROOT s \<and> \<not> has_substr ''..'' s \<and> NUL \<notin> set s"

definition valid_fstype :: "string \<Rightarrow> bool" where
  "valid_fstype s \<longleftrightarrow>
     s \<in> {''nfs'', ''nfs4'', ''cifs'', ''glusterfs'', ''none'', ''auto'', ''ext4'', ''xfs'', ''ext3''}"

definition valid_portal :: "string \<Rightarrow> bool" where
  "valid_portal s \<longleftrightarrow>
     s \<noteq> [] \<and> \<not> starts_with ''-'' s \<and> NUL \<notin> set s \<and> length s \<le> 256 \<and>
     list_all (\<lambda>c. is_ascii_alphanumeric c \<or> c \<in> {CHR ''.'', COLON, CHR ''-'', CHR ''['', CHR '']''}) s"

definition valid_iqn :: "string \<Rightarrow> bool" where
  "valid_iqn s \<longleftrightarrow>
     s \<noteq> [] \<and> \<not> starts_with ''-'' s \<and> NUL \<notin> set s \<and> length s \<le> 256 \<and>
     list_all (\<lambda>c. is_ascii_alphanumeric c \<or> c \<in> {CHR ''.'', COLON, CHR ''-''}) s"

definition invalid :: "string \<Rightarrow> priv_result" where
  "invalid field = failure (''rejected: invalid '' @ field)"

section \<open>Execution\<close>

definition run_cmd :: "'x env \<Rightarrow> string \<Rightarrow> string list \<Rightarrow> 'x os \<Rightarrow> priv_result \<times> 'x os" where
  "run_cmd e bin args s =
     (case exec e bin args s of
        (Inr o', s') \<Rightarrow>
          (\<lparr>pr_ok = success o', pr_code = unwrap_or (- 1) (exit_code o'),
            pr_stdout = from_utf8_lossy (stdout_bytes o'), pr_stderr = from_utf8_lossy (stderr_bytes o')\<rparr>, s')
      | (Inl m, s') \<Rightarrow> (failure (''spawn '' @ bin @ '': '' @ m), s'))"

text \<open>The sysfs writes of an FC rescan: the errors they meet, in order.\<close>

fun fc_scan_hosts :: "'x env \<Rightarrow> string list \<Rightarrow> 'x os \<Rightarrow> string list \<times> 'x os" where
  "fc_scan_hosts e [] s = ([], s)"
| "fc_scan_hosts e (h # hs) s =
     (let p = path_join (path_join ''/sys/class/scsi_host'' h) ''scan''
      in case fs_write e p (''- - -'' @ [NL]) s of
           (Inr _, s1) \<Rightarrow> fc_scan_hosts e hs s1
         | (Inl m, s1) \<Rightarrow>
             (case fc_scan_hosts e hs s1 of (errs, s2) \<Rightarrow> ((p @ '': '' @ m) # errs, s2)))"

definition fc_scan_exec :: "'x env \<Rightarrow> 'x os \<Rightarrow> priv_result \<times> 'x os" where
  "fc_scan_exec e s =
     (case (case read_dir e ''/sys/class/scsi_host'' s of
              Inr hs \<Rightarrow> fc_scan_hosts e hs s
            | Inl m \<Rightarrow> ([''read scsi_host: '' @ m], s)) of
        (errs, s') \<Rightarrow>
          (if errs = [] then \<lparr>pr_ok = True, pr_code = 0, pr_stdout = [], pr_stderr = []\<rparr>
           else failure (join_with ''; '' errs), s'))"

text \<open>\<open>execute\<close>: every operation is validated here, then its command line is built here.\<close>

fun execute :: "'x env \<Rightarrow> priv_op \<Rightarrow> 'x os \<Rightarrow> priv_result \<times> 'x os" where
  "execute e (Mount fstype spec target options) s =
     (if \<not> valid_fstype fstype then (invalid ''fstype'', s)
      else if \<not> valid_target target then (invalid ''target'', s)
      else if spec = [] \<or> starts_with ''-'' spec \<or> NUL \<in> set spec then (invalid ''spec'', s)
      else if options \<noteq> [] \<and> (starts_with ''-'' options \<or> NUL \<in> set options) then (invalid ''options'', s)
      else run_cmd e ''/usr/bin/mount''
             ([''-t'', fstype] @ (if options = [] then [] else [''-o'', options]) @ [spec, target]) s)"
| "execute e (Umount target) s =
     (if \<not> valid_target target then (invalid ''target'', s)
      else run_cmd e ''/usr/bin/umount'' [target] s)"
| "execute e (IscsiDiscover portal) s =
     (if \<not> valid_portal portal then (invalid ''portal'', s)
      else run_cmd e ''/usr/sbin/iscsiadm'' [''-m'', ''discovery'', ''-t'', ''st'', ''-p'', portal] s)"
| "execute e (IscsiLogin iqn portal) s =
     (if \<not> valid_iqn iqn then (invalid ''iqn'', s)
      else if \<not> valid_portal portal then (invalid ''portal'', s)
      else run_cmd e ''/usr/sbin/iscsiadm'' [''-m'', ''node'', ''-T'', iqn, ''-p'', portal, ''--login''] s)"
| "execute e (IscsiLogout iqn portal) s =
     (if \<not> valid_iqn iqn then (invalid ''iqn'', s)
      else if \<not> valid_portal portal then (invalid ''portal'', s)
      else run_cmd e ''/usr/sbin/iscsiadm'' [''-m'', ''node'', ''-T'', iqn, ''-p'', portal, ''--logout''] s)"
| "execute e IscsiRescan s = run_cmd e ''/usr/sbin/iscsiadm'' [''-m'', ''session'', ''--rescan''] s"
| "execute e (Pvcreate device) s =
     (if \<not> valid_device device then (invalid ''device'', s)
      else run_cmd e ''/usr/sbin/pvcreate'' [''-ff'', ''-y'', device] s)"
| "execute e (Vgcreate vg devices) s =
     (if \<not> valid_lvm_name vg then (invalid ''vg'', s)
      else if devices = [] \<or> \<not> list_all valid_device devices then (invalid ''devices'', s)
      else run_cmd e ''/usr/sbin/vgcreate'' ([''-s'', ''128m'', ''-y'', vg] @ devices) s)"
| "execute e (Vgextend vg device) s =
     (if \<not> valid_lvm_name vg then (invalid ''vg'', s)
      else if \<not> valid_device device then (invalid ''device'', s)
      else run_cmd e ''/usr/sbin/vgextend'' [vg, device] s)"
| "execute e (Vgremove vg) s =
     (if \<not> valid_lvm_name vg then (invalid ''vg'', s)
      else run_cmd e ''/usr/sbin/vgremove'' [''-f'', ''-y'', vg] s)"
| "execute e (Lvcreate vg lv size_bytes) s =
     (if \<not> valid_lvm_name vg then (invalid ''vg'', s)
      else if \<not> valid_lvm_name lv then (invalid ''lv'', s)
      else if size_bytes = 0 then (invalid ''size_bytes'', s)
      else run_cmd e ''/usr/sbin/lvcreate''
             [''-W'', ''y'', ''-Z'', ''n'', ''-n'', lv, ''-L'', u64_str size_bytes @ ''B'', vg] s)"
| "execute e (Lvchange vg lv active) s =
     (if \<not> valid_lvm_name vg then (invalid ''vg'', s)
      else if \<not> valid_lvm_name lv then (invalid ''lv'', s)
      else let path = vg @ ''/'' @ lv
           in if active then run_cmd e ''/usr/sbin/lvchange'' [''-a'', ''y'', ''-K'', path] s
              else run_cmd e ''/usr/sbin/lvchange'' [''-a'', ''n'', path] s)"
| "execute e (Lvremove vg lv) s =
     (if \<not> valid_lvm_name vg then (invalid ''vg'', s)
      else if \<not> valid_lvm_name lv then (invalid ''lv'', s)
      else run_cmd e ''/usr/sbin/lvremove'' [''-f'', ''-y'', vg @ ''/'' @ lv] s)"
| "execute e FcScan s = fc_scan_exec e s"
| "execute e MultipathList s = run_cmd e ''/usr/sbin/multipath'' [''-ll'', ''-j''] s"

section \<open>The daemon\<close>

text \<open>\<open>lookup_user\<close>: the first line of the account with a parsable uid and gid.\<close>

definition passwd_entry :: "string \<Rightarrow> string \<Rightarrow> (u32 \<times> u32) option" where
  "passwd_entry name line =
     (let f = split_on COLON line
      in if hd f = name then
           (case (if 2 < length f then parse_u32 (f ! 2) else None,
                  if 3 < length f then parse_u32 (f ! 3) else None) of
              (Some uid, Some gid) \<Rightarrow> Some (uid, gid)
            | _ \<Rightarrow> None)
         else None)"

fun find_user :: "string \<Rightarrow> string list \<Rightarrow> (u32 \<times> u32) option" where
  "find_user name [] = None"
| "find_user name (l # ls) =
     (case passwd_entry name l of Some p \<Rightarrow> Some p | None \<Rightarrow> find_user name ls)"

definition lookup_user :: "'x env \<Rightarrow> string \<Rightarrow> 'x os \<Rightarrow> (string, u32 \<times> u32) result" where
  "lookup_user e name s =
     (case read_to_string e ''/etc/passwd'' s of
        Inl m \<Rightarrow> Inl m
      | Inr passwd \<Rightarrow>
          (case find_user name (str_lines passwd) of
             Some p \<Rightarrow> Inr p
           | None \<Rightarrow> Inl (''user '' @ name @ '' not found in /etc/passwd'')))"

text \<open>
  The state of the socket for one exchange: fine, down (nothing reaches the daemon), or the
  reply is lost after the daemon has acted.
\<close>

datatype link = LinkOk | LinkDown string | ReplyLost string

record 'x bus =
  sys :: "'x env"
  root :: "'x env"
  ser_op :: "priv_op \<Rightarrow> (string, string) result"
  de_op :: "string \<Rightarrow> (string, priv_op) result"
  ser_res :: "priv_result \<Rightarrow> (string, string) result"
  de_res :: "string \<Rightarrow> (string, priv_result) result"
  vdsmd_uid :: u32
  allowed_uid :: u32
  link :: "'x os \<Rightarrow> link"

text \<open>\<open>BufReader::read_line\<close> on bytes that have arrived.\<close>

definition read_line :: "bytes \<Rightarrow> (string, string) result" where
  "read_line b =
     (case from_utf8 (case find_byte NL b of None \<Rightarrow> b | Some i \<Rightarrow> take (Suc i) b) of
        Inl _ \<Rightarrow> Inl UTF8_ERROR
      | Inr l \<Rightarrow> Inr l)"

text \<open>
  \<open>handle\<close>: the credentials of the peer and the bytes it sent; the line written back, if
  any, and the state afterwards.
\<close>

definition handle :: "'x bus \<Rightarrow> (string, u32) result \<Rightarrow> bytes \<Rightarrow> 'x os \<Rightarrow> (string, string option) result \<times> 'x os" where
  "handle b cred req s =
     (case cred of
        Inl m \<Rightarrow> (Inl m, s)
      | Inr uid \<Rightarrow>
          (if uid \<noteq> allowed_uid b then
             (map_sum id (\<lambda>l. Some (l @ [NL])) (ser_res b (failure ''unauthorized: peer uid not permitted'')), s)
           else
             (case read_line req of
                Inl m \<Rightarrow> (Inl m, s)
              | Inr line \<Rightarrow>
                  (if trim line = [] then (Inr None, s)
                   else
                     (case (case de_op b (trim line) of
                              Inr op \<Rightarrow> execute (root b) op s
                            | Inl m \<Rightarrow> (failure (''malformed request: '' @ m), s)) of
                        (result, s') \<Rightarrow>
                          (map_sum id (\<lambda>l. Some (l @ [NL])) (ser_res b result), s'))))))"

section \<open>The client\<close>

definition call :: "'x bus \<Rightarrow> priv_op \<Rightarrow> 'x os \<Rightarrow> (string, priv_result) result \<times> 'x os" where
  "call b op s =
     (case link b s of
        LinkDown m \<Rightarrow> (Inl m, s)
      | l \<Rightarrow>
          (case ser_op b op of
             Inl m \<Rightarrow> (Inl m, s)
           | Inr line \<Rightarrow>
               (case handle b (Inr (vdsmd_uid b)) (line @ [NL]) s of
                  (reply, s') \<Rightarrow>
                    (case l of
                       ReplyLost m \<Rightarrow> (Inl m, s')
                     | _ \<Rightarrow>
                         (case read_line (case reply of Inr (Some r) \<Rightarrow> r | _ \<Rightarrow> []) of
                            Inl m \<Rightarrow> (Inl m, s')
                          | Inr resp \<Rightarrow> (de_res b (trim resp), s'))))))"

definition run :: "'x bus \<Rightarrow> priv_op \<Rightarrow> 'x os \<Rightarrow> string option \<times> 'x os" where
  "run b op s =
     (case call b op s of
        (Inr r, s') \<Rightarrow> (if pr_ok r then Some (pr_stdout r) else None, s')
      | (Inl m, s') \<Rightarrow> (None, s'))"

section \<open>What the root daemon can be made to run\<close>

text \<open>
  The closed set of command lines. A caller's text is an operand: it is not empty, does not
  start with a dash and has no zero byte. Mount targets and devices lie below their roots.
\<close>

definition PRIV_BINS :: "string list" where
  "PRIV_BINS =
     [''/usr/bin/mount'', ''/usr/bin/umount'', ''/usr/sbin/iscsiadm'', ''/usr/sbin/pvcreate'',
      ''/usr/sbin/vgcreate'', ''/usr/sbin/vgextend'', ''/usr/sbin/vgremove'', ''/usr/sbin/lvcreate'',
      ''/usr/sbin/lvchange'', ''/usr/sbin/lvremove'', ''/usr/sbin/multipath'']"

definition PRIV_FLAGS :: "string list" where
  "PRIV_FLAGS =
     [''-t'', ''-o'', ''-m'', ''-p'', ''-T'', ''--login'', ''--logout'', ''--rescan'', ''-ff'', ''-y'',
      ''-s'', ''-f'', ''-W'', ''-Z'', ''-n'', ''-L'', ''-a'', ''-K'', ''-ll'', ''-j'']"

definition operand :: "string \<Rightarrow> bool" where
  "operand a \<longleftrightarrow> a \<noteq> [] \<and> hd a \<noteq> CHR ''-'' \<and> NUL \<notin> set a"

definition vetted :: "string \<Rightarrow> string list \<Rightarrow> bool" where
  "vetted bin args \<longleftrightarrow>
     bin \<in> set PRIV_BINS \<and>
     (\<forall>a \<in> set args. a \<in> set PRIV_FLAGS \<or> operand a) \<and>
     (bin \<in> {''/usr/bin/mount'', ''/usr/bin/umount''} \<longrightarrow> args \<noteq> [] \<and> valid_target (last args)) \<and>
     (bin \<in> {''/usr/sbin/pvcreate'', ''/usr/sbin/vgcreate'', ''/usr/sbin/vgextend''} \<longrightarrow>
        args \<noteq> [] \<and> valid_device (last args))"

lemma operand_prefixed [simp]: "c \<noteq> CHR ''-'' \<Longrightarrow> c \<noteq> NUL \<Longrightarrow> operand (c # s) \<longleftrightarrow> NUL \<notin> set s"
  by (auto simp: operand_def)

lemma not_dash: "\<not> starts_with ''-'' s \<Longrightarrow> s \<noteq> [] \<Longrightarrow> hd s \<noteq> CHR ''-''"
  by (cases s) auto

lemma valid_operands:
  "valid_lvm_name s \<Longrightarrow> operand s" "valid_portal s \<Longrightarrow> operand s" "valid_iqn s \<Longrightarrow> operand s"
  "valid_device s \<Longrightarrow> operand s" "valid_target s \<Longrightarrow> operand s" "valid_fstype s \<Longrightarrow> operand s"
proof -
  show "valid_lvm_name s \<Longrightarrow> operand s"
    by (auto simp: valid_lvm_name_def operand_def list_all_iff not_dash is_ascii_alphanumeric_def
        is_ascii_alphabetic_def is_digit_def)
  show "valid_portal s \<Longrightarrow> operand s" "valid_iqn s \<Longrightarrow> operand s"
    by (simp_all add: valid_portal_def valid_iqn_def operand_def not_dash)
  show "valid_device s \<Longrightarrow> operand s" "valid_target s \<Longrightarrow> operand s"
    by (auto simp: valid_device_def valid_target_def MOUNT_ROOT_def operand_def starts_with_iff)
  show "valid_fstype s \<Longrightarrow> operand s" by (auto simp: valid_fstype_def)
qed

lemma operand_path: "operand a \<Longrightarrow> operand b \<Longrightarrow> operand (a @ c # b) \<longleftrightarrow> c \<noteq> NUL"
  by (auto simp: operand_def)

lemma operand_size: "operand (u64_str n @ ''B'')"
proof -
  have "hd (u64_str n) \<noteq> CHR ''-''" using hd_nat_dec [of "unat n"] by (auto simp: u64_str_def is_digit_def)
  moreover have "NUL \<notin> set (u64_str n)" by (simp add: u64_str_def is_digit_def)
  ultimately show ?thesis by (simp add: operand_def u64_str_def)
qed

text \<open>What an operation can come to: a refusal without effect, or one fixed vetted command line.\<close>

definition closed_op :: "'x itself \<Rightarrow> priv_op \<Rightarrow> bool" where
  "closed_op _ op \<longleftrightarrow>
     (\<forall>(e :: 'x env) s. \<exists>m. execute e op s = (invalid m, s)) \<or>
     (\<exists>bin args. vetted bin args \<and> (\<forall>(e :: 'x env) s. execute e op s = run_cmd e bin args s))"

lemma closed_reject: "(\<And>(e :: 'x env) s. \<exists>m. execute e op s = (invalid m, s)) \<Longrightarrow> closed_op (x :: 'x itself) op"
  by (auto simp: closed_op_def)

lemma closed_run:
  "vetted bin args \<Longrightarrow> (\<And>(e :: 'x env) s. execute e op s = run_cmd e bin args s) \<Longrightarrow> closed_op (x :: 'x itself) op"
  by (auto simp: closed_op_def)

lemmas vetted_simps = vetted_def PRIV_BINS_def PRIV_FLAGS_def valid_operands operand_path operand_size

lemma closed_mount: "closed_op x (Mount fstype spec target options)"
proof -
  consider "\<not> valid_fstype fstype" | "valid_fstype fstype" "\<not> valid_target target"
    | "valid_fstype fstype" "valid_target target" "spec = [] \<or> starts_with ''-'' spec \<or> NUL \<in> set spec"
    | "valid_fstype fstype" "valid_target target" "operand spec" "options \<noteq> [] \<and> \<not> operand options"
    | "valid_fstype fstype" "valid_target target" "operand spec" "options = [] \<or> operand options"
    using not_dash [of spec] by (auto simp: operand_def)
  then show ?thesis
  proof cases
    case 4
    then show ?thesis
      by (intro closed_reject) (cases options; cases spec; auto simp: operand_def)
  next
    case 5
    then have "vetted ''/usr/bin/mount''
        ([''-t'', fstype] @ (if options = [] then [] else [''-o'', options]) @ [spec, target])"
      by (auto simp: vetted_simps)
    then show ?thesis
      by (rule closed_run) (use 5 in \<open>cases spec; cases options; auto simp: operand_def\<close>)
  qed (intro closed_reject; auto)+
qed

lemma closed_lvm:
  "closed_op x (Pvcreate d)" "closed_op x (Vgcreate vg ds)" "closed_op x (Vgextend vg d)" "closed_op x (Vgremove vg)"
  "closed_op x (Lvcreate vg lv n)" "closed_op x (Lvchange vg lv a)" "closed_op x (Lvremove vg lv)"
proof -
  show "closed_op x (Pvcreate d)"
  proof (cases "valid_device d")
    case True
    then show ?thesis by (intro closed_run [of "''/usr/sbin/pvcreate''" "[''-ff'', ''-y'', d]"]) (auto simp: vetted_simps)
  qed (intro closed_reject, auto)
  show "closed_op x (Vgcreate vg ds)"
  proof (cases "valid_lvm_name vg \<and> ds \<noteq> [] \<and> list_all valid_device ds")
    case True
    then show ?thesis
      by (intro closed_run [of "''/usr/sbin/vgcreate''" "[''-s'', ''128m'', ''-y'', vg] @ ds"])
        (auto simp: vetted_simps list_all_iff)
  qed (intro closed_reject, auto)
  show "closed_op x (Vgextend vg d)"
  proof (cases "valid_lvm_name vg \<and> valid_device d")
    case True
    then show ?thesis by (intro closed_run [of "''/usr/sbin/vgextend''" "[vg, d]"]) (auto simp: vetted_simps)
  qed (intro closed_reject, auto)
  show "closed_op x (Vgremove vg)"
  proof (cases "valid_lvm_name vg")
    case True
    then show ?thesis by (intro closed_run [of "''/usr/sbin/vgremove''" "[''-f'', ''-y'', vg]"]) (auto simp: vetted_simps)
  qed (intro closed_reject, auto)
  show "closed_op x (Lvcreate vg lv n)"
  proof (cases "valid_lvm_name vg \<and> valid_lvm_name lv \<and> n \<noteq> 0")
    case True
    then show ?thesis by (intro closed_run [of "''/usr/sbin/lvcreate''" "[''-W'', ''y'', ''-Z'', ''n'', ''-n'', lv, ''-L'', u64_str n @ ''B'', vg]"]) (auto simp: vetted_simps)
  qed (intro closed_reject, auto)
  show "closed_op x (Lvchange vg lv a)"
  proof (cases "valid_lvm_name vg \<and> valid_lvm_name lv")
    case True
    then show ?thesis
      by (intro closed_run [of "''/usr/sbin/lvchange''"
            "if a then [''-a'', ''y'', ''-K'', vg @ ''/'' @ lv] else [''-a'', ''n'', vg @ ''/'' @ lv]"])
        (auto simp: vetted_simps)
  qed (intro closed_reject, auto)
  show "closed_op x (Lvremove vg lv)"
  proof (cases "valid_lvm_name vg \<and> valid_lvm_name lv")
    case True
    then show ?thesis by (intro closed_run [of "''/usr/sbin/lvremove''" "[''-f'', ''-y'', vg @ ''/'' @ lv]"]) (auto simp: vetted_simps)
  qed (intro closed_reject, auto)
qed

lemma closed_iscsi:
  "closed_op x (IscsiDiscover p)" "closed_op x (IscsiLogin i p)" "closed_op x (IscsiLogout i p)"
  "closed_op x IscsiRescan" "closed_op x MultipathList" "closed_op x (Umount t)"
proof -
  show "closed_op x (IscsiDiscover p)"
  proof (cases "valid_portal p")
    case True
    then show ?thesis by (intro closed_run [of "''/usr/sbin/iscsiadm''" "[''-m'', ''discovery'', ''-t'', ''st'', ''-p'', p]"]) (auto simp: vetted_simps)
  qed (intro closed_reject, auto)
  show "closed_op x (IscsiLogin i p)"
  proof (cases "valid_iqn i \<and> valid_portal p")
    case True
    then show ?thesis by (intro closed_run [of "''/usr/sbin/iscsiadm''" "[''-m'', ''node'', ''-T'', i, ''-p'', p, ''--login'']"]) (auto simp: vetted_simps)
  qed (intro closed_reject, auto)
  show "closed_op x (IscsiLogout i p)"
  proof (cases "valid_iqn i \<and> valid_portal p")
    case True
    then show ?thesis by (intro closed_run [of "''/usr/sbin/iscsiadm''" "[''-m'', ''node'', ''-T'', i, ''-p'', p, ''--logout'']"]) (auto simp: vetted_simps)
  qed (intro closed_reject, auto)
  show "closed_op x IscsiRescan"
    by (intro closed_run [of "''/usr/sbin/iscsiadm''" "[''-m'', ''session'', ''--rescan'']"]) (auto simp: vetted_simps)
  show "closed_op x MultipathList"
    by (intro closed_run [of "''/usr/sbin/multipath''" "[''-ll'', ''-j'']"]) (auto simp: vetted_simps)
  show "closed_op x (Umount t)"
  proof (cases "valid_target t")
    case True
    then show ?thesis by (intro closed_run [of "''/usr/bin/umount''" "[t]"]) (auto simp: vetted_simps)
  qed (intro closed_reject, auto)
qed

lemma closed_ops: "op \<noteq> FcScan \<Longrightarrow> closed_op x op"
  by (cases op) (auto intro: closed_mount closed_lvm closed_iscsi)

section \<open>Properties of the privilege boundary\<close>

text \<open>
  A small bus for the concrete instances: it carries a rescan, whose program prints \<open>x\<close>.
\<close>

definition sample_env :: "unit env" where
  "sample_env =
     \<lparr>exec = (\<lambda>bin args s. (Inr \<lparr>exit_code = Some 0, stdout_bytes = ''x'', stderr_bytes = []\<rparr>, s)),
      fault = (\<lambda>op p s. None), dir_order = (\<lambda>x. x), dir_len = 4096\<rparr>"

definition sample_bus :: "unit bus" where
  "sample_bus =
     \<lparr>sys = sample_env, root = sample_env, ser_op = (\<lambda>op. Inr ''rescan''), de_op = (\<lambda>l. Inr IscsiRescan),
      ser_res = (\<lambda>r. Inr ''ok''), de_res = (\<lambda>l. Inr \<lparr>pr_ok = True, pr_code = 0, pr_stdout = ''x'', pr_stderr = []\<rparr>),
      vdsmd_uid = 36, allowed_uid = 36, link = (\<lambda>s. LinkOk)\<rparr>"

definition sample_os :: "unit os" where
  "sample_os = \<lparr>files = [], now_secs = 0, outside = ()\<rparr>"

text \<open>
  C11: the set of privileged operations is closed. Whatever the fields of an operation, either it is
  refused without any effect, or it runs exactly one command line, fixed by the operation alone,
  of one of eleven programs, in which every argument is a flag the daemon wrote itself or an
  operand that cannot be taken for an option, and whose mount target or device lies below its
  root. (An FC rescan runs no program.)
\<close>

theorem priv_ops_closed:
  "op = FcScan \<or>
   (\<forall>(e :: 'x env) s. \<exists>m. execute e op s = (invalid m, s)) \<or>
   (\<exists>bin args. vetted bin args \<and> (\<forall>(e :: 'x env) s. execute e op s = run_cmd e bin args s))"
  using closed_ops [of op "TYPE('x)"] by (auto simp: closed_op_def)



text \<open>
  A peer with another uid gets nothing done. The state is unchanged, and the answer is the same
  refusal whatever it sent: its bytes are not looked at.
\<close>

theorem unauthorized_peer_powerless:
  assumes "uid \<noteq> allowed_uid b"
  shows "snd (handle b (Inr uid) req s) = s \<and> fst (handle b (Inr uid) req s) = fst (handle b (Inr uid) [] s)"
  using assms by (simp add: handle_def)

theorem unauthorized_peer_powerless_witness:
  "snd (handle sample_bus (Inr 1000) ''rescan'' sample_os) = sample_os"
  using unauthorized_peer_powerless [of 1000 sample_bus "''rescan''" sample_os] by (simp add: sample_bus_def)

text \<open>A value crosses the socket if its text is one trimmed line that reads back as the value.\<close>

definition crosses :: "('a \<Rightarrow> (string, string) result) \<Rightarrow> (string \<Rightarrow> (string, 'a) result) \<Rightarrow> 'a \<Rightarrow> bool" where
  "crosses ser de x \<longleftrightarrow>
     (\<exists>l. ser x = Inr l \<and> l \<noteq> [] \<and> NL \<notin> set l \<and> utf8_valid l \<and> trim (l @ [NL]) = l \<and> de l = Inr x)"

lemma read_line_sent: "NL \<notin> set l \<Longrightarrow> utf8_valid l \<Longrightarrow> read_line (l @ [NL]) = Inr (l @ [NL])"
  by (simp add: read_line_def find_byte_here utf8_valid_append)

lemma handle_sent:
  assumes "crosses (ser_op b) (de_op b) op" "ser_op b op = Inr l"
  shows "handle b (Inr (allowed_uid b)) (l @ [NL]) s =
    (map_sum id (\<lambda>r. Some (r @ [NL])) (ser_res b (fst (execute (root b) op s))), snd (execute (root b) op s))"
  using assms by (auto simp: crosses_def handle_def read_line_sent split: prod.splits)

lemma call_transparent:
  assumes "link b s = LinkOk" "vdsmd_uid b = allowed_uid b"
    and "crosses (ser_op b) (de_op b) op" "crosses (ser_res b) (de_res b) (fst (execute (root b) op s))"
  shows "call b op s = (Inr (fst (execute (root b) op s)), snd (execute (root b) op s))"
proof -
  from assms(3) obtain l where l: "ser_op b op = Inr l" by (auto simp: crosses_def)
  from assms(4) obtain r where r: "ser_res b (fst (execute (root b) op s)) = Inr r" "NL \<notin> set r" "utf8_valid r"
      "trim (r @ [NL]) = r" "de_res b r = Inr (fst (execute (root b) op s))"
    by (auto simp: crosses_def)
  show ?thesis
    using assms(1,2) l r handle_sent [OF assms(3) l, of s] by (simp add: call_def read_line_sent)
qed

lemma sample_run:
  "execute (root sample_bus) IscsiRescan s = (\<lparr>pr_ok = True, pr_code = 0, pr_stdout = ''x'', pr_stderr = []\<rparr>, s)"
  by (simp add: sample_bus_def sample_env_def run_cmd_def success_def from_utf8_lossy_valid)

lemma sample_fields:
  "link sample_bus s = LinkOk" "vdsmd_uid sample_bus = allowed_uid sample_bus"
  by (simp_all add: sample_bus_def)

lemma sample_crosses:
  "crosses (ser_op sample_bus) (de_op sample_bus) IscsiRescan"
  "crosses (ser_res sample_bus) (de_res sample_bus) (fst (execute (root sample_bus) IscsiRescan s))"
proof -
  have trim: "trim (''rescan'' @ [NL]) = ''rescan''" "trim (''ok'' @ [NL]) = ''ok''" by code_simp+
  show "crosses (ser_op sample_bus) (de_op sample_bus) IscsiRescan"
    "crosses (ser_res sample_bus) (de_res sample_bus) (fst (execute (root sample_bus) IscsiRescan s))"
    using trim unfolding crosses_def sample_run by (simp_all add: sample_bus_def)
qed

text \<open>
  C14: the round trip through the socket is transparent. When the socket is up, the client runs as the
  permitted account and the two texts cross it, \<open>call\<close> returns what \<open>execute\<close> returns in the
  root daemon and leaves the state it leaves.
\<close>

theorem call_is_execute:
  assumes "link b s = LinkOk" "vdsmd_uid b = allowed_uid b"
    and "crosses (ser_op b) (de_op b) op" "crosses (ser_res b) (de_res b) (fst (execute (root b) op s))"
  shows "call b op s = (Inr (fst (execute (root b) op s)), snd (execute (root b) op s))"
  using assms by (rule call_transparent)

theorem call_is_execute_witness:
  "call sample_bus IscsiRescan sample_os =
     (Inr \<lparr>pr_ok = True, pr_code = 0, pr_stdout = ''x'', pr_stderr = []\<rparr>, sample_os)"
  using call_is_execute [OF sample_fields sample_crosses, of sample_os] unfolding sample_run by simp

text \<open>
  \<open>run\<close> never reports success for an operation that was not carried out: whatever the state of the
  socket, an output means the root daemon executed the operation, it succeeded, and this is
  what it printed.
\<close>

theorem run_reports_truth:
  assumes "run b op s = (Some out, s')"
    and "crosses (ser_op b) (de_op b) op" "vdsmd_uid b = allowed_uid b"
    and "crosses (ser_res b) (de_res b) (fst (execute (root b) op s))"
  shows "\<exists>r. execute (root b) op s = (r, s') \<and> pr_ok r \<and> pr_stdout r = out"
proof -
  have "link b s = LinkOk"
    using assms(1) by (cases "link b s") (auto simp: run_def call_def split: sum.splits prod.splits)
  from call_transparent [OF this assms(3,2,4)] assms(1) show ?thesis
    by (cases "execute (root b) op s") (auto simp: run_def split: if_splits)
qed

theorem run_reports_truth_witness:
  "\<exists>r. execute (root sample_bus) IscsiRescan sample_os = (r, sample_os) \<and> pr_ok r \<and> pr_stdout r = ''x''"
proof (rule run_reports_truth [OF _ sample_crosses(1) sample_fields(2) sample_crosses(2)])
  show "run sample_bus IscsiRescan sample_os = (Some ''x'', sample_os)"
    unfolding run_def call_transparent [OF sample_fields sample_crosses] sample_run by simp
qed

text \<open>
  The documentation names \<open>mount --bind\<close> as what the boundary rules out. The operation with file
  system type \<open>none\<close> and option \<open>bind\<close> passes every check, so the root directory can be
  bind-mounted below the mount root.
\<close>

theorem bind_mount_accepted:
  "execute e (Mount ''none'' ''/'' ''/rhev/data-center/mnt/x'' ''bind'') s =
     run_cmd e ''/usr/bin/mount'' [''-t'', ''none'', ''-o'', ''bind'', ''/'', ''/rhev/data-center/mnt/x''] s"
  by (simp add: valid_fstype_def valid_target_def MOUNT_ROOT_def)

end
