(* ===== verification/Storage_Conn.thy ===== *)
theory Storage_Conn
  imports Supervdsm Rpc
begin

text \<open>
  \<open>crates/vdsm-storage/src/connection.rs\<close> and \<open>verbs.rs\<close>: storage server connections. A connection
  is mounted below \<open>/rhev/data-center/mnt\<close> by the privileged helper, or logged in to as an iSCSI
  target, and remembered in the registry of the daemon. The state of the storage verbs is the
  record \<open>storage\<close>: the two process-wide variables (\<open>CONNECTIONS\<close> here, \<open>POOL\<close> of \<open>domain.rs\<close>) and
  the machine. Reading the connection records out of the JSON parameters and writing them back
  is derived by \<open>serde\<close>: the functions are in the record \<open>ctx\<close>, like the JSON text parser
  used on the output of tools.
\<close>

section \<open>Connections\<close>

definition MNT_BASE :: string where
  "MNT_BASE = ''/rhev/data-center/mnt''"

record server_connection =
  conn_id :: string
  connection :: string
  vfs_type :: string
  mnt_options :: string
  protocol_version :: string

definition connection_default :: server_connection where
  "connection_default = \<lparr>conn_id = [], connection = [], vfs_type = [], mnt_options = [], protocol_version = []\<rparr>"

definition mountpoint :: "server_connection \<Rightarrow> string" where
  "mountpoint c = path_join MNT_BASE (replace_char SLASH ''_'' (connection c))"

record pool_state =
  pool_id :: string
  master_sd :: string
  master_ver :: int
  domains :: "string list"

record 'x storage =
  connections :: "server_connection list"
  pool :: pool_state
  machine :: "'x os"

record iscsi_target_spec =
  ts_iqn :: string
  ts_portal :: string
  ts_port :: string
  ts_user :: string
  ts_password :: string
  ts_tpgt :: string

record 'x ctx =
  bus :: "'x bus"
  de_conns :: "json \<Rightarrow> server_connection list option"
  ser_conn :: "server_connection \<Rightarrow> json"
  de_target :: "json \<Rightarrow> iscsi_target_spec option"
  parse_json :: "string \<Rightarrow> json option"

section \<open>Mounting\<close>

definition is_mounted :: "'x ctx \<Rightarrow> string \<Rightarrow> 'x os \<Rightarrow> bool" where
  "is_mounted c mp s \<longleftrightarrow>
     (case read_to_string (sys (bus c)) ''/proc/self/mountinfo'' s of
        Inr t \<Rightarrow> list_ex (\<lambda>l. let w = split_whitespace l in 4 < length w \<and> w ! 4 = mp) (str_lines t)
      | Inl _ \<Rightarrow> False)"

definition default_vfs :: "int \<Rightarrow> string" where
  "default_vfs domain_type =
     (if domain_type = 5 then ''cifs''
      else if domain_type = 7 then ''auto''
      else if domain_type = 4 then ''none''
      else if domain_type = 8 then ''glusterfs''
      else if domain_type = 9 then ''nfs''
      else ''nfs'')"

text \<open>The login loop: did one of the targets accept?\<close>

fun login_all :: "'x ctx \<Rightarrow> string \<Rightarrow> string list \<Rightarrow> 'x os \<Rightarrow> bool \<times> 'x os" where
  "login_all c portal [] s = (False, s)"
| "login_all c portal (iqn # iqns) s =
     (case run (bus c) (IscsiLogin iqn portal) s of
        (r, s1) \<Rightarrow> (case login_all c portal iqns s1 of (ok, s2) \<Rightarrow> (r \<noteq> None \<or> ok, s2)))"

definition discovered_iqns :: "string \<Rightarrow> string list" where
  "discovered_iqns raw =
     List.map_filter (\<lambda>l. let w = split_whitespace l in if 1 < length w then Some (w ! 1) else None)
       (str_lines raw)"

definition iscsi_login_one :: "'x ctx \<Rightarrow> server_connection \<Rightarrow> 'x os \<Rightarrow> int \<times> 'x os" where
  "iscsi_login_one c spec s =
     (if connection spec = [] then (22, s)
      else
        (case run (bus c) (IscsiDiscover (connection spec)) s of
           (None, s1) \<Rightarrow> (101, s1)
         | (Some raw, s1) \<Rightarrow>
             (let iqns = discovered_iqns raw
              in if iqns = [] then (101, s1)
                 else (case login_all c (connection spec) iqns s1 of
                         (ok, s2) \<Rightarrow> (if ok then 0 else 101, s2)))))"

definition mount_one :: "'x ctx \<Rightarrow> server_connection \<Rightarrow> int \<Rightarrow> 'x os \<Rightarrow> int \<times> 'x os" where
  "mount_one c spec domain_type s =
     (if domain_type = 2 then (0, s)
      else if domain_type = 3 then iscsi_login_one c spec s
      else
        (let mp = mountpoint spec
         in case create_dir_all (sys (bus c)) mp s of
              (Inl m, s1) \<Rightarrow> (13, s1)
            | (Inr _, s1) \<Rightarrow>
                (if is_mounted c mp s1 then (0, s1)
                 else
                   (let vfs = (if vfs_type spec \<noteq> [] then vfs_type spec else default_vfs domain_type)
                    in case call (bus c) (Mount vfs (connection spec) mp (mnt_options spec)) s1 of
                         (Inr r, s2) \<Rightarrow> (if pr_ok r then 0 else 100, s2)
                       | (Inl m, s2) \<Rightarrow> (13, s2)))))"

section \<open>Verbs\<close>

definition con_list :: "'x ctx \<Rightarrow> json \<Rightarrow> server_connection list" where
  "con_list c params =
     unwrap_or [] (Option.bind (get_either params ''connectionParams'' ''conList'') (de_conns c))"

definition status_entry :: "server_connection \<Rightarrow> int \<Rightarrow> json" where
  "status_entry spec status = json_obj [(''id'', JStr (conn_id spec)), (''status'', jint status)]"

fun connect_all :: "'x ctx \<Rightarrow> int \<Rightarrow> server_connection list \<Rightarrow> 'x storage \<Rightarrow> json list \<times> 'x storage" where
  "connect_all c dt [] st = ([], st)"
| "connect_all c dt (spec # specs) st =
     (case mount_one c spec dt (machine st) of
        (status, m1) \<Rightarrow>
          (let st1 = st\<lparr>machine := m1,
                        connections := (if status = 0 then connections st @ [spec] else connections st)\<rparr>
           in case connect_all c dt specs st1 of (js, st2) \<Rightarrow> (status_entry spec status # js, st2)))"

definition connect_storage_server :: "'x ctx \<Rightarrow> 'x storage handler" where
  "connect_storage_server c params st =
     (case connect_all c (int_param params ''domainType'' 1) (con_list c params) st of
        (js, st') \<Rightarrow> (Inr (JArr js), st'))"

definition umount_one :: "'x ctx \<Rightarrow> server_connection \<Rightarrow> 'x os \<Rightarrow> int \<times> 'x os" where
  "umount_one c spec s =
     (let mp = mountpoint spec
      in if is_mounted c mp s then
           (case call (bus c) (Umount mp) s of
              (Inr r, s1) \<Rightarrow> (if pr_ok r then 0 else 16, s1)
            | (Inl m, s1) \<Rightarrow> (16, s1))
         else (0, s))"

fun disconnect_all :: "'x ctx \<Rightarrow> server_connection list \<Rightarrow> 'x storage \<Rightarrow> json list \<times> 'x storage" where
  "disconnect_all c [] st = ([], st)"
| "disconnect_all c (spec # specs) st =
     (case umount_one c spec (machine st) of
        (status, m1) \<Rightarrow>
          (let st1 = st\<lparr>machine := m1,
                        connections := filter (\<lambda>x. conn_id x \<noteq> conn_id spec) (connections st)\<rparr>
           in case disconnect_all c specs st1 of (js, st2) \<Rightarrow> (status_entry spec status # js, st2)))"

definition disconnect_storage_server :: "'x ctx \<Rightarrow> 'x storage handler" where
  "disconnect_storage_server c params st =
     (case disconnect_all c (con_list c params) st of (js, st') \<Rightarrow> (Inr (JArr js), st'))"

definition get_storage_server_connections_list :: "'x ctx \<Rightarrow> 'x storage handler" where
  "get_storage_server_connections_list c params st = (Inr (JArr (map (ser_conn c) (connections st))), st)"

definition discover_send_targets :: "'x storage handler" where
  "discover_send_targets params st = (Inr (JArr []), st)"

definition get_device_list_stub :: "'x storage handler" where
  "get_device_list_stub params st = (Inr (JArr []), st)"

section \<open>Mount points\<close>

lemma replace_slash_absent: "SLASH \<notin> set (replace_char SLASH ''_'' s)"
  by (rule replace_char_absent) simp

lemma mountpoint_eq: "mountpoint c = MOUNT_ROOT @ replace_char SLASH ''_'' (connection c)"
proof -
  let ?e = "replace_char SLASH ''_'' (connection c)"
  have "\<not> (?e \<noteq> [] \<and> hd ?e = SLASH)" using replace_slash_absent [of "connection c"] by (metis hd_in_set)
  then show ?thesis by (auto simp: mountpoint_def path_join_def MNT_BASE_def MOUNT_ROOT_def)
qed

lemma has_substr_replace:
  "x \<noteq> SLASH \<Longrightarrow> x \<noteq> CHR ''_'' \<Longrightarrow> y \<noteq> SLASH \<Longrightarrow> y \<noteq> CHR ''_'' \<Longrightarrow>
   has_substr [x, y] (replace_char SLASH ''_'' s) \<longleftrightarrow> has_substr [x, y] s"
proof (induction s)
  case (Cons c s)
  then show ?case by (cases s) (auto split: if_splits)
qed simp

lemma has_substr_append_left:
  "y \<noteq> last a \<Longrightarrow> a \<noteq> [] \<Longrightarrow> x \<noteq> last a \<Longrightarrow> \<not> has_substr [x, y] a \<Longrightarrow> has_substr [x, y] (a @ b) \<longleftrightarrow> has_substr [x, y] b"
proof (induction a)
  case (Cons c a)
  then show ?case by (cases a) (auto split: if_splits)
qed simp

lemma replace_slash_inj:
  "CHR ''_'' \<notin> set s \<Longrightarrow> CHR ''_'' \<notin> set t \<Longrightarrow> replace_char SLASH ''_'' s = replace_char SLASH ''_'' t \<Longrightarrow> s = t"
proof (induction s arbitrary: t)
  case Nil
  then show ?case by (cases t) (auto split: if_splits)
next
  case (Cons c s)
  then show ?case by (cases t) (auto split: if_splits)
qed

lemma mount_root_no_dots: "\<not> has_substr ''..'' MOUNT_ROOT" "NUL \<notin> set MOUNT_ROOT"
  "last MOUNT_ROOT = SLASH" "MOUNT_ROOT \<noteq> []"
  by (simp_all add: MOUNT_ROOT_def)

lemma set_replace_slash: "NUL \<in> set (replace_char SLASH ''_'' s) \<longleftrightarrow> NUL \<in> set s"
  by (induction s) auto


text \<open>
  Connections whose texts have no underscore are kept apart by their mount points.
\<close>

theorem mountpoint_injective:
  assumes "CHR ''_'' \<notin> set (connection c)" "CHR ''_'' \<notin> set (connection d)"
  shows "mountpoint c = mountpoint d \<longleftrightarrow> connection c = connection d"
  using assms by (auto simp: mountpoint_eq dest: replace_slash_inj)

theorem mountpoint_injective_witness:
  "mountpoint (connection_default\<lparr>connection := ''srv:/a''\<rparr>) \<noteq> mountpoint (connection_default\<lparr>connection := ''srv:/b''\<rparr>)"
  using mountpoint_injective [of "connection_default\<lparr>connection := ''srv:/a''\<rparr>"
      "connection_default\<lparr>connection := ''srv:/b''\<rparr>"]
  by simp

text \<open>
  With underscores they are not. \<open>srv:/a/b\<close> and \<open>srv:/a_b\<close> are different exports with one mount
  point; when the first is mounted there, connecting the second reports success at once and
  mounts nothing: nothing but the creation of the directory happens.
\<close>

theorem mountpoint_collision:
  "let c1 = connection_default\<lparr>connection := ''srv:/a/b''\<rparr>; c2 = connection_default\<lparr>connection := ''srv:/a_b''\<rparr>
   in mountpoint c1 = mountpoint c2 \<and>
      (\<forall>c s s1. create_dir_all (sys (bus c)) (mountpoint c1) s = (Inr (), s1) \<and> is_mounted c (mountpoint c1) s1 \<longrightarrow>
         mount_one c c2 1 s = (0, s1))"
proof -
  have "mountpoint (connection_default\<lparr>connection := ''srv:/a/b''\<rparr>) =
      mountpoint (connection_default\<lparr>connection := ''srv:/a_b''\<rparr>)"
    by (simp add: mountpoint_eq)
  then show ?thesis by (simp add: Let_def mount_one_def)
qed

text \<open>A small context for the concrete instances, with an export mounted.\<close>

definition sample_ctx :: "unit ctx" where
  "sample_ctx =
     \<lparr>bus = sample_bus, de_conns = (\<lambda>j. Some []), ser_conn = (\<lambda>c. JStr (conn_id c)),
      de_target = (\<lambda>j. None), parse_json = (\<lambda>t. None)\<rparr>"

definition mounted_os :: "unit os" where
  "mounted_os =
     sample_os\<lparr>files :=
       [([''proc''], NDir), ([''proc'', ''self''], NDir),
        ([''proc'', ''self'', ''mountinfo''], NFile (''36 1 0:31 / /rhev/data-center/mnt/srv:_a_b rw'' @ [NL])),
        ([''rhev''], NDir), ([''rhev'', ''data-center''], NDir), ([''rhev'', ''data-center'', ''mnt''], NDir),
        ([''rhev'', ''data-center'', ''mnt'', ''srv:_a_b''], NDir)]\<rparr>"

theorem mountpoint_collision_witness:
  "mount_one sample_ctx (connection_default\<lparr>connection := ''srv:/a_b''\<rparr>) 1 mounted_os = (0, mounted_os)"
proof -
  let ?mp = "mountpoint (connection_default\<lparr>connection := ''srv:/a/b''\<rparr>)"
  have "create_dir_all (sys (bus sample_ctx)) ?mp mounted_os = (Inr (), mounted_os)"
    by (simp add: mountpoint_eq MOUNT_ROOT_def sample_ctx_def sample_bus_def sample_env_def mounted_os_def
        create_dir_all_def components_def node_at_def)
  moreover have "is_mounted sample_ctx ?mp mounted_os" by code_simp
  ultimately show ?thesis using mountpoint_collision unfolding Let_def by blast
qed

section \<open>The registry\<close>

lemma connect_all_spec:
  "connect_all c dt specs st = (js, st') \<Longrightarrow>
   \<exists>codes. length codes = length specs \<and> js = map2 status_entry specs codes \<and>
     connections st' = connections st @ map fst (filter (\<lambda>(sp, k). k = 0) (zip specs codes)) \<and>
     pool st' = pool st"
proof (induction specs arbitrary: st js st')
  case (Cons sp specs)
  obtain k m where m: "mount_one c sp dt (machine st) = (k, m)" by fastforce
  let ?st1 = "st\<lparr>machine := m, connections := (if k = 0 then connections st @ [sp] else connections st)\<rparr>"
  obtain js1 st2 where r: "connect_all c dt specs ?st1 = (js1, st2)" by fastforce
  from Cons.IH [OF r] obtain codes where codes: "length codes = length specs" "js1 = map2 status_entry specs codes"
    "connections st2 = connections ?st1 @ map fst (filter (\<lambda>(sp, k). k = 0) (zip specs codes))"
    "pool st2 = pool ?st1" by blast
  have "js = status_entry sp k # js1" "st' = st2" using Cons.prems m r by (simp_all add: Let_def)
  with codes show ?case by (intro exI [of _ "k # codes"]) auto
qed simp

text \<open>
  C18: \<open>connectStorageServer\<close> answers with one status per connection, in the order of the request and with
  the engine's ids, and the registry grows by exactly the connections whose status is 0.
\<close>

theorem connect_storage_server_registry:
  "\<exists>codes st'. connect_storage_server c params st =
       (Inr (JArr (map2 status_entry (con_list c params) codes)), st') \<and>
     length codes = length (con_list c params) \<and> pool st' = pool st \<and>
     connections st' = connections st @ map fst (filter (\<lambda>(sp, k). k = 0) (zip (con_list c params) codes))"
proof -
  obtain js st' where r: "connect_all c (int_param params ''domainType'' 1) (con_list c params) st = (js, st')"
    by fastforce
  from connect_all_spec [OF r] r show ?thesis by (auto simp: connect_storage_server_def)
qed

lemma disconnect_all_spec:
  "disconnect_all c specs st = (js, st') \<Longrightarrow>
   connections st' = filter (\<lambda>x. conn_id x \<notin> conn_id ` set specs) (connections st) \<and> pool st' = pool st \<and>
   (\<exists>codes. length codes = length specs \<and> set codes \<subseteq> {0, 16} \<and> js = map2 status_entry specs codes)"
proof (induction specs arbitrary: st js st')
  case (Cons sp specs)
  obtain k m where m: "umount_one c sp (machine st) = (k, m)" by fastforce
  let ?st1 = "st\<lparr>machine := m, connections := filter (\<lambda>x. conn_id x \<noteq> conn_id sp) (connections st)\<rparr>"
  obtain js1 st2 where r: "disconnect_all c specs ?st1 = (js1, st2)" by fastforce
  have eq: "js = status_entry sp k # js1" "st' = st2" using Cons.prems m r by (simp_all add: Let_def)
  have k: "k \<in> {0, 16}" using m by (auto simp: umount_one_def Let_def split: if_splits prod.splits sum.splits)
  from Cons.IH [OF r] obtain codes where codes: "length codes = length specs" "set codes \<subseteq> {0, 16}"
    "js1 = map2 status_entry specs codes" by blast
  have "connections st2 = filter (\<lambda>x. conn_id x \<notin> conn_id ` set (sp # specs)) (connections st)"
    using Cons.IH [OF r] by (auto intro!: filter_cong)
  moreover have "\<exists>codes. length codes = length (sp # specs) \<and> set codes \<subseteq> {0, 16} \<and> js = map2 status_entry (sp # specs) codes"
    using codes eq k by (intro exI [of _ "k # codes"]) auto
  ultimately show ?case using Cons.IH [OF r] eq by simp
qed simp

text \<open>
  \<open>disconnectStorageServer\<close> answers with one status per connection, 0 or 16, in order, and takes
  exactly the connections with the given ids out of the registry, also where the unmount failed.
\<close>

theorem disconnect_storage_server_registry:
  "\<exists>codes st'. disconnect_storage_server c params st =
       (Inr (JArr (map2 status_entry (con_list c params) codes)), st') \<and>
     length codes = length (con_list c params) \<and> set codes \<subseteq> {0, 16} \<and> pool st' = pool st \<and>
     connections st' = filter (\<lambda>x. conn_id x \<notin> conn_id ` set (con_list c params)) (connections st)"
proof -
  obtain js st' where r: "disconnect_all c (con_list c params) st = (js, st')" by fastforce
  from disconnect_all_spec [OF r] r show ?thesis by (auto simp: disconnect_storage_server_def)
qed

end
