(* ===== verification/Kv_Meta.thy ===== *)
theory Kv_Meta
  imports Rust_Str
begin

text \<open>
  The key=value metadata files of storage domains (\<open>dom_md/metadata\<close>) and volumes (\<open>*.meta\<close>). Both
  are written by one \<open>format!\<close> and read back by the same loop: split each line at its first
  equals sign, trim both sides, insert into a \<open>HashMap\<close>, so that the last line of a key wins.
  The locale \<open>kv_format\<close> is the contract of a writer; its lemma says what the reader finds.
\<close>

definition render_kv :: "(string \<times> string) list \<Rightarrow> string" where
  "render_kv kvs = concat (map (\<lambda>(k, v). k @ ''='' @ v @ [NL]) kvs)"

definition kv_line :: "string \<Rightarrow> (string, string) hmap \<Rightarrow> (string, string) hmap" where
  "kv_line l m = (case split_once (CHR ''='') l of Some (k, v) \<Rightarrow> hm_insert (trim k) (trim v) m | None \<Rightarrow> m)"

definition parse_kv :: "string \<Rightarrow> (string, string) hmap" where
  "parse_kv content = foldl (\<lambda>m l. kv_line l m) [] (str_lines content)"

text \<open>\<open>m.get(k).cloned().unwrap_or_default()\<close>.\<close>

definition kv_get :: "(string, string) hmap \<Rightarrow> string \<Rightarrow> string" where
  "kv_get m k = unwrap_or [] (hm_get m k)"

definition key_ok :: "string \<Rightarrow> bool" where
  "key_ok k \<longleftrightarrow> CHR ''='' \<notin> set k \<and> NL \<notin> set k \<and> trimmed k"

text \<open>A value that stays on its line.\<close>

definition value_ok :: "string \<Rightarrow> bool" where
  "value_ok v \<longleftrightarrow> NL \<notin> set v \<and> (v = [] \<or> last v \<noteq> CR)"

lemma render_kv_simps [simp]:
  "render_kv [] = []" "render_kv ((k, v) # kvs) = k @ ''='' @ v @ NL # render_kv kvs"
  by (simp_all add: render_kv_def)

lemma chop_cr_id: "l = [] \<or> last l \<noteq> CR \<Longrightarrow> chop_cr l = l"
  by (auto simp: chop_cr_def)

lemma str_lines_render:
  assumes "list_all (\<lambda>(k, v). key_ok k \<and> value_ok v) kvs"
  shows "str_lines (render_kv kvs @ t) = map (\<lambda>(k, v). k @ CHR ''='' # v) kvs @ str_lines t"
  using assms
proof (induction kvs)
  case (Cons kv kvs)
  obtain k v where kv: "kv = (k, v)" by fastforce
  have nl: "NL \<notin> set (k @ CHR ''='' # v)" using Cons.prems by (auto simp: kv key_ok_def value_ok_def)
  have cr: "chop_cr (k @ CHR ''='' # v) = k @ CHR ''='' # v"
    using Cons.prems by (intro chop_cr_id) (auto simp: kv value_ok_def)
  show ?case
    using str_lines_line [OF nl, of "render_kv kvs @ t"] Cons cr by (simp add: kv)
qed simp

lemma kv_line_field: "key_ok k \<Longrightarrow> kv_line (k @ CHR ''='' # v) m = hm_insert k (trim v) m"
  by (simp add: kv_line_def key_ok_def)

lemma kv_line_other: "CHR ''='' \<notin> set l \<Longrightarrow> kv_line l m = m"
  by (simp add: kv_line_def split_once_def find_byte_None [symmetric])

lemma foldl_kv_other: "list_all (\<lambda>l. CHR ''='' \<notin> set l) ls \<Longrightarrow> foldl (\<lambda>m l. kv_line l m) m ls = m"
  by (induction ls arbitrary: m) (auto simp: kv_line_other)

lemma parse_render:
  assumes "list_all (\<lambda>(k, v). key_ok k \<and> value_ok v) kvs" "list_all (\<lambda>l. CHR ''='' \<notin> set l) (str_lines t)"
  shows "parse_kv (render_kv kvs @ t) = foldl (\<lambda>m (k, v). hm_insert k v m) [] (map (\<lambda>(k, v). (k, trim v)) kvs)"
proof -
  have "foldl (\<lambda>m l. kv_line l m) m (map (\<lambda>(k, v). k @ CHR ''='' # v) kvs) =
      foldl (\<lambda>m (k, v). hm_insert k v m) m (map (\<lambda>(k, v). (k, trim v)) kvs)" for m
    using assms(1) by (induction kvs arbitrary: m) (auto simp: kv_line_field)
  then show ?thesis
    by (simp add: parse_kv_def str_lines_render [OF assms(1)] foldl_kv_other [OF assms(2)])
qed

locale kv_format =
  fixes fields :: "'r \<Rightarrow> (string \<times> string) list"
    and tail :: string
  assumes keys_ok: "k \<in> fst ` set (fields r) \<Longrightarrow> key_ok k"
    and keys_distinct: "distinct (map fst (fields r))"
    and tail_plain: "list_all (\<lambda>l. CHR ''='' \<notin> set l) (str_lines tail)"
begin

definition blob :: "'r \<Rightarrow> string" where
  "blob r = render_kv (fields r) @ tail"

lemma blob_get:
  assumes "\<forall>v \<in> snd ` set (fields r). value_ok v" "(k, v) \<in> set (fields r)"
  shows "kv_get (parse_kv (blob r)) k = trim v"
proof -
  have ok: "list_all (\<lambda>(k, v). key_ok k \<and> value_ok v) (fields r)"
    using assms(1) keys_ok by (force simp: list_all_iff)
  have "distinct (map fst (map (\<lambda>(k, v). (k, trim v)) (fields r)))"
    using keys_distinct by (simp add: comp_def case_prod_beta)
  moreover have "(k, trim v) \<in> set (map (\<lambda>(k, v). (k, trim v)) (fields r))" using assms(2) by force
  ultimately have "hm_get (parse_kv (blob r)) k = Some (trim v)"
    unfolding blob_def parse_render [OF ok tail_plain]
    by (rule hm.lookup_fill_distinct [OF _ _ hm.ok_empty])
  then show ?thesis by (simp add: kv_get_def)
qed

lemma blob_other:
  assumes "\<forall>v \<in> snd ` set (fields r). value_ok v" "k \<notin> fst ` set (fields r)"
  shows "kv_get (parse_kv (blob r)) k = []"
proof -
  have ok: "list_all (\<lambda>(k, v). key_ok k \<and> value_ok v) (fields r)"
    using assms(1) keys_ok by (force simp: list_all_iff)
  have "k \<notin> fst ` set (map (\<lambda>(k, v). (k, trim v)) (fields r))" using assms(2) by force
  then have "hm_get (parse_kv (blob r)) k = None"
    unfolding blob_def parse_render [OF ok tail_plain]
    by (subst hm.lookup_fill_absent [OF _ hm.ok_empty]) simp_all
  then show ?thesis by (simp add: kv_get_def)
qed

end

section \<open>Graphic keys and values\<close>

lemma graphic_key: "graphic k \<Longrightarrow> CHR ''='' \<notin> set k \<Longrightarrow> key_ok k"
  using graphic_notin [of k NL] by (simp add: key_ok_def graphic_char_def)

lemma graphic_value [simp]: "graphic v \<Longrightarrow> value_ok v"
  using graphic_notin [of v NL] graphic_notin [of v CR] last_in_set
  by (fastforce simp: value_ok_def graphic_char_def)

lemma value_ok_Nil [simp]: "value_ok []"
  by (simp add: value_ok_def)

lemma render_kv_valid:
  "list_all (\<lambda>(k, v). utf8_valid k \<and> utf8_valid v) kvs \<Longrightarrow> utf8_valid (render_kv kvs)"
  by (induction kvs) (auto intro!: utf8_valid_append)

end
