(* ===== verification/Storage_Domain.thy ===== *)
theory Storage_Domain
  imports Storage_Conn Kv_Meta
begin

text \<open>
  \<open>crates/vdsm-storage/src/sd_backend.rs\<close> and \<open>domain.rs\<close>: finding a storage domain (a volume group
  named after it, or a directory below a mount), creating its on-disk layout and metadata,
  reading them back, and the pool state of the host.
\<close>

section \<open>Backends\<close>

definition BLOCK_SD_STATE_BASE :: string where
  "BLOCK_SD_STATE_BASE = ''/var/lib/vdsm/sd''"

datatype sd_backend = File (sd_path: string) | Block (vg_name: string) (state_dir: string)

definition is_block :: "sd_backend \<Rightarrow> bool" where
  "is_block b = (case b of Block _ _ \<Rightarrow> True | File _ \<Rightarrow> False)"

text \<open>A query program run by the daemon itself.\<close>

abbreviation sys_exec :: "'x ctx \<Rightarrow> string \<Rightarrow> string list \<Rightarrow> 'x os \<Rightarrow> (string, cmd_output) result \<times> 'x os" where
  "sys_exec c \<equiv> exec (sys (bus c))"

definition vg_exists :: "'x ctx \<Rightarrow> string \<Rightarrow> 'x os \<Rightarrow> bool \<times> 'x os" where
  "vg_exists c name s =
     (case sys_exec c ''/usr/sbin/vgs''
             [''--noheadings'', ''-o'', ''vg_name'', ''--select'', ''vg_name='' @ name] s of
        (Inr r, s1) \<Rightarrow>
          (success r \<and> stdout_bytes r \<noteq> [] \<and> trim (from_utf8_lossy (stdout_bytes r)) = name, s1)
      | (Inl m, s1) \<Rightarrow> (False, s1))"

definition file_sd :: "'x ctx \<Rightarrow> string \<Rightarrow> 'x os \<Rightarrow> sd_backend option" where
  "file_sd c sd_uuid s =
     (case read_dir (sys (bus c)) MNT_BASE s of
        Inl m \<Rightarrow> None
      | Inr names \<Rightarrow>
          map_option File
            (find (\<lambda>p. is_dir (sys (bus c)) p s)
              (map (\<lambda>n. path_join (path_join MNT_BASE n) sd_uuid) names)))"

definition find_backend :: "'x ctx \<Rightarrow> string \<Rightarrow> 'x os \<Rightarrow> sd_backend option \<times> 'x os" where
  "find_backend c sd_uuid s =
     (if sd_uuid = [] then (None, s)
      else
        (case vg_exists c sd_uuid s of
           (True, s1) \<Rightarrow> (Some (Block sd_uuid (path_join BLOCK_SD_STATE_BASE sd_uuid)), s1)
         | (False, s1) \<Rightarrow> (file_sd c sd_uuid s1, s1)))"

section \<open>Creating a domain\<close>

definition ONE_MIB :: nat where
  "ONE_MIB = 1024 * 1024"

definition class_to_str :: "int \<Rightarrow> string" where
  "class_to_str k = (if k = 2 then ''Iso'' else if k = 3 then ''Backup'' else ''Data'')"

definition type_to_str :: "int \<Rightarrow> string" where
  "type_to_str t =
     (if t = 1 then ''NFS'' else if t = 2 then ''FCP'' else if t = 3 then ''ISCSI''
      else if t = 4 then ''LOCALFS'' else if t = 5 then ''CIFS'' else if t = 7 then ''POSIXFS''
      else ''NFS'')"

definition is_block_type :: "int \<Rightarrow> bool" where
  "is_block_type t \<longleftrightarrow> t = 2 \<or> t = 3"

record sd_spec =
  sp_uuid :: string
  sp_typeargs :: string
  sp_name :: string
  sp_class :: int
  sp_type :: int
  sp_block_size :: int
  sp_version :: int

definition sd_spec_of :: "json \<Rightarrow> sd_spec" where
  "sd_spec_of params =
     \<lparr>sp_uuid = str_param params ''storagedomainID'' [],
      sp_typeargs = str_param params ''typeArgs'' [],
      sp_name = str_param params ''name'' ''nfs'',
      sp_class = int_param params ''domainClass'' 1,
      sp_type = int_param params ''domainType'' 1,
      sp_block_size = int_param params ''blockSize'' 512,
      sp_version = int_param params ''version'' 5\<rparr>"

definition remote_path :: "sd_spec \<Rightarrow> string" where
  "remote_path sp = (if is_block_type (sp_type sp) then sp_uuid sp else sp_typeargs sp)"

definition sd_fields :: "sd_spec \<Rightarrow> (string \<times> string) list" where
  "sd_fields sp =
     [(''ALIGNMENT'', ''1048576''),
      (''BLOCK_SIZE'', int_dec (sp_block_size sp)),
      (''CLASS'', class_to_str (sp_class sp)),
      (''DESCRIPTION'', sp_name sp),
      (''IOOPTIMEOUTSEC'', ''10''),
      (''LEASERETRIES'', ''3''),
      (''LEASETIMESEC'', ''60''),
      (''LOCKPOLICY'', ''''),
      (''LOCKRENEWALINTERVALSEC'', ''5''),
      (''MASTER_VERSION'', ''0''),
      (''POOL_UUID'', ''''),
      (''REMOTE_PATH'', remote_path sp),
      (''ROLE'', ''Regular''),
      (''SDUUID'', sp_uuid sp),
      (''TYPE'', type_to_str (sp_type sp)),
      (''VERSION'', int_dec (sp_version sp)),
      (''_SHA_CKSUM'', ''0000000000000000000000000000000000000000000000000000000000000000'')]"

definition sd_metadata :: "sd_spec \<Rightarrow> string" where
  "sd_metadata sp = render_kv (sd_fields sp)"

text \<open>\<open>create_dir_all\<close> on a list of directories, up to the first error.\<close>

fun mkdir_each :: "'x ctx \<Rightarrow> string list \<Rightarrow> 'x os \<Rightarrow> (jsonrpc_error, unit) result \<times> 'x os" where
  "mkdir_each c [] s = (Inr (), s)"
| "mkdir_each c (d # ds) s =
     (case create_dir_all (sys (bus c)) d s of
        (Inl m, s1) \<Rightarrow> (Inl (internal (''mkdir '' @ d @ '': '' @ m)), s1)
      | (Inr _, s1) \<Rightarrow> mkdir_each c ds s1)"

definition EM_DASH :: string where
  "EM_DASH = [CHR 0xE2, CHR 0x80, CHR 0x94]"

text \<open>The layout of a block domain and of a file domain: the directory of the metadata.\<close>

definition block_layout :: "'x ctx \<Rightarrow> sd_spec \<Rightarrow> 'x os \<Rightarrow> (jsonrpc_error, string) result \<times> 'x os" where
  "block_layout c sp s =
     (case vg_exists c (sp_uuid sp) s of
        (False, s1) \<Rightarrow>
          (Inl (internal (''VG '' @ sp_uuid sp @ '' not present '' @ EM_DASH @
                          '' engine should call Host.createVG first'')), s1)
      | (True, s1) \<Rightarrow>
          (let state = path_join BLOCK_SD_STATE_BASE (sp_uuid sp); dom_md = path_join state ''dom_md''
           in case mkdir_each c [state, dom_md, path_join state ''master'', path_join state ''images''] s1 of
                (Inl e, s2) \<Rightarrow> (Inl e, s2)
              | (Inr _, s2) \<Rightarrow> (Inr dom_md, s2)))"

definition file_layout :: "'x ctx \<Rightarrow> sd_spec \<Rightarrow> 'x os \<Rightarrow> (jsonrpc_error, string) result \<times> 'x os" where
  "file_layout c sp s =
     (let mp = mountpoint (connection_default\<lparr>connection := sp_typeargs sp\<rparr>)
      in if \<not> path_exists (sys (bus c)) mp s then
           (Inl (internal (''mountpoint '' @ mp @ '' not present '' @ EM_DASH @
                           '' was connectStorageServer called first?'')), s)
         else
           (let sd_dir = path_join mp (sp_uuid sp); dom_md = path_join sd_dir ''dom_md'';
                master = path_join sd_dir ''master''; images = path_join sd_dir ''images''
            in case mkdir_each c
                      [sd_dir, dom_md, master, path_join master ''tasks'', path_join master ''vms'', images] s of
                 (Inl e, s1) \<Rightarrow> (Inl e, s1)
               | (Inr _, s1) \<Rightarrow> (Inr dom_md, s1)))"

text \<open>The stub files: errors are ignored.\<close>

fun write_stubs :: "'x ctx \<Rightarrow> string \<Rightarrow> (string \<times> nat) list \<Rightarrow> 'x os \<Rightarrow> 'x os" where
  "write_stubs c dom_md [] s = s"
| "write_stubs c dom_md ((f, n) # fs) s =
     write_stubs c dom_md fs (snd (fs_write (sys (bus c)) (path_join dom_md f) (replicate n NUL) s))"

definition create_sd :: "'x ctx \<Rightarrow> sd_spec \<Rightarrow> 'x os \<Rightarrow> (jsonrpc_error, json) result \<times> 'x os" where
  "create_sd c sp s =
     (if sp_uuid sp = [] then (Inl (invalid_params ''storagedomainID required''), s)
      else if \<not> is_block_type (sp_type sp) \<and> sp_typeargs sp = [] then
        (Inl (invalid_params ''typeArgs required for file storage domain types''), s)
      else
        (case (if is_block_type (sp_type sp) then block_layout c sp s else file_layout c sp s) of
           (Inl e, s1) \<Rightarrow> (Inl e, s1)
         | (Inr dom_md, s1) \<Rightarrow>
             (case fs_write (sys (bus c)) (path_join dom_md ''metadata'') (sd_metadata sp) s1 of
                (Inl m, s2) \<Rightarrow> (Inl (internal (''write metadata: '' @ m)), s2)
              | (Inr _, s2) \<Rightarrow>
                  (Inr (json_obj []),
                   write_stubs c dom_md
                     [(''ids'', ONE_MIB), (''leases'', 2 * ONE_MIB), (''inbox'', 8 * ONE_MIB),
                      (''outbox'', 8 * ONE_MIB)] s2))))"

text \<open>A handler that only works on the machine.\<close>

definition on_machine ::
  "('x os \<Rightarrow> (jsonrpc_error, json) result \<times> 'x os) \<Rightarrow> 'x storage \<Rightarrow> (jsonrpc_error, json) result \<times> 'x storage" where
  "on_machine f st = (case f (machine st) of (r, m) \<Rightarrow> (r, st\<lparr>machine := m\<rparr>))"

definition create_storage_domain :: "'x ctx \<Rightarrow> 'x storage handler" where
  "create_storage_domain c params = on_machine (create_sd c (sd_spec_of params))"

section \<open>Reading a domain\<close>

definition first_two :: "u64 list \<Rightarrow> u64 \<times> u64" where
  "first_two n = (case n of [] \<Rightarrow> (0, 0) | [a] \<Rightarrow> (a, 0) | a # b # _ \<Rightarrow> (a, b))"

definition sd_total_free :: "'x ctx \<Rightarrow> string \<Rightarrow> 'x os \<Rightarrow> (u64 \<times> u64) \<times> 'x os" where
  "sd_total_free c sd_uuid s =
     (case find_backend c sd_uuid s of
        (Some (File p), s1) \<Rightarrow>
          (case sys_exec c ''/usr/bin/df'' [''-B1'', ''--output=size,avail'', p] s1 of
             (Inl m, s2) \<Rightarrow> ((0, 0), s2)
           | (Inr r, s2) \<Rightarrow>
               (let ls = str_lines (from_utf8_lossy (stdout_bytes r))
                in (first_two (if ls = [] then [] else List.map_filter parse_u64 (split_whitespace (last ls))), s2)))
      | (Some (Block vg _), s1) \<Rightarrow>
          (case sys_exec c ''/usr/sbin/vgs''
                  [''--noheadings'', ''--units'', ''B'', ''--nosuffix'', ''-o'', ''vg_size,vg_free'', vg] s1 of
             (Inl m, s2) \<Rightarrow> ((0, 0), s2)
           | (Inr r, s2) \<Rightarrow>
               (first_two (List.map_filter parse_u64 (split_whitespace (from_utf8_lossy (stdout_bytes r)))), s2))
      | (None, s1) \<Rightarrow> ((0, 0), s1))"

definition get_stats :: "'x ctx \<Rightarrow> string \<Rightarrow> 'x os \<Rightarrow> (jsonrpc_error, json) result \<times> 'x os" where
  "get_stats c sd_uuid s =
     (case sd_total_free c sd_uuid s of
        ((tot, free), s1) \<Rightarrow>
          (case (if tot = 0 \<and> free = 0 then
                   (case find_backend c sd_uuid s1 of (b, s2) \<Rightarrow> (b = None, s2))
                 else (False, s1)) of
             (True, s2) \<Rightarrow> (Inl (internal (''SD '' @ sd_uuid @ '' not found'')), s2)
           | (False, s2) \<Rightarrow>
               (Inr (json_obj
                  [(''disktotal'', JStr (u64_str tot)), (''diskfree'', JStr (u64_str free)),
                   (''mdasize'', JStr (u64_str (tot div 100))), (''mdafree'', JStr (u64_str (free div 100)))]), s2)))"

definition get_storage_domain_stats :: "'x ctx \<Rightarrow> 'x storage handler" where
  "get_storage_domain_stats c params = on_machine (get_stats c (str_param params ''storagedomainID'' []))"

definition sd_info_json :: "string \<Rightarrow> (string, string) hmap \<Rightarrow> json" where
  "sd_info_json sd_uuid meta =
     json_obj
       [(''uuid'', JStr sd_uuid),
        (''type'', JStr (kv_get meta ''TYPE'')),
        (''class'', JStr (kv_get meta ''CLASS'')),
        (''name'', JStr (kv_get meta ''DESCRIPTION'')),
        (''role'', JStr (kv_get meta ''ROLE'')),
        (''pool'', JArr []),
        (''version'', JStr (kv_get meta ''VERSION'')),
        (''remotePath'', JStr (kv_get meta ''REMOTE_PATH'')),
        (''alignment'', JStr (kv_get meta ''ALIGNMENT'')),
        (''block_size'', JStr (kv_get meta ''BLOCK_SIZE'')),
        (''master_ver'', JStr (kv_get meta ''MASTER_VERSION'')),
        (''lver'', JStr ''-1''),
        (''spm_id'', JStr ''-1''),
        (''state'', JStr ''OK'')]"

definition sd_metadata_path :: "sd_backend \<Rightarrow> string" where
  "sd_metadata_path b =
     (case b of
        File p \<Rightarrow> path_join (path_join p ''dom_md'') ''metadata''
      | Block _ d \<Rightarrow> path_join (path_join d ''dom_md'') ''metadata'')"

definition get_info :: "'x ctx \<Rightarrow> string \<Rightarrow> 'x os \<Rightarrow> (jsonrpc_error, json) result \<times> 'x os" where
  "get_info c sd_uuid s =
     (if sd_uuid = [] then (Inl (invalid_params ''storagedomainID required''), s)
      else
        (case find_backend c sd_uuid s of
           (None, s1) \<Rightarrow> (Inl (internal (''SD '' @ sd_uuid @ '' not found'')), s1)
         | (Some b, s1) \<Rightarrow>
             (let p = sd_metadata_path b
              in if \<not> path_exists (sys (bus c)) p s1 then
                   (Inl (internal (''SD '' @ sd_uuid @ '' metadata missing at '' @ p)), s1)
                 else
                   (case read_to_string (sys (bus c)) p s1 of
                      Inl m \<Rightarrow> (Inl (internal (''read metadata: '' @ m)), s1)
                    | Inr content \<Rightarrow> (Inr (sd_info_json sd_uuid (parse_kv content)), s1)))))"

definition get_storage_domain_info :: "'x ctx \<Rightarrow> 'x storage handler" where
  "get_storage_domain_info c params = on_machine (get_info c (str_param params ''storagedomainID'' []))"

section \<open>The pool\<close>

definition pool_default :: pool_state where
  "pool_default = \<lparr>pool_id = [], master_sd = [], master_ver = 0, domains = []\<rparr>"

definition attach_storage_domain :: "'x storage handler" where
  "attach_storage_domain params st = (Inr (json_obj []), st)"

definition activate_storage_domain :: "'x storage handler" where
  "activate_storage_domain params st = (Inr (json_obj []), st)"

definition hsm_get_all_tasks_statuses :: "'x storage handler" where
  "hsm_get_all_tasks_statuses params st = (Inr (json_obj []), st)"

text \<open>\<open>for d in domains { if !s.domains.contains(&d) { s.domains.push(d); } }\<close>.\<close>

definition add_domains :: "string list \<Rightarrow> string list \<Rightarrow> string list" where
  "add_domains ds old = foldl (\<lambda>acc d. if d \<in> set acc then acc else acc @ [d]) old ds"

definition pool_connect :: "json \<Rightarrow> pool_state \<Rightarrow> pool_state" where
  "pool_connect params p =
     (let pid = str_param params ''storagepoolID'' []; msd = str_param params ''masterSdUUID'' [];
          ver = int_param params ''masterVersion'' 1;
          ds = (case Option.bind (json_get params ''domainsMap'') as_object of None \<Rightarrow> [] | Some m \<Rightarrow> map fst m)
      in p\<lparr>pool_id := (if pid \<noteq> [] then pid else pool_id p),
           master_sd := (if msd \<noteq> [] then msd else master_sd p),
           master_ver := max ver (master_ver p),
           domains := add_domains ds (domains p)\<rparr>)"

definition connect_storage_pool :: "'x storage handler" where
  "connect_storage_pool params st = (Inr (json_obj []), st\<lparr>pool := pool_connect params (pool st)\<rparr>)"

definition pool_create :: "json \<Rightarrow> pool_state \<Rightarrow> pool_state" where
  "pool_create params p =
     (let pid = str_either params ''poolID'' ''storagepoolID''; msd = str_either params ''masterDom'' ''masterSdUUID'';
          ds = strs_of (json_get params ''domList'')
      in p\<lparr>pool_id := (if pid \<noteq> [] then pid else pool_id p),
           master_sd := (if msd \<noteq> [] then msd else master_sd p),
           master_ver := (if master_ver p = 0 then 1 else master_ver p),
           domains := add_domains ds (domains p)\<rparr>)"

definition create_storage_pool :: "'x storage handler" where
  "create_storage_pool params st = (Inr (json_obj []), st\<lparr>pool := pool_create params (pool st)\<rparr>)"

definition pool_spm :: "json \<Rightarrow> pool_state \<Rightarrow> pool_state" where
  "pool_spm params p =
     (let pid = str_param params ''storagepoolID'' [] in if pid \<noteq> [] then p\<lparr>pool_id := pid\<rparr> else p)"

definition spm_start :: "'x storage handler" where
  "spm_start params st = (Inr (json_obj []), st\<lparr>pool := pool_spm params (pool st)\<rparr>)"

definition get_spm_status :: "'x storage handler" where
  "get_spm_status params st =
     (Inr (json_obj [(''spmStatus'', JStr ''SPM''), (''spmLver'', JStr ''0''), (''spmId'', JStr ''1'')]), st)"

definition dominfo_entry :: "u64 \<Rightarrow> json" where
  "dominfo_entry free =
     json_obj [(''status'', JStr ''Active''), (''diskfree'', JStr (u64_str free)), (''alerts'', JArr []),
               (''version'', JStr ''5''), (''isoprefix'', JStr [])]"

fun dominfo_loop :: "'x ctx \<Rightarrow> string list \<Rightarrow> json bmap \<Rightarrow> 'x os \<Rightarrow> json bmap \<times> 'x os" where
  "dominfo_loop c [] m s = (m, s)"
| "dominfo_loop c (sd # sds) m s =
     (case sd_total_free c sd s of
        ((tot, free), s1) \<Rightarrow> dominfo_loop c sds (bm_insert sd (dominfo_entry free) m) s1)"

definition pool_dominfo :: "'x ctx \<Rightarrow> pool_state \<Rightarrow> 'x os \<Rightarrow> json bmap \<times> 'x os" where
  "pool_dominfo c p s =
     (case dominfo_loop c (domains p) [] s of
        (m, s1) \<Rightarrow>
          (if master_sd p \<noteq> [] \<and> map_of m (master_sd p) = None then
             (case sd_total_free c (master_sd p) s1 of
                ((tot, free), s2) \<Rightarrow> (bm_insert (master_sd p) (dominfo_entry free) m, s2))
           else (m, s1)))"

definition pool_info_json :: "pool_state \<Rightarrow> json bmap \<Rightarrow> json" where
  "pool_info_json p dominfo =
     json_obj
       [(''info'', json_obj
          [(''name'', JStr ''Default''), (''version'', JStr ''5''), (''isoprefix'', JStr []),
           (''master_uuid'', JStr (master_sd p)), (''master_ver'', jint (master_ver p)),
           (''lver'', jint 0), (''spm_id'', jint 1), (''type'', JStr ''NFS''),
           (''pool_status'', JStr ''connected'')]),
        (''dominfo'', JObj dominfo)]"

definition get_storage_pool_info :: "'x ctx \<Rightarrow> 'x storage handler" where
  "get_storage_pool_info c params st =
     (case pool_dominfo c (pool st) (machine st) of
        (m, s1) \<Rightarrow> (Inr (pool_info_json (pool st) m), st\<lparr>machine := s1\<rparr>))"

section \<open>Pool invariants\<close>

text \<open>The pool state as a machine: the three verbs that change it.\<close>

inductive pool_reach :: "pool_state \<Rightarrow> pool_state \<Rightarrow> bool" for p0 where
  start: "pool_reach p0 p0"
| connect: "pool_reach p0 p \<Longrightarrow> pool_reach p0 (pool_connect params p)"
| create: "pool_reach p0 p \<Longrightarrow> pool_reach p0 (pool_create params p)"
| spm: "pool_reach p0 p \<Longrightarrow> pool_reach p0 (pool_spm params p)"

lemma add_domains_set: "set (add_domains ds old) = set old \<union> set ds"
  unfolding add_domains_def by (induction ds arbitrary: old) auto

lemma add_domains_distinct: "distinct old \<Longrightarrow> distinct (add_domains ds old)"
  unfolding add_domains_def by (induction ds arbitrary: old) auto

lemma add_domains_prefix: "\<exists>new. add_domains ds old = old @ new"
  unfolding add_domains_def
proof (induction ds arbitrary: old)
  case (Cons d ds)
  then show ?case by (cases "d \<in> set old") (auto, metis append_assoc)
qed simp

text \<open>What a verb keeps: the order of the known domains, and the version never falls.\<close>

definition pool_le :: "pool_state \<Rightarrow> pool_state \<Rightarrow> bool" where
  "pool_le p q \<longleftrightarrow>
     (\<exists>new. domains q = domains p @ new) \<and> master_ver p \<le> master_ver q \<and>
     (pool_id p \<noteq> [] \<longrightarrow> pool_id q \<noteq> []) \<and> (master_sd p \<noteq> [] \<longrightarrow> master_sd q \<noteq> []) \<and>
     (distinct (domains p) \<longrightarrow> distinct (domains q))"

lemma pool_le_trans: "pool_le p q \<Longrightarrow> pool_le q r \<Longrightarrow> pool_le p r"
  by (auto simp: pool_le_def)

lemma pool_le_steps:
  assumes "0 \<le> master_ver p"
  shows "pool_le p (pool_connect params p)" "pool_le p (pool_create params p)" "pool_le p (pool_spm params p)"
  using assms add_domains_prefix
  by (auto simp: pool_le_def pool_connect_def pool_create_def pool_spm_def Let_def add_domains_distinct)

text \<open>
  C19: from a fresh pool state every sequence of \<open>connectStoragePool\<close>, \<open>create\<close> and \<open>spmStart\<close> keeps the
  list of domains free of duplicates and only appends to it, never lowers the master version
  below any earlier value, and never forgets a pool or master domain once one is known.
\<close>

theorem pool_state_grows:
  assumes "pool_reach pool_default p" "pool_reach p q"
  shows "distinct (domains q) \<and> (\<exists>new. domains q = domains p @ new) \<and> 0 \<le> master_ver p \<and>
    master_ver p \<le> master_ver q \<and> (pool_id p \<noteq> [] \<longrightarrow> pool_id q \<noteq> []) \<and> (master_sd p \<noteq> [] \<longrightarrow> master_sd q \<noteq> [])"
proof -
  have le: "pool_le a b" if "pool_reach a b" "0 \<le> master_ver a" for a b
    using that
  proof (induction rule: pool_reach.induct)
    case start
    then show ?case by (simp add: pool_le_def)
  next
    case (connect p params)
    then have "0 \<le> master_ver p" by (auto simp: pool_le_def)
    with connect show ?case by (blast intro: pool_le_trans pool_le_steps)
  next
    case (create p params)
    then have "0 \<le> master_ver p" by (auto simp: pool_le_def)
    with create show ?case by (blast intro: pool_le_trans pool_le_steps)
  next
    case (spm p params)
    then have "0 \<le> master_ver p" by (auto simp: pool_le_def)
    with spm show ?case by (blast intro: pool_le_trans pool_le_steps)
  qed
  have p: "pool_le pool_default p" using le [OF assms(1)] by (simp add: pool_default_def)
  then have "0 \<le> master_ver p" "distinct (domains p)" by (auto simp: pool_le_def pool_default_def)
  with le [OF assms(2)] show ?thesis by (auto simp: pool_le_def)
qed

theorem pool_state_grows_witness:
  "let ps = json_obj [(''storagepoolID'', JStr ''p''), (''masterSdUUID'', JStr ''m''), (''masterVersion'', jint 4)];
       p = pool_connect ps pool_default; q = pool_create (json_obj [(''domList'', JArr [JStr ''d'', JStr ''d''])]) p
   in pool_reach pool_default p \<and> pool_reach p q \<and> distinct (domains q) \<and> master_ver p \<le> master_ver q"
proof -
  let ?ps = "json_obj [(''storagepoolID'', JStr ''p''), (''masterSdUUID'', JStr ''m''), (''masterVersion'', jint 4)]"
  let ?p = "pool_connect ?ps pool_default"
  let ?q = "pool_create (json_obj [(''domList'', JArr [JStr ''d'', JStr ''d''])]) ?p"
  have "pool_reach pool_default ?p" "pool_reach ?p ?q" by (blast intro: pool_reach.intros)+
  with pool_state_grows [OF this] show ?thesis by (simp only: Let_def)
qed

lemma dominfo_loop_keys:
  "dominfo_loop c sds m s = (m', s') \<Longrightarrow> bm_ok m \<Longrightarrow> bm_ok m' \<and> fst ` set m' = fst ` set m \<union> set sds"
  by (induction c sds m s rule: dominfo_loop.induct)
    (auto simp: keys_bm_insert bm_ok_insert split: prod.splits)

lemma pool_dominfo_keys:
  "bm_ok (fst (pool_dominfo c p s)) \<and>
   fst ` set (fst (pool_dominfo c p s)) = set (domains p) \<union> (if master_sd p = [] then {} else {master_sd p})"
proof -
  obtain m s1 where loop: "dominfo_loop c (domains p) [] s = (m, s1)" by fastforce
  from dominfo_loop_keys [OF loop] have m: "bm_ok m" "fst ` set m = set (domains p)"
    by (simp_all add: bm_ok_def)
  then have "map_of m (master_sd p) = None \<longleftrightarrow> master_sd p \<notin> set (domains p)"
    by (simp add: map_of_eq_None_iff)
  moreover obtain tot free s2 where "sd_total_free c (master_sd p) s1 = ((tot, free), s2)" by (metis surj_pair)
  ultimately show ?thesis
    using loop m by (simp add: pool_dominfo_def keys_bm_insert bm_ok_insert insert_absorb)
qed

text \<open>
  \<open>getStoragePoolInfo\<close> lists exactly the domains of the pool and its master domain, so the list is
  never empty once a master domain is known, which is what the engine takes for a lost pool.
\<close>

theorem pool_info_complete:
  "\<exists>dominfo st'. get_storage_pool_info c params st = (Inr (pool_info_json (pool st) dominfo), st') \<and>
     bm_ok dominfo \<and> pool st' = pool st \<and>
     fst ` set dominfo = set (domains (pool st)) \<union> (if master_sd (pool st) = [] then {} else {master_sd (pool st)})"
proof -
  obtain m s1 where "pool_dominfo c (pool st) (machine st) = (m, s1)" by fastforce
  with pool_dominfo_keys [of c "pool st" "machine st"] show ?thesis
    by (intro exI [of _ m] exI [of _ "st\<lparr>machine := s1\<rparr>"]) (simp add: get_storage_pool_info_def)
qed

section \<open>Domain metadata\<close>

interpretation sd_meta: kv_format sd_fields "[]"
proof
  fix k and sp
  show "k \<in> fst ` set (sd_fields sp) \<Longrightarrow> key_ok k"
    by (auto simp: sd_fields_def graphic_char_def intro!: graphic_key)
  show "distinct (map fst (sd_fields sp))" by (simp add: sd_fields_def)
qed simp

lemma sd_metadata_blob: "sd_metadata sp = sd_meta.blob sp"
  by (simp add: sd_metadata_def sd_meta.blob_def)

definition spec_text_ok :: "sd_spec \<Rightarrow> bool" where
  "spec_text_ok sp \<longleftrightarrow> list_all (\<lambda>v. value_ok v \<and> utf8_valid v) [sp_name sp, sp_uuid sp, sp_typeargs sp]"

lemma sd_tag_graphic [simp]: "graphic (class_to_str k)" "graphic (type_to_str t)"
  by (simp_all add: class_to_str_def type_to_str_def graphic_char_def)

lemma sd_values_ok: "spec_text_ok sp \<Longrightarrow> \<forall>v \<in> snd ` set (sd_fields sp). value_ok v"
  by (simp add: sd_fields_def spec_text_ok_def remote_path_def graphic_char_def)

lemma sd_metadata_valid: "spec_text_ok sp \<Longrightarrow> utf8_valid (sd_metadata sp)"
  unfolding sd_metadata_def
  by (rule render_kv_valid) (simp add: sd_fields_def spec_text_ok_def remote_path_def)

lemma sd_metadata_get: "spec_text_ok sp \<Longrightarrow> (k, v) \<in> set (sd_fields sp) \<Longrightarrow> kv_get (parse_kv (sd_metadata sp)) k = trim v"
  unfolding sd_metadata_blob by (rule sd_meta.blob_get [OF sd_values_ok])

section \<open>A created file domain is found and read back\<close>

text \<open>The state after a sequence of directory creations: everything old is kept, all new
  nodes lie on the way to the directories.\<close>

definition extends :: "fs \<Rightarrow> fs \<Rightarrow> string list list \<Rightarrow> bool" where
  "extends f g ps \<longleftrightarrow>
     (\<forall>q n. node_at f q = Some n \<longrightarrow> node_at g q = Some n) \<and>
     (\<forall>q. node_at g q \<noteq> node_at f q \<longrightarrow> (\<exists>p \<in> set ps. prefix q p))"

lemma extends_trans: "extends f g ps \<Longrightarrow> extends g h qs \<Longrightarrow> extends f h (ps @ qs)"
  unfolding extends_def by (metis Un_iff set_append)

lemma extends_dir: "extends f g ps \<Longrightarrow> dir_at f q \<Longrightarrow> dir_at g q"
  by (simp add: extends_def dir_at_def)

lemma mkdir_each_spec:
  assumes "no_faults (sys (bus c))" "mkdir_each c ds s = (Inr (), s')" "\<forall>d \<in> set ds. straight d"
  shows "extends (files s) (files s') (map place ds) \<and>
    (\<forall>d \<in> set ds. locate (files s') d = Inr (place d) \<and> dir_at (files s') (place d))"
  using assms(2,3)
proof (induction ds arbitrary: s)
  case Nil
  then show ?case by (simp add: extends_def)
next
  case (Cons d ds)
  then obtain s1 where s1: "create_dir_all (sys (bus c)) d s = (Inr (), s1)" "mkdir_each c ds s1 = (Inr (), s')"
    by (auto split: prod.splits sum.splits)
  have d: "straight d" using Cons.prems by simp
  note c = create_dir_all_spec [OF assms(1) s1(1) d]
  have e1: "extends (files s) (files s1) [place d]" using c(3,4) by (auto simp: extends_def)
  have IH: "extends (files s1) (files s') (map place ds)"
    "\<forall>d \<in> set ds. locate (files s') d = Inr (place d) \<and> dir_at (files s') (place d)"
    using Cons.IH [OF s1(2)] Cons.prems(2) by auto
  have "locate (files s') d = Inr (place d)" by (rule locate_mono [OF c(1) extends_dir [OF IH(1)]])
  moreover have "dir_at (files s') (place d)" by (rule extends_dir [OF IH(1) c(2)])
  ultimately show ?case using extends_trans [OF e1 IH(1)] IH(2) by simp
qed

lemma write_stubs_keeps:
  assumes "no_faults (sys (bus c))" "\<forall>(f, n) \<in> set fs. locate (files s) (path_join d f) \<noteq> Inr q"
  shows "dir_at (files (write_stubs c d fs s)) = dir_at (files s) \<and>
    node_at (files (write_stubs c d fs s)) q = node_at (files s) q"
  using assms(2)
proof (induction fs arbitrary: s)
  case (Cons fn fs)
  obtain f n where fn: "fn = (f, n)" by fastforce
  obtain r s1 where w: "fs_write (sys (bus c)) (path_join d f) (replicate n NUL) s = (r, s1)" by fastforce
  note spec = fs_write_spec [OF assms(1) w]
  have "\<forall>(f, n) \<in> set fs. locate (files s1) (path_join d f) \<noteq> Inr q"
    using locate_dirs [OF spec(1)] Cons.prems by fastforce
  then show ?case using Cons.IH [of s1] spec(1) spec(2) [of q] Cons.prems w by (simp add: fn)
qed simp

definition MNT_PLACE :: "string list" where
  "MNT_PLACE = [''rhev'', ''data-center'', ''mnt'']"

lemma mnt_base: "straight MNT_BASE" "place MNT_BASE = MNT_PLACE"
  by (simp_all add: MNT_BASE_def MNT_PLACE_def straight_def proper_def place_def components_def norm_def)

text \<open>
  The situation in which the engine creates a file domain: no volume group has its name, its
  names are plain and its texts stay on their lines, no other mount has a directory with its
  name, and listing a directory lists its entries.
\<close>

definition fresh_file_domain :: "'x ctx \<Rightarrow> sd_spec \<Rightarrow> 'x os \<Rightarrow> bool" where
  "fresh_file_domain c sp s \<longleftrightarrow>
     \<not> is_block_type (sp_type sp) \<and> plain (sp_uuid sp) \<and> plain (replace_char SLASH ''_'' (sp_typeargs sp)) \<and>
     spec_text_ok sp \<and> no_faults (sys (bus c)) \<and>
     (\<forall>s. vg_exists c (sp_uuid sp) s = (False, s)) \<and>
     (\<forall>xs. set (dir_order (sys (bus c)) xs) = set xs) \<and>
     (\<forall>n \<in> set (children (files s) MNT_PLACE). plain n \<and>
        (n \<noteq> replace_char SLASH ''_'' (sp_typeargs sp) \<longrightarrow> \<not> dir_at (files s) (MNT_PLACE @ [n, sp_uuid sp])))"

abbreviation sd_dir :: "sd_spec \<Rightarrow> string" where
  "sd_dir sp \<equiv> path_join (path_join MNT_BASE (replace_char SLASH ''_'' (sp_typeargs sp))) (sp_uuid sp)"

lemma sd_dir_straight:
  assumes "fresh_file_domain c sp s"
  shows "straight (sd_dir sp)"
    and "place (sd_dir sp) = MNT_PLACE @ [replace_char SLASH ''_'' (sp_typeargs sp), sp_uuid sp]"
  using assms mnt_base by (auto simp: fresh_file_domain_def straight_join place_join)

lemma plain_names [simp]: "plain ''dom_md''" "plain ''metadata''" "plain ''master''" "plain ''images''"
  "plain ''tasks''" "plain ''vms''" "plain ''ids''" "plain ''leases''" "plain ''inbox''" "plain ''outbox''"
  by (simp_all add: plain_def)

lemma file_layout_spec:
  assumes fresh: "fresh_file_domain c sp s" and ok: "file_layout c sp s = (Inr d, s1)"
  shows "d = path_join (sd_dir sp) ''dom_md''"
    and "locate (files s1) d = Inr (place d)" "dir_at (files s1) (place d)"
    and "locate (files s1) (sd_dir sp) = Inr (place (sd_dir sp))" "dir_at (files s1) (place (sd_dir sp))"
    and "node_at (files s1) q \<noteq> node_at (files s) q \<Longrightarrow> prefix (place (sd_dir sp)) q \<or> prefix q (place (sd_dir sp))"
    and "node_at (files s) q = Some n \<Longrightarrow> node_at (files s1) q = Some n"
proof -
  note st = sd_dir_straight(1) [OF fresh]
  let ?m = "path_join (sd_dir sp) ''master''"
  let ?ds = "[sd_dir sp, path_join (sd_dir sp) ''dom_md'', ?m, path_join ?m ''tasks'', path_join ?m ''vms'',
      path_join (sd_dir sp) ''images'']"
  have mp: "mountpoint (connection_default\<lparr>connection := sp_typeargs sp\<rparr>) =
      path_join MNT_BASE (replace_char SLASH ''_'' (sp_typeargs sp))"
    by (simp add: mountpoint_def)
  from ok have mk: "mkdir_each c ?ds s = (Inr (), s1)" and d: "d = path_join (sd_dir sp) ''dom_md''"
    by (auto simp: file_layout_def mp Let_def split: if_splits prod.splits sum.splits)
  have nf: "no_faults (sys (bus c))" using fresh by (simp add: fresh_file_domain_def)
  have "\<forall>d \<in> set ?ds. straight d" using st by (simp add: straight_join)
  note spec = mkdir_each_spec [OF nf mk this]
  show "d = path_join (sd_dir sp) ''dom_md''" by (rule d)
  show "locate (files s1) d = Inr (place d)" "dir_at (files s1) (place d)"
    "locate (files s1) (sd_dir sp) = Inr (place (sd_dir sp))" "dir_at (files s1) (place (sd_dir sp))"
    using spec by (simp_all add: d)
  show "node_at (files s) q = Some n \<Longrightarrow> node_at (files s1) q = Some n" using spec by (simp add: extends_def)
  assume "node_at (files s1) q \<noteq> node_at (files s) q"
  then obtain p where "p \<in> set (map place ?ds)" "prefix q p"
    using conjunct1 [OF spec] unfolding extends_def by blast
  moreover have "\<forall>p \<in> set (map place ?ds). prefix (place (sd_dir sp)) p"
    using st by (simp add: place_join straight_join)
  ultimately show "prefix (place (sd_dir sp)) q \<or> prefix q (place (sd_dir sp))"
    using prefix_same_cases by blast
qed

text \<open>After the layout, the files of the domain are written into its metadata directory and change nothing else.\<close>

lemma created_sd_writes:
  assumes fresh: "fresh_file_domain c sp s" and ok: "create_sd c sp s = (Inr j, s')"
  shows "\<exists>d s1. file_layout c sp s = (Inr d, s1) \<and> dir_at (files s') = dir_at (files s1) \<and>
    fs_read (sys (bus c)) (sd_metadata_path (File (sd_dir sp))) s' = Inr (sd_metadata sp) \<and>
    node_at (files s') (MNT_PLACE @ [n]) = node_at (files s1) (MNT_PLACE @ [n])"
proof -
  let ?md = "path_join (sd_dir sp) ''dom_md''"
  let ?stubs = "[(''ids'', ONE_MIB), (''leases'', 2 * ONE_MIB), (''inbox'', 8 * ONE_MIB), (''outbox'', 8 * ONE_MIB)]"
  have nf: "no_faults (sys (bus c))" and fty: "\<not> is_block_type (sp_type sp)"
    using fresh by (simp_all add: fresh_file_domain_def)
  note st = sd_dir_straight [OF fresh]
  from ok fty obtain d s1 where lay: "file_layout c sp s = (Inr d, s1)"
    by (auto simp: create_sd_def split: if_splits prod.splits sum.splits)
  note L = file_layout_spec [OF fresh lay]
  from ok fty lay obtain s2 where w: "fs_write (sys (bus c)) (path_join ?md ''metadata'') (sd_metadata sp) s1 = (Inr (), s2)"
    and s': "s' = write_stubs c ?md ?stubs s2"
    by (auto simp: create_sd_def L(1) split: if_splits prod.splits sum.splits)
  note W = fs_write_spec [OF nf w]
  have md: "straight ?md" "place ?md = place (sd_dir sp) @ [''dom_md'']"
    using st by (simp_all add: straight_join place_join)
  have in_md: "locate (files s1) (path_join ?md f) = Inr (place ?md @ [f])" if "plain f" for f
    using locate_dir_join [OF md(1) that] L(1-3) md(1) that by (simp add: place_join)
  have in_md2: "locate (files s2) (path_join ?md f) = Inr (place ?md @ [f])" if "plain f" for f
    using locate_dirs [OF W(1)] in_md [OF that] by blast
  have stub: "\<forall>(f, k) \<in> set ?stubs. locate (files s2) (path_join ?md f) \<noteq> Inr q"
    if "q = place ?md @ [''metadata''] \<or> q = MNT_PLACE @ [n]" for q
    using that by (auto simp: in_md2 md st)
  have K: "dir_at (files s') = dir_at (files s2)"
    "node_at (files s') (place ?md @ [''metadata'']) = node_at (files s2) (place ?md @ [''metadata''])"
    "node_at (files s') (MNT_PLACE @ [n]) = node_at (files s2) (MNT_PLACE @ [n])"
    unfolding s' using write_stubs_keeps [OF nf stub] by blast+
  have dirs: "dir_at (files s') = dir_at (files s1)" using K(1) W(1) by simp
  have "locate (files s') (path_join ?md ''metadata'') = Inr (place ?md @ [''metadata''])"
    using in_md [of "''metadata''"] locate_dirs [OF dirs] by simp
  moreover have "node_at (files s') (place ?md @ [''metadata'']) = Some (NFile (sd_metadata sp))"
    unfolding K(2) using W(3) [OF refl in_md] by simp
  ultimately have "fs_read (sys (bus c)) (sd_metadata_path (File (sd_dir sp))) s' = Inr (sd_metadata sp)"
    by (simp add: fs_read_iff [OF nf] sd_metadata_path_def)
  moreover have "node_at (files s') (MNT_PLACE @ [n]) = node_at (files s1) (MNT_PLACE @ [n])"
    unfolding K(3) using W(2) [of "MNT_PLACE @ [n]"] in_md [of "''metadata''"] by (simp add: md st)
  ultimately show ?thesis using lay dirs by blast
qed

lemma created_sd:
  assumes fresh: "fresh_file_domain c sp s" and ok: "create_sd c sp s = (Inr j, s')"
  shows "locate (files s') (sd_dir sp) = Inr (place (sd_dir sp))" "dir_at (files s') (place (sd_dir sp))"
    and "fs_read (sys (bus c)) (sd_metadata_path (File (sd_dir sp))) s' = Inr (sd_metadata sp)"
    and "dir_at (files s') (MNT_PLACE @ [n]) \<Longrightarrow> dir_at (files s') (MNT_PLACE @ [n, sp_uuid sp]) \<Longrightarrow>
         n = replace_char SLASH ''_'' (sp_typeargs sp)"
    and "node_at (files s') (MNT_PLACE @ [n]) \<noteq> None \<Longrightarrow> plain n"
proof -
  let ?n0 = "replace_char SLASH ''_'' (sp_typeargs sp)"
  have pn: "plain ?n0" using fresh by (simp add: fresh_file_domain_def)
  note st = sd_dir_straight [OF fresh]
  from created_sd_writes [OF fresh ok, of n] obtain d s1 where lay: "file_layout c sp s = (Inr d, s1)"
    and dirs: "dir_at (files s') = dir_at (files s1)"
    and read: "fs_read (sys (bus c)) (sd_metadata_path (File (sd_dir sp))) s' = Inr (sd_metadata sp)"
    and same: "node_at (files s') (MNT_PLACE @ [n]) = node_at (files s1) (MNT_PLACE @ [n])" by blast
  note L = file_layout_spec [OF fresh lay]
  show "fs_read (sys (bus c)) (sd_metadata_path (File (sd_dir sp))) s' = Inr (sd_metadata sp)" by (rule read)
  show "locate (files s') (sd_dir sp) = Inr (place (sd_dir sp))" "dir_at (files s') (place (sd_dir sp))"
    using L(4,5) locate_dirs [OF dirs] dirs by simp_all
  have here: "node_at (files s1) (MNT_PLACE @ [n]) = node_at (files s) (MNT_PLACE @ [n]) \<or> n = ?n0"
    using L(6) [of "MNT_PLACE @ [n]"] by (auto simp: st(2))
  have other: "node_at (files s1) (MNT_PLACE @ [n, sp_uuid sp]) = node_at (files s) (MNT_PLACE @ [n, sp_uuid sp]) \<or> n = ?n0"
    using L(6) [of "MNT_PLACE @ [n, sp_uuid sp]"] by (auto simp: st(2))
  have old: "plain n \<and> (n \<noteq> ?n0 \<longrightarrow> \<not> dir_at (files s) (MNT_PLACE @ [n, sp_uuid sp]))"
    if "node_at (files s) (MNT_PLACE @ [n]) \<noteq> None"
    using fresh that by (simp add: fresh_file_domain_def children_iff)
  show "n = ?n0" if "dir_at (files s') (MNT_PLACE @ [n])" "dir_at (files s') (MNT_PLACE @ [n, sp_uuid sp])"
  proof (rule ccontr)
    assume ne: "n \<noteq> ?n0"
    with that here other have "dir_at (files s) (MNT_PLACE @ [n])" "dir_at (files s) (MNT_PLACE @ [n, sp_uuid sp])"
      by (simp_all add: dirs) (simp_all add: dir_at_def)
    moreover from this(1) have "node_at (files s) (MNT_PLACE @ [n]) \<noteq> None" by (simp add: dir_at_def)
    ultimately show False using old ne by blast
  qed
  show "plain n" if "node_at (files s') (MNT_PLACE @ [n]) \<noteq> None"
    using that here old pn same by auto
qed

lemma created_sd_found:
  assumes fresh: "fresh_file_domain c sp s" and ok: "create_sd c sp s = (Inr j, s')"
  shows "file_sd c (sp_uuid sp) s' = Some (File (sd_dir sp))"
proof -
  note C = created_sd [OF fresh ok]
  let ?n0 = "replace_char SLASH ''_'' (sp_typeargs sp)" and ?e = "sys (bus c)"
  let ?path = "\<lambda>n. path_join (path_join MNT_BASE n) (sp_uuid sp)"
  have nf: "no_faults ?e" and u: "plain (sp_uuid sp)" and n0: "plain ?n0"
    and ord: "set (dir_order ?e xs) = set xs" for xs
    using fresh by (simp_all add: fresh_file_domain_def)
  have "dir_at (files s') MNT_PLACE \<and> locate (files s') MNT_BASE = Inr MNT_PLACE \<and>
      locate (files s') (path_join MNT_BASE ?n0) = Inr (MNT_PLACE @ [?n0]) \<and> dir_at (files s') (MNT_PLACE @ [?n0])"
  proof -
    have w: "walk (files s') [] (components MNT_BASE @ [?n0, sp_uuid sp]) = Inr (MNT_PLACE @ [?n0, sp_uuid sp])"
      using C(1) u n0 mnt_base sd_dir_straight [OF fresh]
      by (simp add: locate_walk straight_def proper_join components_join)
    then obtain q where q: "walk (files s') [] (components MNT_BASE) = Inr q"
      by (auto simp: walk_append split: sum.splits)
    then have "q = MNT_PLACE" using walk_norm [OF q] mnt_base by (simp add: straight_def place_def)
    with w q n0 u mnt_base show ?thesis
      by (auto simp: walk_append locate_walk straight_def proper_join components_join plain_def split: if_splits)
  qed
  then have list: "read_dir ?e MNT_BASE s' = Inr (dir_order ?e (children (files s') MNT_PLACE))"
    and mp: "dir_at (files s') (MNT_PLACE @ [?n0])"
    using nf by (simp_all add: read_dir_def)
  have only: "n = ?n0" if n: "n \<in> set (dir_order ?e (children (files s') MNT_PLACE))" and dir: "is_dir ?e (?path n) s'" for n
  proof -
    have pn: "plain n" using n C(5) [of n] by (simp add: ord children_iff)
    obtain q where q: "locate (files s') (?path n) = Inr q" "dir_at (files s') q"
      using dir by (auto simp: is_dir_iff [OF nf])
    have st: "straight (path_join MNT_BASE n)" "straight (?path n)" using pn u mnt_base by (simp_all add: straight_join)
    then have "q = MNT_PLACE @ [n, sp_uuid sp]"
      using locate_place [OF st(2) q(1)] pn u mnt_base by (simp add: place_join straight_join)
    moreover from q(1) have "dir_at (files s') (MNT_PLACE @ [n])"
      using st pn u mnt_base locate_place [OF st(1)]
      by (auto simp: locate_walk straight_def proper_join components_join walk_append place_def plain_def
          split: sum.splits if_splits dest: walk_norm)
    ultimately show ?thesis using C(4) q(2) by simp
  qed
  have here: "?n0 \<in> set (dir_order ?e (children (files s') MNT_PLACE))" "is_dir ?e (?path ?n0) s'"
    using mp C(1,2) by (auto simp: ord children_iff dir_at_def is_dir_iff [OF nf])
  obtain p where p: "find (\<lambda>p. is_dir ?e p s') (map ?path (dir_order ?e (children (files s') MNT_PLACE))) = Some p"
    using here by (cases "find (\<lambda>p. is_dir ?e p s') (map ?path (dir_order ?e (children (files s') MNT_PLACE)))")
      (auto simp: find_None_iff)
  then have "p = ?path ?n0" using only by (auto dest!: find_in_set)
  with p list show ?thesis by (simp add: file_sd_def)
qed

text \<open>
  C16: a file storage domain reads back as it was created. When \<open>StorageDomain.create\<close> has succeeded,
  \<open>StorageDomain.getInfo\<close> finds the domain below its mount and returns the name (trimmed), type,
  class, version, block size and remote path that were given, and leaves the state alone.
\<close>

theorem file_domain_roundtrip:
  assumes "fresh_file_domain c sp s" "create_sd c sp s = (Inr j, s')"
  shows "\<exists>v. get_info c (sp_uuid sp) s' = (Inr v, s') \<and>
    json_get v ''uuid'' = Some (JStr (sp_uuid sp)) \<and>
    json_get v ''name'' = Some (JStr (trim (sp_name sp))) \<and>
    json_get v ''type'' = Some (JStr (type_to_str (sp_type sp))) \<and>
    json_get v ''class'' = Some (JStr (class_to_str (sp_class sp))) \<and>
    json_get v ''version'' = Some (JStr (int_dec (sp_version sp))) \<and>
    json_get v ''block_size'' = Some (JStr (int_dec (sp_block_size sp))) \<and>
    json_get v ''remotePath'' = Some (JStr (trim (sp_typeargs sp)))"
proof -
  let ?m = "parse_kv (sd_metadata sp)"
  have nf: "no_faults (sys (bus c))" and vg: "vg_exists c (sp_uuid sp) s' = (False, s')"
    and u: "sp_uuid sp \<noteq> []" and ty: "\<not> is_block_type (sp_type sp)" and texts: "spec_text_ok sp"
    using assms(1) by (simp_all add: fresh_file_domain_def plain_def)
  note C = created_sd [OF assms]
  have read: "read_to_string (sys (bus c)) (sd_metadata_path (File (sd_dir sp))) s' = Inr (sd_metadata sp)"
    using C(3) sd_metadata_valid [OF texts] by (simp add: read_to_string_def)
  have ex: "path_exists (sys (bus c)) (sd_metadata_path (File (sd_dir sp))) s'"
    using C(3) by (auto simp: fs_read_iff [OF nf] path_exists_iff [OF nf])
  have info: "get_info c (sp_uuid sp) s' = (Inr (sd_info_json (sp_uuid sp) ?m), s')"
    using u vg created_sd_found [OF assms] read ex by (simp add: get_info_def find_backend_def Let_def)
  have get: "kv_get ?m ''DESCRIPTION'' = trim (sp_name sp)" "kv_get ?m ''TYPE'' = type_to_str (sp_type sp)"
    "kv_get ?m ''CLASS'' = class_to_str (sp_class sp)" "kv_get ?m ''VERSION'' = int_dec (sp_version sp)"
    "kv_get ?m ''BLOCK_SIZE'' = int_dec (sp_block_size sp)" "kv_get ?m ''REMOTE_PATH'' = trim (sp_typeargs sp)"
    using sd_metadata_get [OF texts] ty by (auto simp: sd_fields_def remote_path_def)
  show ?thesis
    unfolding info by (simp add: sd_info_json_def json_get_obj get)
qed

definition sample_sd :: sd_spec where
  "sample_sd =
     \<lparr>sp_uuid = ''u1'', sp_typeargs = ''srv:/a_b'', sp_name = '' my data'', sp_class = 1, sp_type = 1,
      sp_block_size = 512, sp_version = 5\<rparr>"

theorem file_domain_roundtrip_witness:
  "\<exists>v s'. snd (create_sd sample_ctx sample_sd mounted_os) = s' \<and>
     get_info sample_ctx ''u1'' s' = (Inr v, s') \<and> json_get v ''name'' = Some (JStr ''my data'')"
proof -
  let ?md = "''/rhev/data-center/mnt/srv:_a_b/u1/dom_md''"
  have vg: "vg_exists sample_ctx ''u1'' s = (False, s)" for s
  proof -
    have "trim (from_utf8_lossy ''x'') \<noteq> ''u1''" by code_simp
    then show ?thesis by (simp add: vg_exists_def sample_ctx_def sample_bus_def sample_env_def)
  qed
  have fresh: "fresh_file_domain sample_ctx sample_sd mounted_os"
    using vg by (simp add: fresh_file_domain_def sample_sd_def is_block_type_def plain_def spec_text_ok_def value_ok_def
        no_faults_def sample_ctx_def sample_bus_def sample_env_def mounted_os_def children_def MNT_PLACE_def
        dir_at_def node_at_def)
  have "fst (file_layout sample_ctx sample_sd mounted_os) = Inr ?md" by code_simp
  moreover have "fst (fs_write (sys (bus sample_ctx)) (path_join ?md ''metadata'') (sd_metadata sample_sd)
      (snd (file_layout sample_ctx sample_sd mounted_os))) = Inr ()" by code_simp
  moreover obtain s1 where "file_layout sample_ctx sample_sd mounted_os = (Inr ?md, s1)"
    using calculation(1) by (cases "file_layout sample_ctx sample_sd mounted_os") auto
  ultimately obtain j s' where ok: "create_sd sample_ctx sample_sd mounted_os = (Inr j, s')"
    by (fastforce simp: create_sd_def sample_sd_def is_block_type_def split: prod.splits sum.splits)
  have "trim '' my data'' = ''my data''" by code_simp
  with file_domain_roundtrip [OF fresh ok] ok show ?thesis by (auto simp: sample_sd_def)
qed

end
