(* ===== verification/Storage_Volumes.thy ===== *)
theory Storage_Volumes
  imports Storage_Domain
begin

text \<open>
  \<open>crates/vdsm-storage/src/volumes.rs\<close>: volumes and images. On a file domain a volume is an image file
  with a metadata file beside it; on a block domain it is a logical volume with its metadata
  in the state directory. Image files are made by \<open>qemu-img\<close>, logical volumes by the privileged
  helper.
\<close>

section \<open>Metadata\<close>

definition ZERO_UUID :: string where
  "ZERO_UUID = ''00000000-0000-0000-0000-000000000000''"

definition vol_format_str :: "int \<Rightarrow> string" where
  "vol_format_str v = (if v = 4 then ''COW'' else ''RAW'')"

definition vol_alloc_str :: "int \<Rightarrow> string" where
  "vol_alloc_str v = (if v = 1 then ''PREALLOCATED'' else ''SPARSE'')"

record vol_spec =
  vs_vol :: string
  vs_sd :: string
  vs_img :: string
  vs_size :: u64
  vs_fmt :: int
  vs_prealloc :: int
  vs_desc :: string
  vs_src :: string
  vs_disk_type :: string

definition vol_spec_of :: "json \<Rightarrow> vol_spec" where
  "vol_spec_of params =
     \<lparr>vs_vol = str_param params ''volumeID'' [],
      vs_sd = str_param params ''storagedomainID'' [],
      vs_img = str_param params ''imageID'' [],
      vs_size = unwrap_or 1073741824
        (Option.bind (Option.bind (json_get params ''size'') as_str) parse_u64),
      vs_fmt = int_param params ''volFormat'' 5,
      vs_prealloc = int_param params ''preallocate'' 0,
      vs_desc = str_param params ''desc'' [],
      vs_src = str_param params ''srcVolUUID'' ZERO_UUID,
      vs_disk_type = str_param params ''diskType'' ''DATA''\<rparr>"

text \<open>The fields of \<open>build_meta\<close>; the creation time is the second argument.\<close>

definition vol_fields :: "vol_spec \<times> u64 \<Rightarrow> (string \<times> string) list" where
  "vol_fields vt =
     (let v = fst vt
      in [(''CAP'', u64_str (vs_size v)),
          (''CTIME'', u64_str (snd vt)),
          (''DESCRIPTION'', vs_desc v),
          (''DISKTYPE'', vs_disk_type v),
          (''DOMAIN'', vs_sd v),
          (''FORMAT'', vol_format_str (vs_fmt v)),
          (''GEN'', ''0''),
          (''IMAGE'', vs_img v),
          (''LEGALITY'', ''LEGAL''),
          (''PUUID'', vs_src v),
          (''TYPE'', vol_alloc_str (vs_prealloc v)),
          (''VOLTYPE'', ''LEAF'')])"

definition build_meta :: "vol_spec \<Rightarrow> u64 \<Rightarrow> string" where
  "build_meta v ctime = render_kv (vol_fields (v, ctime)) @ ''EOF'' @ [NL]"

section \<open>Creating volumes\<close>

definition img_dir_of :: "string \<Rightarrow> string \<Rightarrow> string" where
  "img_dir_of base img = path_join (path_join base ''images'') img"

definition create_file_volume ::
  "'x ctx \<Rightarrow> string \<Rightarrow> string \<Rightarrow> string \<Rightarrow> u64 \<Rightarrow> string \<Rightarrow> string \<Rightarrow> string \<Rightarrow> 'x os \<Rightarrow> (jsonrpc_error, unit) result \<times> 'x os" where
  "create_file_volume c sdp img vol sz qemu_fmt alloc_str meta_blob s =
     (let img_dir = img_dir_of sdp img
      in case create_dir_all (sys (bus c)) img_dir s of
           (Inl m, s1) \<Rightarrow> (Inl (internal (''mkdir '' @ img_dir @ '': '' @ m)), s1)
         | (Inr _, s1) \<Rightarrow>
             (let args = [''create'', ''-f'', qemu_fmt] @
                    (if alloc_str = ''PREALLOCATED'' then [''-o'', ''preallocation=falloc''] else []) @
                    [path_join img_dir vol, u64_str sz]
              in case sys_exec c ''/usr/bin/qemu-img'' args s1 of
                   (Inl m, s2) \<Rightarrow> (Inl (internal (''qemu-img spawn: '' @ m)), s2)
                 | (Inr r, s2) \<Rightarrow>
                     (if \<not> success r then
                        (Inl (internal (''qemu-img create: '' @ from_utf8_lossy (stderr_bytes r))), s2)
                      else
                        (case fs_write (sys (bus c)) (path_join img_dir (vol @ ''.meta'')) meta_blob s2 of
                           (Inl m, s3) \<Rightarrow> (Inl (internal (''write .meta: '' @ m)), s3)
                         | (Inr _, s3) \<Rightarrow>
                             (Inr (), snd (fs_write (sys (bus c)) (path_join img_dir (vol @ ''.lease''))
                                (replicate (1024 * 1024) NUL) s3))))))"

definition EXTENT_BYTES :: u64 where
  "EXTENT_BYTES = 128 * 1024 * 1024"

text \<open>\<open>u64::div_ceil\<close> and the product, which wraps around in a release build.\<close>

definition div_ceil :: "u64 \<Rightarrow> u64 \<Rightarrow> u64" where
  "div_ceil a b = (if a mod b = 0 then a div b else a div b + 1)"

definition rounded_size :: "u64 \<Rightarrow> u64" where
  "rounded_size n = div_ceil n EXTENT_BYTES * EXTENT_BYTES"

definition create_block_volume ::
  "'x ctx \<Rightarrow> string \<Rightarrow> string \<Rightarrow> string \<Rightarrow> string \<Rightarrow> u64 \<Rightarrow> string \<Rightarrow> string \<Rightarrow> 'x os \<Rightarrow> (jsonrpc_error, unit) result \<times> 'x os" where
  "create_block_volume c vg state img vol sz qemu_fmt meta_blob s =
     (case run (bus c) (Lvcreate vg vol (rounded_size sz)) s of
        (None, s1) \<Rightarrow> (Inl (internal (''lvcreate failed for '' @ vg @ ''/'' @ vol)), s1)
      | (Some _, s1) \<Rightarrow>
          (let dev = ''/dev/'' @ vg @ ''/'' @ vol
           in case (if qemu_fmt = ''qcow2'' then
                      (case sys_exec c ''/usr/bin/qemu-img'' [''create'', ''-f'', ''qcow2'', dev, u64_str sz] s1 of
                         (Inl m, s2) \<Rightarrow> (Inl (internal (''qemu-img spawn: '' @ m)), s2)
                       | (Inr r, s2) \<Rightarrow>
                           (if success r then (Inr (), s2)
                            else (Inl (internal (''qemu-img create qcow2-on-LV: '' @ from_utf8_lossy (stderr_bytes r))),
                                  snd (run (bus c) (Lvremove vg vol) s2))))
                    else (Inr (), s1)) of
                (Inl e, s2) \<Rightarrow> (Inl e, s2)
              | (Inr _, s2) \<Rightarrow>
                  (let meta_dir = img_dir_of state img
                   in case create_dir_all (sys (bus c)) meta_dir s2 of
                        (Inl m, s3) \<Rightarrow> (Inl (internal (''mkdir state '' @ meta_dir @ '': '' @ m)), s3)
                      | (Inr _, s3) \<Rightarrow>
                          (case fs_write (sys (bus c)) (path_join meta_dir (vol @ ''.meta'')) meta_blob s3 of
                             (Inl m, s4) \<Rightarrow> (Inl (internal (''write block .meta: '' @ m)), s4)
                           | (Inr _, s4) \<Rightarrow> (Inr (), s4)))))"

definition sd_not_found :: "string \<Rightarrow> jsonrpc_error" where
  "sd_not_found sd = internal (''SD '' @ sd @ '' not found'')"

definition vol_create :: "'x ctx \<Rightarrow> vol_spec \<Rightarrow> 'x os \<Rightarrow> (jsonrpc_error, json) result \<times> 'x os" where
  "vol_create c v s =
     (if vs_vol v = [] \<or> vs_sd v = [] \<or> vs_img v = [] then
        (Inl (invalid_params ''volumeID/storagedomainID/imageID required''), s)
      else
        (let fmt_str = vol_format_str (vs_fmt v); alloc_str = vol_alloc_str (vs_prealloc v);
             qemu_fmt = (if fmt_str = ''COW'' then ''qcow2'' else ''raw'');
             meta_blob = build_meta v (now_secs s)
         in case (case find_backend c (vs_sd v) s of
                    (Some (File p), s1) \<Rightarrow>
                      create_file_volume c p (vs_img v) (vs_vol v) (vs_size v) qemu_fmt alloc_str meta_blob s1
                  | (Some (Block vg d), s1) \<Rightarrow>
                      create_block_volume c vg d (vs_img v) (vs_vol v) (vs_size v) qemu_fmt meta_blob s1
                  | (None, s1) \<Rightarrow> (Inl (sd_not_found (vs_sd v)), s1)) of
              (Inl e, s2) \<Rightarrow> (Inl e, s2)
            | (Inr _, s2) \<Rightarrow> (Inr (json_obj [(''uuid'', JStr (vs_vol v))]), s2)))"

definition volume_create :: "'x ctx \<Rightarrow> 'x storage handler" where
  "volume_create c params = on_machine (vol_create c (vol_spec_of params))"

section \<open>Reading volumes\<close>

definition lv_size_bytes :: "'x ctx \<Rightarrow> string \<Rightarrow> string \<Rightarrow> 'x os \<Rightarrow> u64 option \<times> 'x os" where
  "lv_size_bytes c vg lv s =
     (case sys_exec c ''/usr/sbin/lvs''
             [''--noheadings'', ''--units'', ''B'', ''--nosuffix'', ''-o'', ''lv_size'', vg @ ''/'' @ lv] s of
        (Inl m, s1) \<Rightarrow> (None, s1)
      | (Inr r, s1) \<Rightarrow>
          (if success r then parse_u64 (trim (from_utf8_lossy (stdout_bytes r))) else None, s1))"

definition vol_info_json :: "string \<Rightarrow> string \<Rightarrow> string \<Rightarrow> u64 \<Rightarrow> (string, string) hmap \<Rightarrow> json" where
  "vol_info_json sd img vol apparent m =
     json_obj
       [(''uuid'', JStr vol),
        (''image'', JStr img),
        (''domain'', JStr sd),
        (''voltype'', JStr (kv_get m ''VOLTYPE'')),
        (''format'', JStr (kv_get m ''FORMAT'')),
        (''type'', JStr (kv_get m ''TYPE'')),
        (''disktype'', JStr (kv_get m ''DISKTYPE'')),
        (''capacity'', JStr (kv_get m ''CAP'')),
        (''apparentsize'', JStr (u64_str apparent)),
        (''truesize'', JStr (u64_str apparent)),
        (''parent'', JStr (kv_get m ''PUUID'')),
        (''description'', JStr (kv_get m ''DESCRIPTION'')),
        (''legality'', JStr (kv_get m ''LEGALITY'')),
        (''ctime'', JStr (kv_get m ''CTIME'')),
        (''mtime'', JStr ''0''),
        (''status'', JStr ''OK''),
        (''children'', JArr [])]"

definition vol_get_info :: "'x ctx \<Rightarrow> string \<Rightarrow> string \<Rightarrow> string \<Rightarrow> 'x os \<Rightarrow> (jsonrpc_error, json) result \<times> 'x os" where
  "vol_get_info c sd img vol s =
     (case find_backend c sd s of
        (None, s1) \<Rightarrow> (Inl (sd_not_found sd), s1)
      | (Some b, s1) \<Rightarrow>
          (case (case b of
                   File p \<Rightarrow>
                     ((path_join (img_dir_of p img) (vol @ ''.meta''),
                       unwrap_or 0 (metadata_len (sys (bus c)) (path_join (img_dir_of p img) vol) s1)), s1)
                 | Block vg d \<Rightarrow>
                     (case lv_size_bytes c vg vol s1 of
                        (n, s2) \<Rightarrow> ((path_join (img_dir_of d img) (vol @ ''.meta''), unwrap_or 0 n), s2))) of
             ((meta_path, apparent), s2) \<Rightarrow>
               (case read_to_string (sys (bus c)) meta_path s2 of
                  Inl m \<Rightarrow> (Inl (internal (''read meta: '' @ m)), s2)
                | Inr content \<Rightarrow> (Inr (vol_info_json sd img vol apparent (parse_kv content)), s2))))"

definition volume_get_info :: "'x ctx \<Rightarrow> 'x storage handler" where
  "volume_get_info c params =
     on_machine (vol_get_info c (str_param params ''storagedomainID'' []) (str_param params ''imageID'' [])
       (str_param params ''volumeID'' []))"

definition volume_get_size :: "'x ctx \<Rightarrow> 'x storage handler" where
  "volume_get_size c params st =
     (case volume_get_info c params st of
        (Inl e, st1) \<Rightarrow> (Inl e, st1)
      | (Inr info, st1) \<Rightarrow>
          (Inr (json_obj
             [(''apparentsize'', unwrap_or (JStr ''0'') (json_get info ''apparentsize'')),
              (''truesize'', unwrap_or (JStr ''0'') (json_get info ''truesize''))]), st1))"

section \<open>Deleting volumes and images\<close>

definition vol_delete :: "'x ctx \<Rightarrow> string \<Rightarrow> string \<Rightarrow> string \<Rightarrow> 'x os \<Rightarrow> (jsonrpc_error, json) result \<times> 'x os" where
  "vol_delete c sd img vol s =
     (case find_backend c sd s of
        (Some (File p), s1) \<Rightarrow>
          (let e = sys (bus c); d = img_dir_of p img;
               s2 = snd (remove_file e (path_join d vol) s1);
               s3 = snd (remove_file e (path_join d (vol @ ''.meta'')) s2);
               s4 = snd (remove_file e (path_join d (vol @ ''.lease'')) s3)
           in (Inr (json_obj []), s4))
      | (Some (Block vg d), s1) \<Rightarrow>
          (let s2 = snd (run (bus c) (Lvremove vg vol) s1);
               s3 = snd (remove_file (sys (bus c)) (path_join (img_dir_of d img) (vol @ ''.meta'')) s2)
           in (Inr (json_obj []), s3))
      | (None, s1) \<Rightarrow> (Inr (json_obj []), s1))"

definition volume_delete :: "'x ctx \<Rightarrow> 'x storage handler" where
  "volume_delete c params =
     on_machine (vol_delete c (str_param params ''storagedomainID'' []) (str_param params ''imageID'' [])
       (str_param params ''volumeID'' []))"

definition img_prepare :: "'x ctx \<Rightarrow> string \<Rightarrow> string \<Rightarrow> string \<Rightarrow> 'x os \<Rightarrow> (jsonrpc_error, json) result \<times> 'x os" where
  "img_prepare c sd img vol s =
     (case find_backend c sd s of
        (Some (File p), s1) \<Rightarrow>
          (let vp = path_join (img_dir_of p img) vol
           in if \<not> path_exists (sys (bus c)) vp s1 then (Inl (internal (''volume '' @ vp @ '' missing'')), s1)
              else (Inr (json_obj [(''path'', JStr vp)]), s1))
      | (Some (Block vg d), s1) \<Rightarrow>
          (case run (bus c) (Lvchange vg vol True) s1 of
             (None, s2) \<Rightarrow> (Inl (internal (''lvchange -ay '' @ vg @ ''/'' @ vol)), s2)
           | (Some _, s2) \<Rightarrow>
               (let dev = ''/dev/'' @ vg @ ''/'' @ vol
                in if \<not> path_exists (sys (bus c)) dev s2 then
                     (Inl (internal (''device '' @ dev @ '' did not appear'')), s2)
                   else (Inr (json_obj [(''path'', JStr dev)]), s2)))
      | (None, s1) \<Rightarrow> (Inl (sd_not_found sd), s1))"

definition image_prepare :: "'x ctx \<Rightarrow> 'x storage handler" where
  "image_prepare c params =
     on_machine (img_prepare c (str_param params ''storagedomainID'' []) (str_param params ''imageID'' [])
       (str_param params ''volumeID'' []))"

definition img_teardown :: "'x ctx \<Rightarrow> string \<Rightarrow> string \<Rightarrow> 'x os \<Rightarrow> (jsonrpc_error, json) result \<times> 'x os" where
  "img_teardown c sd vol s =
     (case find_backend c sd s of
        (Some (Block vg d), s1) \<Rightarrow>
          (Inr (json_obj []), if vol \<noteq> [] then snd (run (bus c) (Lvchange vg vol False) s1) else s1)
      | (_, s1) \<Rightarrow> (Inr (json_obj []), s1))"

definition image_teardown :: "'x ctx \<Rightarrow> 'x storage handler" where
  "image_teardown c params =
     on_machine (img_teardown c (str_param params ''storagedomainID'' []) (str_param params ''volumeID'' []))"

fun lvremove_each :: "'x ctx \<Rightarrow> string \<Rightarrow> string list \<Rightarrow> 'x os \<Rightarrow> 'x os" where
  "lvremove_each c vg [] s = s"
| "lvremove_each c vg (n # ns) s =
     (case strip_suffix ''.meta'' (from_utf8_lossy n) of
        Some vol \<Rightarrow> lvremove_each c vg ns (snd (run (bus c) (Lvremove vg vol) s))
      | None \<Rightarrow> lvremove_each c vg ns s)"

definition img_delete :: "'x ctx \<Rightarrow> string \<Rightarrow> string \<Rightarrow> 'x os \<Rightarrow> (jsonrpc_error, json) result \<times> 'x os" where
  "img_delete c sd img s =
     (case find_backend c sd s of
        (Some (File p), s1) \<Rightarrow>
          (Inr (json_obj []), snd (remove_dir_all (sys (bus c)) (img_dir_of p img) s1))
      | (Some (Block vg d), s1) \<Rightarrow>
          (let dir = img_dir_of d img;
               s2 = (case read_dir (sys (bus c)) dir s1 of
                       Inr ns \<Rightarrow> lvremove_each c vg ns s1
                     | Inl _ \<Rightarrow> s1)
           in (Inr (json_obj []), snd (remove_dir_all (sys (bus c)) dir s2)))
      | (None, s1) \<Rightarrow> (Inr (json_obj []), s1))"

definition image_delete :: "'x ctx \<Rightarrow> 'x storage handler" where
  "image_delete c params =
     on_machine (img_delete c (str_param params ''storagedomainID'' []) (str_param params ''imageID'' []))"

definition image_delete_volumes :: "'x ctx \<Rightarrow> 'x storage handler" where
  "image_delete_volumes c params = image_delete c params"

section \<open>Volume metadata\<close>

interpretation vol_meta: kv_format vol_fields "''EOF'' @ [NL]"
proof
  fix k and v :: "vol_spec \<times> u64"
  show "k \<in> fst ` set (vol_fields v) \<Longrightarrow> key_ok k"
    by (auto simp: vol_fields_def Let_def graphic_char_def intro!: graphic_key)
  show "distinct (map fst (vol_fields v))" by (simp add: vol_fields_def Let_def)
  show "list_all (\<lambda>l. CHR ''='' \<notin> set l) (str_lines (''EOF'' @ [NL]))" by code_simp
qed

lemma build_meta_blob: "build_meta v t = vol_meta.blob (v, t)"
  by (simp only: build_meta_def vol_meta.blob_def)

definition vol_text_ok :: "vol_spec \<Rightarrow> bool" where
  "vol_text_ok v \<longleftrightarrow>
     list_all (\<lambda>t. value_ok t \<and> utf8_valid t) [vs_desc v, vs_disk_type v, vs_sd v, vs_img v, vs_src v]"

lemma vol_tag_graphic [simp]: "graphic (vol_format_str k)" "graphic (vol_alloc_str t)" "graphic (u64_str n)"
  by (simp_all add: vol_format_str_def vol_alloc_str_def graphic_char_def u64_str_def)

lemma vol_values_ok: "vol_text_ok v \<Longrightarrow> \<forall>x \<in> snd ` set (vol_fields (v, t)). value_ok x"
  by (simp add: vol_fields_def vol_text_ok_def Let_def graphic_char_def)

lemma build_meta_valid: "vol_text_ok v \<Longrightarrow> utf8_valid (build_meta v t)"
  unfolding build_meta_def
  by (intro utf8_valid_append render_kv_valid) (simp_all add: vol_fields_def vol_text_ok_def Let_def)

lemma build_meta_get: "vol_text_ok v \<Longrightarrow> (k, x) \<in> set (vol_fields (v, t)) \<Longrightarrow> kv_get (parse_kv (build_meta v t)) k = trim x"
  unfolding build_meta_blob by (rule vol_meta.blob_get [OF vol_values_ok])

section \<open>Properties of volumes\<close>

lemma create_file_volume_meta:
  assumes nf: "no_faults (sys (bus c))" and st: "straight (img_dir_of p img)" and pl: "plain vol"
    and ok: "create_file_volume c p img vol sz fmt alloc blob s = (Inr (), s')"
  shows "fs_read (sys (bus c)) (path_join (img_dir_of p img) (vol @ ''.meta'')) s' = Inr blob"
proof -
  let ?d = "img_dir_of p img" and ?e = "sys (bus c)"
  obtain s2 s3 where w: "fs_write ?e (path_join ?d (vol @ ''.meta'')) blob s2 = (Inr (), s3)"
    and s': "s' = snd (fs_write ?e (path_join ?d (vol @ ''.lease'')) (replicate (1024 * 1024) NUL) s3)"
    using ok by (auto simp: create_file_volume_def Let_def split: prod.splits sum.splits if_splits)
  obtain r where lease: "fs_write ?e (path_join ?d (vol @ ''.lease'')) (replicate (1024 * 1024) NUL) s3 = (r, s')"
    using s' by (metis prod.collapse)
  have pm: "plain (vol @ ''.meta'')" "plain (vol @ ''.lease'')" using pl by (auto simp: plain_def)
  from fs_write_read [OF nf w] obtain q where q: "locate (files s3) (path_join ?d (vol @ ''.meta'')) = Inr q"
      "node_at (files s3) q = Some (NFile blob)"
    by (auto simp: fs_read_iff [OF nf])
  then have qp: "q = place ?d @ [vol @ ''.meta'']"
    using locate_place [OF straight_join [OF pm(1) st]] place_join [OF pm(1) st] by simp
  have "locate (files s3) (path_join ?d (vol @ ''.lease'')) \<noteq> Inr q"
    using locate_place [OF straight_join [OF pm(2) st]] place_join [OF pm(2) st] qp by force
  then have n: "node_at (files s') q = Some (NFile blob)" using fs_write_spec(2) [OF nf lease] q(2) by simp
  have "locate (files s') (path_join ?d (vol @ ''.meta'')) = Inr q"
    using q(1) locate_dirs [OF fs_write_spec(1) [OF nf lease]] by simp
  with n show ?thesis by (auto simp: fs_read_iff [OF nf])
qed

text \<open>
  C20: a volume of a file domain reads back as it was created. When \<open>Volume.create\<close> has succeeded and the
  domain is still found at its place, \<open>Volume.getInfo\<close> returns the capacity, format, allocation
  type, disk type, parent and (trimmed) description that were given, as a legal leaf volume.
\<close>

theorem file_volume_roundtrip:
  assumes "no_faults (sys (bus c))" "vol_text_ok v" "plain (vs_vol v)" "straight (img_dir_of p (vs_img v))"
    and "find_backend c (vs_sd v) s = (Some (File p), s1)"
    and "vol_create c v s = (Inr j, s')" "find_backend c (vs_sd v) s' = (Some (File p), s')"
  shows "\<exists>i. vol_get_info c (vs_sd v) (vs_img v) (vs_vol v) s' = (Inr i, s') \<and>
    json_get i ''uuid'' = Some (JStr (vs_vol v)) \<and>
    json_get i ''capacity'' = Some (JStr (u64_str (vs_size v))) \<and>
    json_get i ''format'' = Some (JStr (vol_format_str (vs_fmt v))) \<and>
    json_get i ''type'' = Some (JStr (vol_alloc_str (vs_prealloc v))) \<and>
    json_get i ''disktype'' = Some (JStr (trim (vs_disk_type v))) \<and>
    json_get i ''parent'' = Some (JStr (trim (vs_src v))) \<and>
    json_get i ''description'' = Some (JStr (trim (vs_desc v))) \<and>
    json_get i ''legality'' = Some (JStr ''LEGAL'') \<and> json_get i ''voltype'' = Some (JStr ''LEAF'')"
proof -
  let ?blob = "build_meta v (now_secs s)" and ?d = "img_dir_of p (vs_img v)"
  let ?fmt = "if vol_format_str (vs_fmt v) = ''COW'' then ''qcow2'' else ''raw''"
  have "create_file_volume c p (vs_img v) (vs_vol v) (vs_size v) ?fmt (vol_alloc_str (vs_prealloc v)) ?blob s1 = (Inr (), s')"
    using assms(5,6) by (auto simp: vol_create_def Let_def split: if_splits prod.splits sum.splits)
  from create_file_volume_meta [OF assms(1,4,3) this]
  have read: "read_to_string (sys (bus c)) (path_join ?d (vs_vol v @ ''.meta'')) s' = Inr ?blob"
    using build_meta_valid [OF assms(2)] by (simp add: read_to_string_def)
  have get: "kv_get (parse_kv ?blob) k = trim x" if "(k, x) \<in> set (vol_fields (v, now_secs s))" for k x
    by (rule build_meta_get [OF assms(2) that])
  show ?thesis
    using assms(7) read
    by (simp add: vol_get_info_def vol_info_json_def json_get_obj get vol_fields_def Let_def)
      (simp add: graphic_char_def)
qed

text \<open>
  C23: \<open>getInfo\<close> can be deceived by the description. A description with a line feed adds lines to the
  metadata file, and the reader lets the last line of a key win: with \<open>CAP=x\<close> on its
  second line the reported capacity is \<open>x\<close>, whatever the size of the volume.
\<close>

theorem volume_description_injection:
  assumes "vol_text_ok (v\<lparr>vs_desc := d\<rparr>)" "value_ok x"
  shows "kv_get (parse_kv (build_meta (v\<lparr>vs_desc := d @ [NL] @ ''CAP='' @ x\<rparr>) t)) ''CAP'' = trim x"
proof -
  let ?f = "vol_fields (v\<lparr>vs_desc := d\<rparr>, t)"
  let ?kvs = "take 3 ?f @ [(''CAP'', x)] @ drop 3 ?f"
  have blob: "build_meta (v\<lparr>vs_desc := d @ [NL] @ ''CAP='' @ x\<rparr>) t = render_kv ?kvs @ ''EOF'' @ [NL]"
    by (simp add: build_meta_def vol_fields_def Let_def)
  have "list_all (\<lambda>(k, v). key_ok k \<and> value_ok v) ?kvs"
    using vol_meta.keys_ok [of _ "(v\<lparr>vs_desc := d\<rparr>, t)"] assms
    by (simp add: vol_fields_def vol_text_ok_def Let_def graphic_char_def)
  from parse_render [OF this vol_meta.tail_plain]
  have "hm_get (parse_kv (render_kv ?kvs @ ''EOF'' @ [NL])) ''CAP'' = Some (trim x)"
    by (simp only: hm.lookup_fill [OF hm.ok_empty]) (simp add: vol_fields_def Let_def)
  then show ?thesis unfolding blob by (simp add: kv_get_def)
qed

definition sample_vol :: vol_spec where
  "sample_vol =
     \<lparr>vs_vol = ''v1'', vs_sd = ''u1'', vs_img = ''i1'', vs_size = 1073741824, vs_fmt = 4, vs_prealloc = 0,
      vs_desc = ''disk'', vs_src = ZERO_UUID, vs_disk_type = ''DATA''\<rparr>"

lemma sample_vol_text: "vol_text_ok sample_vol" "sample_vol\<lparr>vs_desc := ''disk''\<rparr> = sample_vol"
  by (simp_all add: vol_text_ok_def sample_vol_def ZERO_UUID_def graphic_char_def)

theorem volume_description_injection_witness:
  "kv_get (parse_kv (build_meta (sample_vol\<lparr>vs_desc := ''disk'' @ [NL] @ ''CAP='' @ ''1''\<rparr>) 0)) ''CAP'' = ''1''"
  using volume_description_injection [where v = sample_vol and d = "''disk''" and x = "''1''" and t = 0] sample_vol_text
  by (simp add: graphic_char_def)

lemma round_up:
  fixes m k :: nat
  assumes "0 < k"
  shows "m \<le> (if m mod k = 0 then m div k else m div k + 1) * k \<and>
    (if m mod k = 0 then m div k else m div k + 1) * k < m + k"
proof -
  have "m div k * k + m mod k = m" "m mod k < k" "(m div k + 1) * k = m div k * k + k"
    using assms by simp_all
  then show ?thesis by (cases "m mod k = 0") (simp_all only: if_True if_False simp_thms, linarith+)
qed

text \<open>
  C21: the size of a logical volume is the size asked for rounded up to a whole number of 128 MiB
  extents: it is enough and less than one extent too much. The product is a 64-bit one, so the
  last 128 MiB of sizes wrap around to a volume of size zero.
\<close>

theorem rounded_size_bounds:
  "let m = unat n; r = unat (rounded_size n)
   in if m \<le> 2 ^ 64 - 2 ^ 27 then 2 ^ 27 dvd r \<and> m \<le> r \<and> r < m + 2 ^ 27 else r = 0"
proof -
  let ?m = "unat n" and ?k = "(2::nat) ^ 27"
  have E: "EXTENT_BYTES = 134217728" by (simp add: EXTENT_BYTES_def)
  have m: "?m < 2 ^ 64" using unsigned_less [of n] by simp
  have c: "unat (div_ceil n EXTENT_BYTES) = (if ?m mod ?k = 0 then ?m div ?k else ?m div ?k + 1)"
  proof -
    have "n mod 134217728 = 0 \<longleftrightarrow> ?m mod ?k = 0"
      by (simp add: unat_mod_distrib flip: unat_eq_0)
    moreover have "unat (n div 134217728 + 1) = ?m div ?k + 1"
      using m by (simp add: unat_word_ariths unat_div_distrib)
    ultimately show ?thesis by (simp add: div_ceil_def E unat_div_distrib)
  qed
  have r: "unat (rounded_size n) = (unat (div_ceil n EXTENT_BYTES) * ?k) mod 2 ^ 64"
    by (simp add: rounded_size_def E unat_word_ariths)
  let ?p = "unat (div_ceil n EXTENT_BYTES) * ?k"
  have p: "?m \<le> ?p \<and> ?p < ?m + ?k" unfolding c by (rule round_up) simp
  show ?thesis
  proof (cases "?m \<le> 2 ^ 64 - 2 ^ 27")
    case True
    with p have "?p < 2 ^ 64" by simp
    with r p True show ?thesis by (simp add: Let_def)
  next
    case False
    then have "2 ^ 64 - ?k < ?p" "?p < 2 ^ 64 + ?k" using p m by simp_all
    then have "?p = 2 ^ 64" by simp
    with r False show ?thesis by (simp add: Let_def)
  qed
qed


text \<open>A domain with an image, for the concrete instances.\<close>

definition domain_os :: "unit os" where
  "domain_os =
     mounted_os\<lparr>files := files mounted_os @
       [([''rhev'', ''data-center'', ''mnt'', ''srv:_a_b'', ''u1''], NDir),
        ([''rhev'', ''data-center'', ''mnt'', ''srv:_a_b'', ''u1'', ''images''], NDir),
        ([''rhev'', ''data-center'', ''mnt'', ''srv:_a_b'', ''u1'', ''images'', ''i0''], NDir)]\<rparr>"

definition domain_dir :: string where
  "domain_dir = ''/rhev/data-center/mnt/srv:_a_b/u1''"

lemma domain_os_found: "find_backend sample_ctx ''u1'' domain_os = (Some (File domain_dir), domain_os)"
  by code_simp

lemma domain_dir_straight: "straight domain_dir" "straight (img_dir_of domain_dir ''i1'')"
  by code_simp+


definition vol_os :: "bytes \<Rightarrow> bytes \<Rightarrow> unit os" where
  "vol_os b l =
     (let d = [''rhev'', ''data-center'', ''mnt'', ''srv:_a_b'', ''u1'', ''images'', ''i1'']
      in set_node (d @ [''v1.lease'']) (NFile l) (set_node (d @ [''v1.meta'']) (NFile b) (set_node d NDir domain_os)))"

lemma sample_dirs:
  "create_dir_all sample_env (img_dir_of domain_dir ''i1'') domain_os =
     (Inr (), set_node [''rhev'', ''data-center'', ''mnt'', ''srv:_a_b'', ''u1'', ''images'', ''i1''] NDir domain_os)"
  by code_simp

lemma sample_meta:
  "fs_write sample_env (path_join (img_dir_of domain_dir ''i1'') ''v1.meta'') b
     (set_node [''rhev'', ''data-center'', ''mnt'', ''srv:_a_b'', ''u1'', ''images'', ''i1''] NDir domain_os) =
   (Inr (), set_node [''rhev'', ''data-center'', ''mnt'', ''srv:_a_b'', ''u1'', ''images'', ''i1'', ''v1.meta''] (NFile b)
     (set_node [''rhev'', ''data-center'', ''mnt'', ''srv:_a_b'', ''u1'', ''images'', ''i1''] NDir domain_os))"
  by code_simp

lemma sample_lease:
  "fs_write sample_env (path_join (img_dir_of domain_dir ''i1'') ''v1.lease'') l
     (set_node [''rhev'', ''data-center'', ''mnt'', ''srv:_a_b'', ''u1'', ''images'', ''i1'', ''v1.meta''] (NFile b)
     (set_node [''rhev'', ''data-center'', ''mnt'', ''srv:_a_b'', ''u1'', ''images'', ''i1''] NDir domain_os)) =
   (Inr (), vol_os b l)"
  by code_simp

lemma vol_os_found: "find_backend sample_ctx ''u1'' (vol_os b l) = (Some (File domain_dir), vol_os b l)"
  by code_simp

lemma sample_vol_create:
  "\<exists>b l. vol_create sample_ctx sample_vol domain_os = (Inr (json_obj [(''uuid'', JStr ''v1'')]), vol_os b l)"
proof -
  have "sys (bus sample_ctx) = sample_env" by (simp add: sample_ctx_def sample_bus_def)
  moreover have "exec sample_env p a s = (Inr \<lparr>exit_code = Some 0, stdout_bytes = ''x'', stderr_bytes = []\<rparr>, s)" for p a s
    by (simp add: sample_env_def)
  ultimately have made: "\<exists>l. create_file_volume sample_ctx domain_dir ''i1'' ''v1'' sz f a b domain_os = (Inr (), vol_os b l)" for sz f a b
    by (auto simp: create_file_volume_def sample_dirs sample_meta sample_lease success_def Let_def)
  obtain l where "create_file_volume sample_ctx domain_dir ''i1'' ''v1'' sz f a b domain_os = (Inr (), vol_os b (l sz f a b))" for sz f a b
    using made by metis
  moreover have "vs_vol sample_vol = ''v1''" "vs_img sample_vol = ''i1''" "vs_sd sample_vol = ''u1''"
    by (simp_all add: sample_vol_def)
  ultimately show ?thesis unfolding vol_create_def Let_def by (auto simp: domain_os_found)
qed

theorem file_volume_roundtrip_witness:
  "\<exists>i s'. snd (vol_create sample_ctx sample_vol domain_os) = s' \<and>
     vol_get_info sample_ctx ''u1'' ''i1'' ''v1'' s' = (Inr i, s') \<and> json_get i ''description'' = Some (JStr ''disk'')"
proof -
  obtain b l where made: "vol_create sample_ctx sample_vol domain_os = (Inr (json_obj [(''uuid'', JStr ''v1'')]), vol_os b l)"
    using sample_vol_create by blast
  have nf: "no_faults (sys (bus sample_ctx))"
    by (simp add: no_faults_def sample_ctx_def sample_bus_def sample_env_def)
  have ids: "vs_vol sample_vol = ''v1''" "vs_img sample_vol = ''i1''" "vs_sd sample_vol = ''u1''"
      "vs_desc sample_vol = ''disk''" "plain ''v1''" "trim ''disk'' = ''disk''"
    by (simp_all add: sample_vol_def plain_def graphic_char_def)
  show ?thesis
    using file_volume_roundtrip [OF nf sample_vol_text(1) _ _ _ made] domain_os_found vol_os_found domain_dir_straight(2) made
    by (auto simp: ids)
qed

text \<open>
  The rollback of \<open>create_block_volume\<close> covers a \<open>qemu-img\<close> that fails, and not one that cannot be
  started: the call fails in the state \<open>lvcreate\<close> has left, logical volume included.
\<close>

lemma block_volume_orphan:
  assumes "run (bus c) (Lvcreate vg vol (rounded_size sz)) s = (Some out, s1)"
    and "sys_exec c ''/usr/bin/qemu-img'' [''create'', ''-f'', ''qcow2'', ''/dev/'' @ vg @ ''/'' @ vol, u64_str sz] s1 = (Inl m, s2)"
  shows "create_block_volume c vg d img vol sz ''qcow2'' blob s = (Inl (internal (''qemu-img spawn: '' @ m)), s2)"
  using assms by (simp add: create_block_volume_def Let_def)

end
