(* ===== verification/Storage_Block.thy ===== *)
theory Storage_Block
  imports Storage_Domain
begin

text \<open>
  \<open>crates/vdsm-storage/src/block.rs\<close>: iSCSI, Fibre Channel, LVM and multipath verbs. Queries are
  programs the daemon runs itself, and their JSON output is read by \<open>serde_json\<close>; everything
  that changes the system is an operation of the privileged helper.
\<close>

section \<open>Queries\<close>

definition query :: "'x ctx \<Rightarrow> string \<Rightarrow> string list \<Rightarrow> 'x os \<Rightarrow> string option \<times> 'x os" where
  "query c bin args s =
     (case sys_exec c bin args s of
        (Inl m, s1) \<Rightarrow> (None, s1)
      | (Inr r, s1) \<Rightarrow> (if \<not> success r then None else Some (from_utf8_lossy (stdout_bytes r)), s1))"

text \<open>\<open>serde_json::from_str(&raw).unwrap_or(json!({}))\<close>.\<close>

definition parsed_or_empty :: "'x ctx \<Rightarrow> string \<Rightarrow> json" where
  "parsed_or_empty c raw = unwrap_or (json_obj []) (parse_json c raw)"

text \<open>\<open>if let Some(xs) = v.get(k).and_then(as_array) { for x in xs ... }\<close>: the items to go through.\<close>

definition items_of :: "json \<Rightarrow> string \<Rightarrow> json list" where
  "items_of v k = unwrap_or [] (Option.bind (json_get v k) as_array)"

definition field_or :: "json \<Rightarrow> string \<Rightarrow> string \<Rightarrow> json" where
  "field_or v k d = unwrap_or (JStr d) (json_get v k)"

section \<open>iSCSI\<close>

definition target_default :: iscsi_target_spec where
  "target_default = \<lparr>ts_iqn = [], ts_portal = [], ts_port = [], ts_user = [], ts_password = [], ts_tpgt = []\<rparr>"

definition target_of :: "'x ctx \<Rightarrow> json \<Rightarrow> iscsi_target_spec" where
  "target_of c params = unwrap_or target_default (de_target c (unwrap_or params (json_get params ''con'')))"

definition portal_of :: "iscsi_target_spec \<Rightarrow> string" where
  "portal_of t = ts_portal t @ '':'' @ (if ts_port t = [] then ''3260'' else ts_port t)"

definition target_lines :: "string \<Rightarrow> (string \<times> string) list" where
  "target_lines raw =
     List.map_filter (\<lambda>l. case split_whitespace l of a # i # _ \<Rightarrow> Some (a, i) | _ \<Rightarrow> None) (str_lines raw)"

definition targets_json :: "(string \<times> string) list \<Rightarrow> json" where
  "targets_json ts =
     json_obj
       [(''fullTargets'', JArr (map (\<lambda>(a, i). json_obj [(''portal'', JStr a), (''iqn'', JStr i)]) ts)),
        (''targets'', JArr (map (\<lambda>(a, i). JStr i) ts))]"

definition iscsi_discover :: "'x ctx \<Rightarrow> iscsi_target_spec \<Rightarrow> 'x os \<Rightarrow> (jsonrpc_error, json) result \<times> 'x os" where
  "iscsi_discover c t s =
     (if ts_portal t = [] then (Inr (targets_json []), s)
      else
        (case run (bus c) (IscsiDiscover (portal_of t)) s of
           (raw, s1) \<Rightarrow> (Inr (targets_json (target_lines (unwrap_or [] raw))), s1)))"

definition iscsi_discover_send_targets :: "'x ctx \<Rightarrow> 'x storage handler" where
  "iscsi_discover_send_targets c params = on_machine (iscsi_discover c (target_of c params))"

definition iscsi_login :: "'x ctx \<Rightarrow> 'x storage handler" where
  "iscsi_login c params =
     on_machine (\<lambda>s.
       let t = target_of c params
       in if ts_iqn t = [] \<or> ts_portal t = [] then (Inl (invalid_params ''iqn + portal required''), s)
          else (Inr (json_obj []), snd (run (bus c) (IscsiLogin (ts_iqn t) (portal_of t)) s)))"

definition iscsi_logout :: "'x ctx \<Rightarrow> 'x storage handler" where
  "iscsi_logout c params =
     on_machine (\<lambda>s.
       let t = target_of c params
       in if ts_iqn t = [] then (Inr (json_obj []), s)
          else (Inr (json_obj []), snd (run (bus c) (IscsiLogout (ts_iqn t) (portal_of t)) s)))"

definition iscsi_rescan :: "'x ctx \<Rightarrow> 'x storage handler" where
  "iscsi_rescan c params = on_machine (\<lambda>s. (Inr (json_obj []), snd (run (bus c) IscsiRescan s)))"

section \<open>Devices\<close>

text \<open>\<open>str::trim_start_matches\<close> with a fixed (not empty) pattern.\<close>

function trim_start_matches :: "string \<Rightarrow> string \<Rightarrow> string" where
  "trim_start_matches w s =
     (if w \<noteq> [] \<and> starts_with w s then trim_start_matches w (drop (length w) s) else s)"
  by pat_completeness auto
termination by (relation "measure (length \<circ> snd)") (auto simp: starts_with_iff)

declare trim_start_matches.simps [simp del]

definition pv_membership :: "'x ctx \<Rightarrow> string \<Rightarrow> 'x os \<Rightarrow> (string \<times> string) \<times> 'x os" where
  "pv_membership c dev s =
     (case query c ''/usr/sbin/pvs'' [''--noheadings'', ''-o'', ''pv_uuid,vg_uuid'', dev] s of
        (None, s1) \<Rightarrow> (([], []), s1)
      | (Some raw, s1) \<Rightarrow>
          ((case split_whitespace raw of
              [] \<Rightarrow> ([], [])
            | [pv] \<Rightarrow> (pv, [])
            | pv # vg # _ \<Rightarrow> (pv, vg)), s1))"

text \<open>
  \<open>to_lowercase\<close> is Unicode's, but no letter outside ASCII has a lower case among the letters of
  the transports compared with.
\<close>

definition devtype_of :: "string \<Rightarrow> string" where
  "devtype_of tran =
     (let t = to_ascii_lowercase tran
      in if t = ''iscsi'' then ''iSCSI'' else if t = ''fc'' then ''FCP'' else if t = ''sas'' then ''SAS'' else ''SCSI'')"

definition device_json :: "json \<Rightarrow> string \<Rightarrow> string \<Rightarrow> string \<Rightarrow> json" where
  "device_json d wwn pv_uuid vg_uuid =
     json_obj
       [(''GUID'', JStr (trim_start_matches ''0x'' wwn)),
        (''devtype'', JStr (devtype_of (str_param d ''tran'' []))),
        (''capacity'', field_or d ''size'' ''0''),
        (''vendorID'', field_or d ''vendor'' []),
        (''productID'', field_or d ''model'' []),
        (''serial'', field_or d ''serial'' []),
        (''fwrev'', JStr []),
        (''status'', JStr (if vg_uuid = [] then ''free'' else ''used'')),
        (''pathstatus'', JArr [json_obj [(''physdev'', JStr (str_param d ''name'' [])), (''state'', JStr ''active'')]]),
        (''pvUUID'', JStr pv_uuid),
        (''vgUUID'', JStr vg_uuid),
        (''pathlist'', JArr [])]"

fun device_entries :: "'x ctx \<Rightarrow> json list \<Rightarrow> 'x os \<Rightarrow> json list \<times> 'x os" where
  "device_entries c [] s = ([], s)"
| "device_entries c (d # ds) s =
     (if Option.bind (json_get d ''type'') as_str \<noteq> Some ''disk'' then device_entries c ds s
      else
        (let name = str_param d ''name'' []; wwn = str_param d ''wwn'' []
         in if wwn = [] then device_entries c ds s
            else
              (case pv_membership c (''/dev/'' @ name) s of
                 ((pv, vg), s1) \<Rightarrow>
                   (case device_entries c ds s1 of (js, s2) \<Rightarrow> (device_json d wwn pv vg # js, s2)))))"

definition get_device_list :: "'x ctx \<Rightarrow> 'x storage handler" where
  "get_device_list c params =
     on_machine (\<lambda>s.
       case query c ''/usr/bin/lsblk''
              [''-J'', ''-b'', ''-o'', ''NAME,SIZE,TYPE,WWN,VENDOR,MODEL,SERIAL,FSTYPE,TRAN''] s of
         (raw, s1) \<Rightarrow>
           (case device_entries c (items_of (parsed_or_empty c (unwrap_or [] raw)) ''blockdevices'') s1 of
              (js, s2) \<Rightarrow> (Inr (JArr js), s2)))"

definition device_visible :: "'x ctx \<Rightarrow> string \<Rightarrow> 'x os \<Rightarrow> bool" where
  "device_visible c i s \<longleftrightarrow>
     path_exists (sys (bus c)) (''/dev/disk/by-id/wwn-0x'' @ i) s \<or> path_exists (sys (bus c)) (''/dev/disk/by-id/'' @ i) s"

definition get_devices_visibility :: "'x ctx \<Rightarrow> 'x storage handler" where
  "get_devices_visibility c params =
     on_machine (\<lambda>s.
       (Inr (JObj (foldl (\<lambda>m i. bm_insert i (JBool (device_visible c i s)) m) []
          (strs_of (get_either params ''devices'' ''guids'')))), s))"

section \<open>Volume groups\<close>

definition vg_json :: "json \<Rightarrow> json" where
  "vg_json vg =
     json_obj
       [(''vgUUID'', field_or vg ''vg_uuid'' []),
        (''name'', field_or vg ''vg_name'' []),
        (''size'', field_or vg ''vg_size'' ''0''),
        (''free'', field_or vg ''vg_free'' ''0''),
        (''attr'', JStr []),
        (''state'', JStr ''OK''),
        (''pvList'', JArr [])]"

definition vg_list :: "'x ctx \<Rightarrow> 'x os \<Rightarrow> json list \<times> 'x os" where
  "vg_list c s =
     (case query c ''/usr/sbin/vgs''
             [''--reportformat'', ''json'', ''-o'', ''vg_uuid,vg_name,vg_size,vg_free,vg_tags''] s of
        (raw, s1) \<Rightarrow>
          (concat (map (\<lambda>r. map vg_json (items_of r ''vg''))
             (items_of (parsed_or_empty c (unwrap_or [] raw)) ''report'')), s1))"

definition get_lvm_vg_list :: "'x ctx \<Rightarrow> 'x storage handler" where
  "get_lvm_vg_list c params = on_machine (\<lambda>s. case vg_list c s of (js, s1) \<Rightarrow> (Inr (JArr js), s1))"

definition vg_matches :: "string \<Rightarrow> json \<Rightarrow> bool" where
  "vg_matches vg v \<longleftrightarrow> str_param v ''vgUUID'' [] = vg \<or> str_param v ''name'' [] = vg"

definition vg_info :: "'x ctx \<Rightarrow> string \<Rightarrow> 'x os \<Rightarrow> (jsonrpc_error, json) result \<times> 'x os" where
  "vg_info c vg s =
     (if vg = [] then (Inl (invalid_params ''vgUUID or vgName required''), s)
      else
        (case vg_list c s of
           (js, s1) \<Rightarrow>
             (case find (vg_matches vg) js of
                Some v \<Rightarrow> (Inr v, s1)
              | None \<Rightarrow> (Inl (internal (''VG '' @ vg @ '' not found'')), s1))))"

definition get_vg_info :: "'x ctx \<Rightarrow> 'x storage handler" where
  "get_vg_info c params = on_machine (vg_info c (str_either params ''vgUUID'' ''vgName''))"

fun pvcreate_all :: "'x ctx \<Rightarrow> string list \<Rightarrow> 'x os \<Rightarrow> (jsonrpc_error, unit) result \<times> 'x os" where
  "pvcreate_all c [] s = (Inr (), s)"
| "pvcreate_all c (d # ds) s =
     (case run (bus c) (Pvcreate d) s of
        (None, s1) \<Rightarrow> (Inl (internal (''pvcreate '' @ d @ '' failed'')), s1)
      | (Some _, s1) \<Rightarrow> pvcreate_all c ds s1)"

definition make_vg :: "'x ctx \<Rightarrow> string \<Rightarrow> string list \<Rightarrow> 'x os \<Rightarrow> (jsonrpc_error, json) result \<times> 'x os" where
  "make_vg c name devices s =
     (if name = [] \<or> devices = [] then (Inl (invalid_params ''vgName + devlist required''), s)
      else
        (case pvcreate_all c devices s of
           (Inl e, s1) \<Rightarrow> (Inl e, s1)
         | (Inr _, s1) \<Rightarrow>
             (case run (bus c) (Vgcreate name devices) s1 of
                (None, s2) \<Rightarrow> (Inl (internal ''vgcreate failed''), s2)
              | (Some _, s2) \<Rightarrow>
                  (case vg_info c name s2 of
                     (r, s3) \<Rightarrow>
                       (let info = (case r of Inr v \<Rightarrow> v | Inl _ \<Rightarrow> json_obj [])
                        in (Inr (json_obj [(''uuid'', JStr (str_param info ''vgUUID'' []))]), s3))))))"

definition create_vg :: "'x ctx \<Rightarrow> 'x storage handler" where
  "create_vg c params =
     on_machine (make_vg c (str_either params ''vgName'' ''name'') (strs_of (json_get params ''devlist'')))"

fun extend_each :: "'x ctx \<Rightarrow> string \<Rightarrow> string list \<Rightarrow> 'x os \<Rightarrow> 'x os" where
  "extend_each c vg [] s = s"
| "extend_each c vg (d # ds) s =
     extend_each c vg ds (snd (run (bus c) (Vgextend vg d) (snd (run (bus c) (Pvcreate d) s))))"

definition extend_vg :: "'x ctx \<Rightarrow> 'x storage handler" where
  "extend_vg c params =
     on_machine (\<lambda>s.
       let vg = str_either params ''vgUUID'' ''vgName''; devices = strs_of (json_get params ''devlist'')
       in if vg = [] \<or> devices = [] then (Inl (invalid_params ''vg + devlist required''), s)
          else (Inr (json_obj []), extend_each c vg devices s))"

definition remove_vg :: "'x ctx \<Rightarrow> 'x storage handler" where
  "remove_vg c params =
     on_machine (\<lambda>s.
       let vg = str_either params ''vgUUID'' ''vgName''
       in if vg = [] then (Inl (invalid_params ''vg required''), s)
          else (Inr (json_obj []), snd (run (bus c) (Vgremove vg) s)))"

section \<open>Multipath and Fibre Channel\<close>

definition path_json :: "json \<Rightarrow> json" where
  "path_json p =
     json_obj [(''physdev'', field_or p ''dev'' []), (''state'', field_or p ''dm_st'' []), (''type'', field_or p ''chk_st'' [])]"

definition multipath_json :: "json \<Rightarrow> json" where
  "multipath_json m =
     json_obj
       [(''name'', JStr (str_param m ''name'' [])),
        (''GUID'', JStr (str_param m ''uuid'' [])),
        (''paths'', JArr (concat (map (\<lambda>pg. map path_json (items_of pg ''paths'')) (items_of m ''path_groups'')))),
        (''status'', JStr ''active'')]"

definition get_path_list_status :: "'x ctx \<Rightarrow> 'x storage handler" where
  "get_path_list_status c params =
     on_machine (\<lambda>s.
       case run (bus c) MultipathList s of
         (None, s1) \<Rightarrow> (Inr (JArr []), s1)
       | (Some raw, s1) \<Rightarrow> (Inr (JArr (map multipath_json (items_of (parsed_or_empty c raw) ''maps''))), s1))"

definition fc_scan :: "'x ctx \<Rightarrow> 'x storage handler" where
  "fc_scan c params = on_machine (\<lambda>s. (Inr (json_obj []), snd (run (bus c) FcScan s)))"

section \<open>Properties of block storage\<close>

lemma trim_start_matches_done: "w \<noteq> [] \<Longrightarrow> \<not> starts_with w (trim_start_matches w s)"
  by (induction w s rule: trim_start_matches.induct)
    (subst trim_start_matches.simps, metis (full_types) trim_start_matches.simps)

text \<open>What the engine expects of an entry of the device list.\<close>

definition device_entry_ok :: "json \<Rightarrow> bool" where
  "device_entry_ok e \<longleftrightarrow>
     (case (Option.bind (json_get e ''GUID'') as_str, Option.bind (json_get e ''devtype'') as_str,
            Option.bind (json_get e ''status'') as_str, Option.bind (json_get e ''vgUUID'') as_str) of
        (Some g, Some t, Some u, Some vg) \<Rightarrow>
          \<not> starts_with ''0x'' g \<and> t \<in> {''iSCSI'', ''FCP'', ''SAS'', ''SCSI''} \<and>
          u = (if vg = [] then ''free'' else ''used'') \<and>
          list_all (\<lambda>k. json_get e k \<noteq> None)
            [''capacity'', ''vendorID'', ''productID'', ''serial'', ''fwrev'', ''pathstatus'', ''pvUUID'', ''pathlist'']
      | _ \<Rightarrow> False)"

lemma device_json_ok: "device_entry_ok (device_json d wwn pv vg)"
  by (simp add: device_entry_ok_def device_json_def json_get_obj devtype_of_def Let_def
      trim_start_matches_done del: starts_with_code)

text \<open>
  \<open>Host.getDeviceList\<close> always answers with an array, and whatever \<open>lsblk\<close> and \<open>pvs\<close> print every
  entry of it has the twelve fields of a device: an identifier without its hexadecimal prefix,
  one of four device types, and the status \<open>used\<close> exactly when a volume group is named.
\<close>

theorem device_list_typed:
  "\<exists>js. fst (get_device_list c params st) = Inr (JArr js) \<and> list_all device_entry_ok js"
proof -
  have entries: "list_all device_entry_ok (fst (device_entries c ds s))" for ds s
    by (induction c ds s rule: device_entries.induct) (auto simp: Let_def device_json_ok split: prod.splits)
  then show ?thesis
    by (auto simp: get_device_list_def on_machine_def split: prod.splits) (metis fst_conv)
qed

text \<open>A sequence of privileged operations that all succeeded.\<close>

inductive did :: "'x bus \<Rightarrow> priv_op list \<Rightarrow> 'x os \<Rightarrow> 'x os \<Rightarrow> bool" for b where
  did_none: "did b [] s s"
| did_one: "run b p s = (Some out, s1) \<Longrightarrow> did b ps s1 s2 \<Longrightarrow> did b (p # ps) s s2"

inductive_simps did_simps [simp]: "did b [] s t" "did b (p # ps) s t"

lemma did_append: "did b (ps @ qs) s t \<longleftrightarrow> (\<exists>m. did b ps s m \<and> did b qs m t)"
  by (induction ps arbitrary: s) auto

definition stopped_at :: "'x bus \<Rightarrow> priv_op list \<Rightarrow> 'x os \<Rightarrow> 'x os \<Rightarrow> bool" where
  "stopped_at b ps s t \<longleftrightarrow> (\<exists>k m. k < length ps \<and> did b (take k ps) s m \<and> run b (ps ! k) m = (None, t))"

lemma stopped_first: "run b p s = (None, t) \<Longrightarrow> stopped_at b (p # ps) s t"
  unfolding stopped_at_def by (intro exI [of _ 0] exI [of _ s]) simp

lemma stopped_later: "did b ps s m \<Longrightarrow> stopped_at b qs m t \<Longrightarrow> stopped_at b (ps @ qs) s t"
  unfolding stopped_at_def by (metis add_less_cancel_left did_append length_append nth_append_length_plus take_add append_eq_conv_conj)

lemma stopped_append: "stopped_at b ps s t \<Longrightarrow> stopped_at b (ps @ qs) s t"
  unfolding stopped_at_def by (auto simp: nth_append)

lemma pvcreate_all_spec:
  "case pvcreate_all c ds s of
     (Inr _, t) \<Rightarrow> did (bus c) (map Pvcreate ds) s t
   | (Inl _, t) \<Rightarrow> stopped_at (bus c) (map Pvcreate ds) s t"
proof (induction c ds s rule: pvcreate_all.induct)
  case (2 c d ds s)
  show ?case
  proof (cases "run (bus c) (Pvcreate d) s")
    case (Pair r s1)
    show ?thesis
    proof (cases r)
      case None
      with Pair show ?thesis by (simp add: stopped_first)
    next
      case (Some out)
      with Pair have one: "did (bus c) [Pvcreate d] s s1" by simp
      from 2 Pair Some show ?thesis
        using stopped_later [OF one] by (auto split: prod.splits sum.splits)
    qed
  qed
qed simp

text \<open>
  \<open>Host.createVG\<close> initialises the devices one after the other, then makes the group of them, and
  stops at the first operation that fails. It reports success only when all of them have
  succeeded, in that order, and afterwards only looks the group up; without a name or devices
  it does nothing.
\<close>

theorem create_vg_stops:
  "case make_vg c name ds s of
     (Inr _, t) \<Rightarrow> name \<noteq> [] \<and> ds \<noteq> [] \<and>
        (\<exists>m. did (bus c) (map Pvcreate ds @ [Vgcreate name ds]) s m \<and> t = snd (vg_info c name m))
   | (Inl _, t) \<Rightarrow> (name = [] \<or> ds = []) \<and> t = s \<or> stopped_at (bus c) (map Pvcreate ds @ [Vgcreate name ds]) s t"
proof (cases "name = [] \<or> ds = []")
  case False
  show ?thesis
  proof (cases "pvcreate_all c ds s")
    case (Pair r s1)
    show ?thesis
    proof (cases r)
      case (Inl e)
      with Pair False pvcreate_all_spec [of c ds s] show ?thesis by (simp add: make_vg_def stopped_append)
    next
      case (Inr u)
      with Pair pvcreate_all_spec [of c ds s] have pre: "did (bus c) (map Pvcreate ds) s s1" by simp
      obtain q s2 where vg: "run (bus c) (Vgcreate name ds) s1 = (q, s2)" by fastforce
      show ?thesis
      proof (cases q)
        case None
        then show ?thesis
          using Pair Inr False vg stopped_later [OF pre stopped_first] by (simp add: make_vg_def)
      next
        case (Some out)
        then have "did (bus c) (map Pvcreate ds @ [Vgcreate name ds]) s s2"
          using pre vg by (auto simp: did_append)
        then show ?thesis
          using Pair Inr False vg Some by (auto simp: make_vg_def Let_def split: prod.splits)
      qed
    qed
  qed
qed (simp add: make_vg_def)

end
