(* ===== verification/Virt_Xml.thy ===== *)
theory Virt_Xml
  imports Json
begin

text \<open>
  \<open>crates/vdsm-virt/src/domain_xml.rs\<close>: the libvirt domain description made from the engine's
  parameters.
\<close>

section \<open>Reading the parameters\<close>

definition DEFAULT_MEM_MB :: u64 where
  "DEFAULT_MEM_MB = 1024"

definition DEFAULT_VCPUS :: u32 where
  "DEFAULT_VCPUS = 1"

fun first_str :: "json \<Rightarrow> string list \<Rightarrow> string option" where
  "first_str p [] = None"
| "first_str p (k # ks) =
     (case Option.bind (json_get p k) as_str of Some s \<Rightarrow> Some s | None \<Rightarrow> first_str p ks)"

fun first_u64 :: "json \<Rightarrow> string list \<Rightarrow> u64 option" where
  "first_u64 p [] = None"
| "first_u64 p (k # ks) =
     (case json_get p k of
        None \<Rightarrow> first_u64 p ks
      | Some v \<Rightarrow>
          (case as_u64 v of
             Some n \<Rightarrow> Some n
           | None \<Rightarrow>
               (case Option.bind (as_str v) parse_u64 of Some n \<Rightarrow> Some n | None \<Rightarrow> first_u64 p ks)))"

record domain_spec =
  ds_uuid :: string
  ds_name :: string
  ds_mem_mb :: u64
  ds_vcpus :: u32

text \<open>The count of processors is cut to 32 bits (\<open>as u32\<close>) before it is raised to one.\<close>

definition from_vm_params :: "string \<Rightarrow> json \<Rightarrow> domain_spec" where
  "from_vm_params vm_id params =
     (let p = unwrap_or params (json_get params ''vmParams'');
          smp = ucast (unwrap_or (ucast DEFAULT_VCPUS) (first_u64 p [''smp'', ''maxVCpus'']))
      in \<lparr>ds_uuid = vm_id,
          ds_name = unwrap_or vm_id (first_str p [''vmName'']),
          ds_mem_mb = unwrap_or DEFAULT_MEM_MB (first_u64 p [''memSize'']),
          ds_vcpus = max smp 1\<rparr>)"

section \<open>Writing the description\<close>

definition xml_escape :: "string \<Rightarrow> string" where
  "xml_escape s =
     replace_char SQUOTE ''&apos;''
       (replace_char DQUOTE ''&quot;''
         (replace_char CHR ''>'' ''&gt;'' (replace_char CHR ''<'' ''&lt;'' (replace_char CHR ''&'' ''&amp;'' s))))"

definition to_xml :: "domain_spec \<Rightarrow> string" where
  "to_xml d =
     concat (map (\<lambda>l. l @ [NL])
       [''<domain type='kvm'>'',
        ''  <name>'' @ xml_escape (ds_name d) @ ''</name>'',
        ''  <uuid>'' @ ds_uuid d @ ''</uuid>'',
        ''  <memory unit='MiB'>'' @ u64_str (ds_mem_mb d) @ ''</memory>'',
        ''  <currentMemory unit='MiB'>'' @ u64_str (ds_mem_mb d) @ ''</currentMemory>'',
        ''  <vcpu placement='static'>'' @ u32_str (ds_vcpus d) @ ''</vcpu>'',
        ''  <os>'',
        ''    <type arch='x86_64' machine='q35'>hvm</type>'',
        ''    <boot dev='hd'/>'',
        ''    <boot dev='cdrom'/>'',
        ''    <boot dev='network'/>'',
        ''  </os>'',
        ''  <features>'',
        ''    <acpi/>'',
        ''    <apic/>'',
        ''  </features>'',
        ''  <cpu mode='host-passthrough' check='none'/>'',
        ''  <clock offset='utc'/>'',
        ''  <on_poweroff>destroy</on_poweroff>'',
        ''  <on_reboot>restart</on_reboot>'',
        ''  <on_crash>destroy</on_crash>'',
        ''  <devices>'',
        ''    <emulator>/usr/bin/qemu-system-x86_64</emulator>'',
        ''    <controller type='usb' model='qemu-xhci'/>'',
        ''    <serial type='pty'><target port='0'/></serial>'',
        ''    <console type='pty'><target type='serial' port='0'/></console>'',
        ''    <input type='tablet' bus='usb'/>'',
        ''    <graphics type='vnc' port='-1' autoport='yes' listen='127.0.0.1'/>'',
        ''    <video><model type='virtio'/></video>'',
        ''    <memballoon model='virtio'/>'',
        ''  </devices>'',
        ''</domain>''])"

section \<open>Reading a description back\<close>

text \<open>
  A reference reader of one element: the text from its opening tag to the next tag, with the
  five predefined entities resolved.
\<close>

definition entities :: "(string \<times> char) list" where
  "entities =
     [(''&amp;'', CHR ''&''), (''&lt;'', CHR ''<''), (''&gt;'', CHR ''>''), (''&quot;'', DQUOTE), (''&apos;'', SQUOTE)]"

function xml_unescape :: "string \<Rightarrow> string" where
  "xml_unescape [] = []"
| "xml_unescape (c # s) =
     (case find (\<lambda>(w, x). starts_with w (c # s)) entities of
        Some (w, x) \<Rightarrow> x # xml_unescape (drop (length w - 1) s)
      | None \<Rightarrow> c # xml_unescape s)"
  by pat_completeness auto
termination by (relation "measure length") auto

fun xml_text :: "string \<Rightarrow> string \<Rightarrow> string option" where
  "xml_text t [] = None"
| "xml_text t (c # s) =
     (if starts_with t (c # s) then Some (xml_unescape (takeWhile (\<lambda>x. x \<noteq> CHR ''<'') (drop (length t) (c # s))))
      else xml_text t s)"

definition xml_char :: "char \<Rightarrow> string" where
  "xml_char c =
     (if c = CHR ''&'' then ''&amp;'' else if c = CHR ''<'' then ''&lt;'' else if c = CHR ''>'' then ''&gt;''
      else if c = DQUOTE then ''&quot;'' else if c = SQUOTE then ''&apos;'' else [c])"

lemma xml_escape_simps [simp]: "xml_escape [] = []" "xml_escape (c # s) = xml_char c @ xml_escape s"
  by (simp_all add: xml_escape_def xml_char_def)

lemma xml_unescape_plain: "CHR ''&'' \<noteq> c \<Longrightarrow> xml_unescape (c # s) = c # xml_unescape s"
  by (simp add: entities_def)

lemma xml_unescape_char: "xml_unescape (xml_char c @ s) = c # xml_unescape s"
  unfolding xml_char_def by (simp add: entities_def xml_unescape_plain del: xml_unescape.simps) (simp add: entities_def)

lemma xml_unescape_escape [simp]: "xml_unescape (xml_escape s) = s"
  by (induction s) (simp_all add: xml_unescape_char del: xml_unescape.simps(2))

lemma xml_unescape_id: "CHR ''&'' \<notin> set s \<Longrightarrow> xml_unescape s = s"
  by (induction s) (simp_all add: xml_unescape_plain del: xml_unescape.simps(2))

lemma xml_escape_no_tag [simp]: "CHR ''<'' \<notin> set (xml_escape s)"
  by (induction s) (auto simp: xml_char_def)

lemma xml_text_skip: "CHR ''<'' \<notin> set a \<Longrightarrow> xml_text (CHR ''<'' # t) (a @ s) = xml_text (CHR ''<'' # t) s"
  by (induction a) auto

lemma takeWhile_tag [simp]: "CHR ''<'' \<notin> set a \<Longrightarrow> takeWhile (\<lambda>x. x \<noteq> CHR ''<'') (a @ CHR ''<'' # s) = a"
  by (induction a) auto

lemma to_xml_head:
  "\<exists>r. to_xml d = ''<domain type='kvm'>'' @ [NL] @ ''  <name>'' @ xml_escape (ds_name d) @ ''</name>'' @ [NL] @
     ''  <uuid>'' @ ds_uuid d @ ''</uuid>'' @ [NL] @
     ''  <memory unit='MiB'>'' @ u64_str (ds_mem_mb d) @ ''</memory>'' @ [NL] @
     ''  <currentMemory unit='MiB'>'' @ u64_str (ds_mem_mb d) @ ''</currentMemory>'' @ [NL] @
     ''  <vcpu placement='static'>'' @ u32_str (ds_vcpus d) @ ''</vcpu>'' @ [NL] @ r"
  unfolding to_xml_def list.map concat.simps append_assoc by (intro exI, rule refl)

text \<open>
  C24: the domain description says what was asked for: as long as the identifier has no markup of its
  own, the name (whatever characters it has), the identifier, the memory and the number of
  processors are read back from the XML as they were given. The number of processors is never zero.
\<close>

theorem domain_xml_faithful:
  assumes "d = from_vm_params vm_id params" "CHR ''<'' \<notin> set vm_id" "CHR ''&'' \<notin> set vm_id"
  shows "xml_text ''<name>'' (to_xml d) = Some (ds_name d) \<and> xml_text ''<uuid>'' (to_xml d) = Some vm_id \<and>
    xml_text ''<memory unit='MiB'>'' (to_xml d) = Some (u64_str (ds_mem_mb d)) \<and>
    xml_text ''<vcpu placement='static'>'' (to_xml d) = Some (u32_str (ds_vcpus d)) \<and> 1 \<le> ds_vcpus d"
proof -
  have u: "ds_uuid d = vm_id" and v: "1 \<le> ds_vcpus d" by (simp_all add: assms(1) from_vm_params_def Let_def)
  have num: "CHR ''<'' \<notin> set (u64_str n)" "CHR ''<'' \<notin> set (u32_str m)"
      "xml_unescape (u64_str n) = u64_str n" "xml_unescape (u32_str m) = u32_str m" for n m
    by (simp_all add: u64_str_def u32_str_def xml_unescape_id graphic_notin is_digit_def)
  obtain r where x: "to_xml d = ''<domain type='kvm'>'' @ [NL] @ ''  <name>'' @ xml_escape (ds_name d) @ ''</name>'' @ [NL] @
     ''  <uuid>'' @ vm_id @ ''</uuid>'' @ [NL] @
     ''  <memory unit='MiB'>'' @ u64_str (ds_mem_mb d) @ ''</memory>'' @ [NL] @
     ''  <currentMemory unit='MiB'>'' @ u64_str (ds_mem_mb d) @ ''</currentMemory>'' @ [NL] @
     ''  <vcpu placement='static'>'' @ u32_str (ds_vcpus d) @ ''</vcpu>'' @ [NL] @ r"
    using to_xml_head [of d] unfolding u by (elim exE)
  note tags = x xml_text_skip xml_unescape_id [OF assms(3)] assms(2) num
  have "xml_text ''<name>'' (to_xml d) = Some (ds_name d)" by (simp add: tags del: xml_unescape.simps(2))
  moreover have "xml_text ''<uuid>'' (to_xml d) = Some vm_id" by (simp add: tags del: xml_unescape.simps(2))
  moreover have "xml_text ''<memory unit='MiB'>'' (to_xml d) = Some (u64_str (ds_mem_mb d))"
    by (simp add: tags del: xml_unescape.simps(2))
  moreover have "xml_text ''<vcpu placement='static'>'' (to_xml d) = Some (u32_str (ds_vcpus d))"
    by (simp add: tags del: xml_unescape.simps(2))
  ultimately show ?thesis using v by blast
qed

theorem domain_xml_faithful_witness:
  "xml_text ''<name>'' (to_xml (from_vm_params ''a1'' (json_obj [(''vmName'', JStr ''a<b & c'')]))) = Some ''a<b & c''"
  using domain_xml_faithful [of _ "''a1''" "json_obj [(''vmName'', JStr ''a<b & c'')]", OF refl]
  by (simp add: from_vm_params_def json_get_obj Let_def)

text \<open>
  The identifier is written without escaping: one with markup of its own can set the memory of
  the machine.
\<close>

lemma domain_xml_uuid_injection:
  "xml_text ''<memory unit='MiB'>'' (to_xml \<lparr>ds_uuid = ''a</uuid><memory unit='MiB'>9</memory><uuid>'', ds_name = ''n'',
     ds_mem_mb = 1024, ds_vcpus = 1\<rparr>) = Some ''9''"
proof -
  let ?d = "\<lparr>ds_uuid = ''a</uuid><memory unit='MiB'>9</memory><uuid>'', ds_name = ''n'', ds_mem_mb = 1024, ds_vcpus = 1\<rparr>"
  obtain r where "to_xml ?d = ''<domain type='kvm'>'' @ [NL] @ ''  <name>'' @ xml_escape (ds_name ?d) @ ''</name>'' @ [NL] @
     ''  <uuid>'' @ ds_uuid ?d @ r"
    using to_xml_head [of ?d] by (elim exE) blast
  then show ?thesis by (simp add: xml_text_skip xml_char_def xml_unescape_id del: xml_unescape.simps(2))
qed

end
