(* ===== verification/Virt.thy ===== *)
theory Virt
  imports Virt_Xml Os Rpc
begin

text \<open>
  \<open>crates/vdsm-virt/src/lib.rs\<close> and \<open>verbs.rs\<close>: the life cycle of virtual machines. Libvirt is driven
  through \<open>virsh\<close>, a program outside the sources and so a parameter: it gets the arguments and
  the text piped to it, and answers with its output or with the step at which running it
  failed. The state is the registry of the daemon, the machine, and the tasks the verbs have
  spawned and not waited for; each await of a task is a step of its own.
\<close>

section \<open>State\<close>

datatype vm_state = WaitForLaunch | PoweringUp | Up | Down | Paused | PoweringDown

definition as_engine_str :: "vm_state \<Rightarrow> string" where
  "as_engine_str v =
     (case v of
        WaitForLaunch \<Rightarrow> ''WaitForLaunch''
      | PoweringUp \<Rightarrow> ''Powering up''
      | Up \<Rightarrow> ''Up''
      | Down \<Rightarrow> ''Down''
      | Paused \<Rightarrow> ''Paused''
      | PoweringDown \<Rightarrow> ''Powering down'')"

record vm_record =
  vm_id :: string
  vm_name :: string
  mem_size_mb :: u64
  vcpus :: u32
  state :: vm_state
  created_secs :: u64

text \<open>
  Spawned tasks, with where they are: a migration under way, and the watchdog of a shutdown,
  which sleeps, then destroys a domain that still runs, then marks its record.
\<close>

datatype vm_task =
    Migrate (task_name: string) (task_dst: string)
  | Watchdog (task_name: string) (task_vm: string)
  | ForceDestroy (task_name: string) (task_vm: string)
  | MarkDown (task_vm: string)

record 'x virt =
  registry :: "(string, vm_record) hmap"
  host :: "'x os"
  tasks :: "vm_task list"

section \<open>Running virsh\<close>

datatype proc_error = SpawnFailed string | StdinFailed string | WaitFailed string

type_synonym 'x proc = "string \<Rightarrow> string list \<Rightarrow> string option \<Rightarrow> 'x os \<Rightarrow> (proc_error, cmd_output) result \<times> 'x os"

definition VIRSH :: string where
  "VIRSH = ''/usr/bin/virsh''"

definition URI :: string where
  "URI = ''qemu:///system''"

definition run_virsh :: "'x proc \<Rightarrow> string list \<Rightarrow> string option \<Rightarrow> 'x virt \<Rightarrow> (string, string) result \<times> 'x virt" where
  "run_virsh p args stdin_payload st =
     (case p VIRSH ([''-c'', URI] @ args) stdin_payload (host st) of
        (Inl (SpawnFailed e), s1) \<Rightarrow> (Inl (''spawn virsh: '' @ e), st\<lparr>host := s1\<rparr>)
      | (Inl (StdinFailed e), s1) \<Rightarrow> (Inl (''virsh stdin: '' @ e), st\<lparr>host := s1\<rparr>)
      | (Inl (WaitFailed e), s1) \<Rightarrow> (Inl e, st\<lparr>host := s1\<rparr>)
      | (Inr r, s1) \<Rightarrow>
          (if \<not> success r then Inl (trim (from_utf8_lossy (stderr_bytes r)))
           else Inr (from_utf8_lossy (stdout_bytes r)), st\<lparr>host := s1\<rparr>))"

definition vm_id_from :: "json \<Rightarrow> (jsonrpc_error, string) result" where
  "vm_id_from params =
     (case Option.bind (json_get params ''vmID'') as_str of
        Some v \<Rightarrow> Inr v
      | None \<Rightarrow> Inl (invalid_params ''vmID missing''))"

text \<open>\<open>let vm_id = vm_id_from(&params)?\<close>, and the name of a machine the registry may not know.\<close>

definition on_vm :: "(string \<Rightarrow> 'x virt \<Rightarrow> (jsonrpc_error, json) result \<times> 'x virt) \<Rightarrow> 'x virt handler" where
  "on_vm f params st = (case vm_id_from params of Inl e \<Rightarrow> (Inl e, st) | Inr v \<Rightarrow> f v st)"

definition name_of :: "string \<Rightarrow> 'x virt \<Rightarrow> string" where
  "name_of v st = unwrap_or v (map_option vm_name (hm_get (registry st) v))"

definition set_state :: "string \<Rightarrow> vm_state \<Rightarrow> 'x virt \<Rightarrow> 'x virt" where
  "set_state v x st =
     (case hm_get (registry st) v of
        Some r \<Rightarrow> st\<lparr>registry := hm_insert v (r\<lparr>state := x\<rparr>) (registry st)\<rparr>
      | None \<Rightarrow> st)"

definition put_record :: "string \<Rightarrow> domain_spec \<Rightarrow> vm_state \<Rightarrow> 'x virt \<Rightarrow> 'x virt" where
  "put_record v d x st =
     st\<lparr>registry := hm_insert v
       \<lparr>vm_id = v, vm_name = ds_name d, mem_size_mb = ds_mem_mb d, vcpus = ds_vcpus d, state = x,
        created_secs = now_secs (host st)\<rparr> (registry st)\<rparr>"

section \<open>Creating and destroying\<close>

definition vm_create :: "'x proc \<Rightarrow> 'x virt handler" where
  "vm_create p params =
     on_vm (\<lambda>v st.
       let spec = from_vm_params v params
       in case run_virsh p [''define'', ''/dev/stdin''] (Some (to_xml spec)) st of
            (Inl e, st1) \<Rightarrow> (Inl (internal (''virsh define: '' @ e)), st1)
          | (Inr _, st1) \<Rightarrow>
              (case run_virsh p [''start'', ds_name spec] None st1 of
                 (Inl e, st2) \<Rightarrow> (Inl (internal (''virsh start: '' @ e)), st2)
               | (Inr _, st2) \<Rightarrow>
                   (Inr (json_obj [(''vmList'', json_obj [(''vmId'', JStr v), (''status'', JStr (as_engine_str Up))])]),
                    put_record v spec Up st2))) params"

definition vm_destroy :: "'x proc \<Rightarrow> 'x virt handler" where
  "vm_destroy p =
     on_vm (\<lambda>v st.
       let n = name_of v st;
           st1 = snd (run_virsh p [''destroy'', n] None st);
           st2 = snd (run_virsh p [''undefine'', n] None st1)
       in (Inr (json_obj []), st2\<lparr>registry := hm_remove v (registry st2)\<rparr>))"

section \<open>Shutting down, pausing and resuming\<close>

definition spawn :: "vm_task \<Rightarrow> 'x virt \<Rightarrow> 'x virt" where
  "spawn t st = st\<lparr>tasks := tasks st @ [t]\<rparr>"

definition vm_shutdown :: "'x proc \<Rightarrow> 'x virt handler" where
  "vm_shutdown p =
     on_vm (\<lambda>v st.
       let n = name_of v st; st1 = snd (run_virsh p [''shutdown'', n] None st)
       in (Inr (json_obj []), spawn (Watchdog n v) (set_state v PoweringDown st1)))"

definition vm_cont :: "'x proc \<Rightarrow> 'x virt handler" where
  "vm_cont p =
     on_vm (\<lambda>v st. (Inr (json_obj []), set_state v Up (snd (run_virsh p [''resume'', name_of v st] None st))))"

definition vm_pause :: "'x proc \<Rightarrow> 'x virt handler" where
  "vm_pause p =
     on_vm (\<lambda>v st. (Inr (json_obj []), set_state v Paused (snd (run_virsh p [''suspend'', name_of v st] None st))))"

section \<open>Migration\<close>

definition vm_migrate :: "'x proc \<Rightarrow> 'x virt handler" where
  "vm_migrate p params =
     on_vm (\<lambda>v st.
       let d = (case get_either params ''dst'' ''hostname'' of Some x \<Rightarrow> Some x | None \<Rightarrow> json_get params ''dstHost'')
       in case Option.bind d as_str of
            None \<Rightarrow> (Inl (invalid_params ''dst (destination host) required''), st)
          | Some dst \<Rightarrow>
              (Inr (json_obj
                 [(''status'', json_obj [(''code'', jint 0), (''message'', JStr ''Migration started'')]),
                  (''progress'', jint 0)]),
               spawn (Migrate (name_of v st) dst) st)) params"

definition vm_migration_create :: "'x virt handler" where
  "vm_migration_create params =
     on_vm (\<lambda>v st.
       (Inr (json_obj [(''migrationPort'', jint 49152), (''params'', json_obj [])]),
        put_record v (from_vm_params v params) WaitForLaunch st)) params"

definition vm_migration_cancel :: "'x proc \<Rightarrow> 'x virt handler" where
  "vm_migration_cancel p =
     on_vm (\<lambda>v st. (Inr (json_obj []), snd (run_virsh p [''domjobabort'', name_of v st] None st)))"

definition vm_migrate_change_params :: "'x virt handler" where
  "vm_migrate_change_params params st = (Inr (json_obj []), st)"

text \<open>The counters of \<open>virsh domjobinfo\<close>; a later line of a kind replaces an earlier one.\<close>

definition job_number :: "string \<Rightarrow> u64" where
  "job_number t = unwrap_or 0 (Option.bind (opt_hd (split_whitespace t)) parse_u64)"

definition job_line :: "u64 \<times> u64 \<times> u64 \<Rightarrow> string \<Rightarrow> u64 \<times> u64 \<times> u64" where
  "job_line acc l =
     (case acc of
        (data_total, data_processed, data_remaining) \<Rightarrow>
          (let line = trim l
           in case strip_prefix ''Data total:'' line of
                Some x \<Rightarrow> (job_number x, data_processed, data_remaining)
              | None \<Rightarrow>
                  (case strip_prefix ''Data processed:'' line of
                     Some x \<Rightarrow> (data_total, job_number x, data_remaining)
                   | None \<Rightarrow>
                       (case strip_prefix ''Data remaining:'' line of
                          Some x \<Rightarrow> (data_total, data_processed, job_number x)
                        | None \<Rightarrow> acc))))"

text \<open>The percentage is 64-bit arithmetic, cast to a signed number.\<close>

definition job_progress :: "u64 \<Rightarrow> u64 \<Rightarrow> int" where
  "job_progress data_total data_processed =
     (if data_total > 0 then sint (data_processed * 100 div data_total) else 0)"

definition vm_migrate_status :: "'x proc \<Rightarrow> 'x virt handler" where
  "vm_migrate_status p =
     on_vm (\<lambda>v st.
       case run_virsh p [''domjobinfo'', name_of v st] None st of
         (r, st1) \<Rightarrow>
           (let info = (case r of Inr t \<Rightarrow> t | Inl _ \<Rightarrow> [])
            in case foldl job_line (0, 0, 0) (str_lines info) of
                 (t, d, q) \<Rightarrow>
                   (Inr (json_obj
                      [(''status'', json_obj [(''code'', jint 0), (''message'', JStr ''Done'')]),
                       (''progress'', jint (job_progress t d)),
                       (''downtime'', jint 0),
                       (''dataTotal'', JStr (u64_str t)),
                       (''dataProcessed'', JStr (u64_str d)),
                       (''dataRemaining'', JStr (u64_str q))]), st1)))"

section \<open>Console, devices and statistics\<close>

definition vm_set_ticket :: "'x proc \<Rightarrow> 'x virt handler" where
  "vm_set_ticket p params =
     on_vm (\<lambda>v st.
       let password = str_param params ''password'' [];
           ttl = unwrap_or 120 (Option.bind (Option.bind (json_get params ''ttl'') as_str) parse_u64);
           n = name_of v st;
           st1 = snd (run_virsh p [''qemu-monitor-command'', n, ''--hmp'', ''set_password vnc '' @ password] None st);
           st2 = snd (run_virsh p [''qemu-monitor-command'', n, ''--hmp'', ''expire_password vnc +'' @ u64_str ttl] None st1)
       in (Inr (json_obj []), st2)) params"

definition vm_update_device :: "'x virt handler" where
  "vm_update_device params st = (Inr (json_obj []), st)"

fun dump_each :: "'x proc \<Rightarrow> string list \<Rightarrow> (string \<times> json) list \<Rightarrow> 'x virt \<Rightarrow> (string \<times> json) list \<times> 'x virt" where
  "dump_each p [] out st = (out, st)"
| "dump_each p (i # is) out st =
     (case run_virsh p [''dumpxml'', i] None st of
        (Inr xml, st1) \<Rightarrow> dump_each p is (bm_insert i (JStr xml) out) st1
      | (Inl e, st1) \<Rightarrow> dump_each p is out st1)"

definition dump_xmls :: "'x proc \<Rightarrow> 'x virt handler" where
  "dump_xmls p params st =
     (case dump_each p (strs_of (get_either params ''vmList'' ''vmIds'')) [] st of
        (out, st1) \<Rightarrow> (Inr (JObj out), st1))"

definition saturating_sub :: "u64 \<Rightarrow> u64 \<Rightarrow> u64" where
  "saturating_sub a b = (if b \<le> a then a - b else 0)"

definition record_to_stats :: "vm_record \<Rightarrow> u64 \<Rightarrow> json" where
  "record_to_stats r now =
     json_obj
       [(''vmId'', JStr (vm_id r)),
        (''vmName'', JStr (vm_name r)),
        (''status'', JStr (as_engine_str (state r))),
        (''memSize'', JNum (PosInt (mem_size_mb r))),
        (''vcpuCount'', JNum (PosInt (ucast (vcpus r)))),
        (''elapsedTime'', JStr (u64_str (saturating_sub now (created_secs r)))),
        (''monitorResponse'', JStr ''0''),
        (''displayInfo'', JArr [json_obj [(''type'', JStr ''vnc''), (''port'', JStr ''5900''), (''ipAddress'', JStr ''127.0.0.1'')]]),
        (''kvmEnable'', JStr ''true''),
        (''exitCode'', jint 0),
        (''exitMessage'', JStr []),
        (''guestCPUCount'', jint (- 1)),
        (''vmType'', JStr ''kvm''),
        (''session'', JStr ''Unknown''),
        (''clientIp'', JStr []),
        (''username'', JStr []),
        (''appsList'', JArr []),
        (''guestIPs'', JStr []),
        (''guestFQDN'', JStr [])]"

definition vm_get_stats :: "'x virt handler" where
  "vm_get_stats =
     on_vm (\<lambda>v st.
       let stats = (case hm_get (registry st) v of
                      Some r \<Rightarrow> record_to_stats r (now_secs (host st))
                    | None \<Rightarrow> json_obj [(''vmId'', JStr v), (''status'', JStr ''Down'')])
       in (Inr (json_obj [(''statsList'', JArr [stats])]), st))"

section \<open>Reconciling with libvirt\<close>

definition running_names :: "string \<Rightarrow> string list" where
  "running_names out = filter (\<lambda>l. l \<noteq> []) (map trim (str_lines out))"

definition dominfo_mem :: "string \<Rightarrow> u64" where
  "dominfo_mem info =
     unwrap_or 0 (map_option (\<lambda>kb. kb div 1024)
       (Option.bind (Option.bind (find_map (\<lambda>l. map_option trim (strip_prefix ''Used memory:'' l)) (str_lines info))
          (\<lambda>t. opt_hd (split_whitespace t))) parse_u64))"

definition dominfo_vcpus :: "string \<Rightarrow> u32" where
  "dominfo_vcpus info =
     unwrap_or 1 (Option.bind (find_map (\<lambda>l. map_option trim (strip_prefix ''CPU(s):'' l)) (str_lines info)) parse_u32)"

definition adopt_one :: "'x proc \<Rightarrow> string \<Rightarrow> 'x virt \<Rightarrow> 'x virt" where
  "adopt_one p n st =
     (case run_virsh p [''domuuid'', n] None st of
        (Inl e, st1) \<Rightarrow> st1
      | (Inr uuid_out, st1) \<Rightarrow>
          (let uuid = trim uuid_out
           in if uuid = [] then st1
              else if hm_get (registry st1) uuid \<noteq> None then st1
              else
                (case run_virsh p [''dominfo'', n] None st1 of
                   (r, st2) \<Rightarrow>
                     (let info = (case r of Inr t \<Rightarrow> t | Inl _ \<Rightarrow> [])
                      in put_record uuid
                           \<lparr>ds_uuid = uuid, ds_name = n, ds_mem_mb = dominfo_mem info, ds_vcpus = dominfo_vcpus info\<rparr>
                           Up st2))))"

fun adopt_each :: "'x proc \<Rightarrow> string list \<Rightarrow> 'x virt \<Rightarrow> 'x virt" where
  "adopt_each p [] st = st"
| "adopt_each p (n # ns) st = adopt_each p ns (adopt_one p n st)"

definition reconcile_from_libvirt :: "'x proc \<Rightarrow> 'x virt \<Rightarrow> 'x virt" where
  "reconcile_from_libvirt p st =
     (case run_virsh p [''list'', ''--name'', ''--state-running''] None st of
        (Inl e, st1) \<Rightarrow> st1
      | (Inr out, st1) \<Rightarrow>
          (let names = running_names out
           in adopt_each p names
                (st1\<lparr>registry := filter (\<lambda>(k, r). vm_name r \<in> set names) (registry st1)\<rparr>)))"

section \<open>Spawned tasks\<close>

text \<open>A step of a task: what is left of it, and the state.\<close>

definition task_step :: "'x proc \<Rightarrow> vm_task \<Rightarrow> 'x virt \<Rightarrow> vm_task list \<times> 'x virt" where
  "task_step p t st =
     (case t of
        Migrate n dst \<Rightarrow>
          ([], snd (run_virsh p
             [''migrate'', ''--live'', ''--persistent'', ''--undefinesource'', ''--verbose'', ''--auto-converge'', n,
              ''qemu+tls://'' @ dst @ ''/system''] None st))
      | Watchdog n v \<Rightarrow>
          (case run_virsh p [''domstate'', n] None st of
             (r, st1) \<Rightarrow>
               ((case r of
                   Inr t \<Rightarrow> if to_ascii_lowercase (trim t) = ''running'' then [ForceDestroy n v] else []
                 | Inl _ \<Rightarrow> []), st1))
      | ForceDestroy n v \<Rightarrow> ([MarkDown v], snd (run_virsh p [''destroy'', n] None st))
      | MarkDown v \<Rightarrow> ([], set_state v Down st))"

text \<open>
  The daemon at work: a verb, a reconciliation, a step of any pending task, or a change of the
  machine that is none of the daemon's doing.
\<close>

definition vm_handlers :: "'x proc \<Rightarrow> 'x virt handler list" where
  "vm_handlers p =
     [vm_create p, vm_destroy p, vm_shutdown p, vm_cont p, vm_pause p, vm_migrate p, vm_migration_create,
      vm_migration_cancel p, vm_migrate_change_params, vm_migrate_status p, vm_set_ticket p, vm_update_device,
      dump_xmls p, vm_get_stats]"

inductive virt_step :: "'x proc \<Rightarrow> 'x virt \<Rightarrow> 'x virt \<Rightarrow> bool" for p where
  verb: "h \<in> set (vm_handlers p) \<Longrightarrow> virt_step p st (snd (h params st))"
| reconcile: "virt_step p st (reconcile_from_libvirt p st)"
| world: "virt_step p st (st\<lparr>host := s\<rparr>)"
| task: "tasks st = a @ t # b \<Longrightarrow> task_step p t (st\<lparr>tasks := a @ b\<rparr>) = (ts, st1) \<Longrightarrow>
    virt_step p st (st1\<lparr>tasks := tasks st1 @ ts\<rparr>)"

definition virt_start :: "'x os \<Rightarrow> 'x virt" where
  "virt_start s = \<lparr>registry = [], host = s, tasks = []\<rparr>"

inductive virt_reachable :: "'x proc \<Rightarrow> 'x virt \<Rightarrow> bool" for p where
  start: "virt_reachable p (virt_start s)"
| step: "virt_reachable p st \<Longrightarrow> virt_step p st st1 \<Longrightarrow> virt_reachable p st1"

section \<open>What the operations do to the registry\<close>

lemma run_virsh_keeps:
  assumes "run_virsh p args i st = (r, st1)"
  shows "registry st1 = registry st" "tasks st1 = tasks st"
  using assms by (auto simp: run_virsh_def split: prod.splits sum.splits proc_error.splits)

lemma run_virsh_keeps_snd [simp]:
  "registry (snd (run_virsh p args i st)) = registry st" "tasks (snd (run_virsh p args i st)) = tasks st"
  using run_virsh_keeps [of p args i st] by (metis prod.collapse)+

definition registry_ok :: "(string, vm_record) hmap \<Rightarrow> bool" where
  "registry_ok m \<longleftrightarrow> hm_ok m \<and> (\<forall>k r. hm_get m k = Some r \<longrightarrow> vm_id r = k)"

lemma registry_ok_insert: "registry_ok m \<Longrightarrow> vm_id r = k \<Longrightarrow> registry_ok (hm_insert k r m)"
  by (auto simp: registry_ok_def hm.ok_insert dict_lookups split: if_splits)

lemma registry_ok_remove: "registry_ok m \<Longrightarrow> registry_ok (hm_remove k m)"
  by (auto simp: registry_ok_def hm.ok_remove dict_lookups split: if_splits)

lemma registry_ok_put: "registry_ok (registry st) \<Longrightarrow> registry_ok (registry (put_record v d x st))"
  by (simp add: put_record_def registry_ok_insert)

lemma registry_ok_state: "registry_ok (registry st) \<Longrightarrow> registry_ok (registry (set_state v x st))"
proof (cases "hm_get (registry st) v")
  case (Some r)
  moreover assume ok: "registry_ok (registry st)"
  ultimately have "vm_id (r\<lparr>state := x\<rparr>) = v" by (simp add: registry_ok_def)
  with ok Some show ?thesis by (simp add: set_state_def registry_ok_insert)
qed (simp add: set_state_def)

lemma hm_get_filter:
  assumes "hm_ok m"
  shows "hm_get (filter (\<lambda>(k, r). Q r) m) k = (case hm_get m k of Some r \<Rightarrow> if Q r then Some r else None | None \<Rightarrow> None)"
  using assms by (induction m) (auto simp: hm_ok_def map_of_eq_None_iff split: option.splits)

lemma hm_get_filter_Some:
  "hm_ok m \<Longrightarrow> hm_get (filter (\<lambda>(k, r). Q r) m) k = Some r \<longleftrightarrow> hm_get m k = Some r \<and> Q r"
  by (auto simp: hm_get_filter split: option.splits if_splits)

lemma registry_ok_filter: "registry_ok m \<Longrightarrow> registry_ok (filter (\<lambda>(k, r). Q r) m)"
  by (auto simp: registry_ok_def hm_get_filter split: option.splits if_splits)
    (auto simp: hm_ok_def distinct_map_filter)

lemmas registry_ok_rules = registry_ok_insert registry_ok_remove registry_ok_put registry_ok_state registry_ok_filter

lemma hm_get_put:
  "hm_get (registry (put_record v d x st)) k =
    (if k = v then Some \<lparr>vm_id = v, vm_name = ds_name d, mem_size_mb = ds_mem_mb d, vcpus = ds_vcpus d, state = x,
       created_secs = now_secs (host st)\<rparr> else hm_get (registry st) k)"
  by (simp add: put_record_def update_conv')

lemma adopt_one_cases:
  obtains (same) "registry (adopt_one p n st) = registry st"
      "\<And>u. fst (run_virsh p [''domuuid'', n] None st) = Inr u \<Longrightarrow> trim u \<noteq> [] \<Longrightarrow> hm_get (registry st) (trim u) \<noteq> None"
  | (new) u r where "registry (adopt_one p n st) = hm_insert u r (registry st)" "hm_get (registry st) u = None"
      "vm_id r = u" "vm_name r = n" "\<And>x. fst (run_virsh p [''domuuid'', n] None st) = Inr x \<Longrightarrow> u = trim x"
proof -
  obtain q st1 where a: "run_virsh p [''domuuid'', n] None st = (q, st1)" by fastforce
  obtain i st2 where b: "run_virsh p [''dominfo'', n] None st1 = (i, st2)" by fastforce
  have reg: "registry st1 = registry st" "registry st2 = registry st"
    using run_virsh_keeps(1) [OF a] run_virsh_keeps(1) [OF b] by simp_all
  show thesis
  proof (cases "\<exists>u. q = Inr u \<and> trim u \<noteq> [] \<and> hm_get (registry st) (trim u) = None")
    case True
    then obtain u where u: "q = Inr u" "trim u \<noteq> []" "hm_get (registry st) (trim u) = None" by blast
    then obtain d where "adopt_one p n st = put_record (trim u) d Up st2" "ds_name d = n"
      using a b reg by (simp add: adopt_one_def Let_def)
    moreover define r where "r = \<lparr>vm_id = trim u, vm_name = n, mem_size_mb = ds_mem_mb d, vcpus = ds_vcpus d, state = Up,
      created_secs = now_secs (host st2)\<rparr>"
    ultimately show thesis using u a reg by (intro new [of "trim u" r]) (simp_all add: put_record_def)
  next
    case False
    then show thesis
      using a reg by (intro same) (auto simp: adopt_one_def Let_def split: sum.splits)
  qed
qed

lemma adopt_each_registry: "registry_ok (registry st) \<Longrightarrow> registry_ok (registry (adopt_each p ns st))"
proof (induction ns arbitrary: st)
  case (Cons n ns)
  from Cons.prems have "registry_ok (registry (adopt_one p n st))"
    by (cases rule: adopt_one_cases [of p n st]) (simp_all add: registry_ok_insert)
  with Cons.IH show ?case by simp
qed simp

lemma reconcile_registry: "registry_ok (registry st) \<Longrightarrow> registry_ok (registry (reconcile_from_libvirt p st))"
  by (auto simp: reconcile_from_libvirt_def Let_def run_virsh_keeps registry_ok_filter
      intro!: adopt_each_registry split: prod.splits sum.splits)

lemma task_step_registry:
  "task_step p t st = (ts, st1) \<Longrightarrow> registry_ok (registry st) \<Longrightarrow> registry_ok (registry st1)"
  by (cases t) (auto simp: task_step_def registry_ok_rules split: prod.splits dest!: run_virsh_keeps(1))

lemma dump_each_keeps [simp]:
  "registry (snd (dump_each p is out st)) = registry st" "tasks (snd (dump_each p is out st)) = tasks st"
  by (induction "is" arbitrary: out st) (auto simp: case_prod_beta split: sum.splits)

lemma handlers_registry:
  assumes "h \<in> set (vm_handlers p)" "registry_ok (registry st)"
  shows "registry_ok (registry (snd (h params st)))"
proof -
  have "registry_ok (registry (snd (vm_create p params st)))"
    using assms(2) by (auto simp: vm_create_def on_vm_def Let_def registry_ok_rules split: prod.splits sum.splits dest!: run_virsh_keeps(1))
  moreover have "registry_ok (registry (snd (dump_xmls p params st)))"
    using assms(2) by (simp add: dump_xmls_def case_prod_beta)
  moreover have "registry_ok (registry (snd (vm_migrate_status p params st)))"
    using assms(2) by (auto simp: vm_migrate_status_def on_vm_def Let_def split: prod.splits sum.splits dest!: run_virsh_keeps(1))
  ultimately show ?thesis
    using assms
    by (auto simp: vm_handlers_def on_vm_def Let_def registry_ok_rules spawn_def vm_destroy_def vm_shutdown_def vm_cont_def
        vm_pause_def vm_migrate_def vm_migration_create_def vm_migration_cancel_def vm_migrate_change_params_def
        vm_set_ticket_def vm_update_device_def vm_get_stats_def split: sum.splits option.splits)
qed

text \<open>
  Whatever the order of verbs, reconciliations, steps of spawned tasks and changes of the machine,
  the registry has one record per machine, filed under the identifier the record has.
\<close>

theorem vm_registry_consistent:
  assumes "virt_reachable p st"
  shows "distinct (map fst (registry st)) \<and> (\<forall>k r. hm_get (registry st) k = Some r \<longrightarrow> vm_id r = k)"
proof -
  have "registry_ok (registry st)"
    using assms
  proof (induction rule: virt_reachable.induct)
    case (start s)
    then show ?case by (simp add: virt_start_def registry_ok_def hm_ok_def)
  next
    case (step st st1)
    from step(2,3) show ?case
    proof (cases rule: virt_step.cases)
      case (task a t b ts st2)
      then show ?thesis using step(3) task_step_registry [OF task(3)] by simp
    qed (auto simp: handlers_registry reconcile_registry)
  qed
  then show ?thesis by (simp add: registry_ok_def hm_ok_def)
qed

section \<open>Creation\<close>

lemma record_to_stats_fields:
  "json_get (record_to_stats r t) ''status'' = Some (JStr (as_engine_str (state r)))"
  "json_get (record_to_stats r t) ''vmName'' = Some (JStr (vm_name r))"
  by (simp_all add: record_to_stats_def json_get_obj)

text \<open>
  \<open>VM.create\<close> records a machine exactly when libvirt has taken the definition and started it; then
  the statistics report it as up. When it fails the registry is as it was.
\<close>

theorem vm_create_effect:
  "case vm_create p params st of
     (Inl _, st1) \<Rightarrow> registry st1 = registry st
   | (Inr _, st1) \<Rightarrow> \<exists>v d st2 st3 out j. vm_id_from params = Inr v \<and> d = from_vm_params v params \<and>
       fst (run_virsh p [''define'', ''/dev/stdin''] (Some (to_xml d)) st) = Inr out \<and>
       snd (run_virsh p [''define'', ''/dev/stdin''] (Some (to_xml d)) st) = st2 \<and>
       run_virsh p [''start'', ds_name d] None st2 = (Inr j, st3) \<and> st1 = put_record v d Up st3 \<and>
       (\<exists>x. fst (vm_get_stats params st1) = Inr (json_obj [(''statsList'', JArr [x])]) \<and>
          json_get x ''status'' = Some (JStr ''Up'') \<and> json_get x ''vmName'' = Some (JStr (ds_name d)))"
proof (cases "vm_id_from params")
  case (Inl e)
  then show ?thesis by (simp add: vm_create_def on_vm_def)
next
  case (Inr v)
  let ?d = "from_vm_params v params"
  obtain r1 st1 where one: "run_virsh p [''define'', ''/dev/stdin''] (Some (to_xml ?d)) st = (r1, st1)" by fastforce
  obtain r2 st2 where two: "run_virsh p [''start'', ds_name ?d] None st1 = (r2, st2)" by fastforce
  have reg: "registry st1 = registry st" "registry st2 = registry st"
    using run_virsh_keeps(1) [OF one] run_virsh_keeps(1) [OF two] by simp_all
  have shown: "\<exists>x. fst (vm_get_stats params (put_record v ?d Up st2)) = Inr (json_obj [(''statsList'', JArr [x])]) \<and>
      json_get x ''status'' = Some (JStr ''Up'') \<and> json_get x ''vmName'' = Some (JStr (ds_name ?d))"
    using Inr by (auto simp: vm_get_stats_def on_vm_def put_record_def update_conv' record_to_stats_fields as_engine_str_def Let_def)
  show ?thesis
    using Inr one two reg shown
    by (cases r1; cases r2) (simp_all add: vm_create_def on_vm_def Let_def)
qed

section \<open>The watchdog of a shutdown\<close>

lemma run_virsh_ok:
  assumes "p VIRSH ([''-c'', URI] @ args) i (host st) = (Inr out, s1)" "success out"
  shows "run_virsh p args i st = (Inr (from_utf8_lossy (stdout_bytes out)), st\<lparr>host := s1\<rparr>)"
  using assms by (simp add: run_virsh_def)

lemma host_run_virsh: "host (snd (run_virsh p args i st)) = snd (p VIRSH ([''-c'', URI] @ args) i (host st))"
  by (auto simp: run_virsh_def split: prod.splits sum.splits proc_error.splits)

lemma task_runs:
  assumes "tasks st = ts @ [t]" "task_step p t (st\<lparr>tasks := ts\<rparr>) = (us, st1)" "tasks st1 = ts"
  shows "virt_step p st (st1\<lparr>tasks := ts @ us\<rparr>)"
  using virt_step.task [of st ts t "[]" p us st1] assms by simp

text \<open>A pending watchdog whose domain runs when it wakes destroys the domain and marks the record.\<close>

lemma watchdog_fires:
  assumes pending: "tasks st = ts @ [Watchdog n v]"
    and runs: "p VIRSH [''-c'', URI, ''domstate'', n] None (host st) = (Inr out, s1)" "success out"
      "to_ascii_lowercase (trim (from_utf8_lossy (stdout_bytes out))) = ''running''"
    and rec: "hm_get (registry st) v = Some r"
  shows "\<exists>st2. (virt_step p)\<^sup>*\<^sup>* st st2 \<and> hm_get (registry st2) v = Some (r\<lparr>state := Down\<rparr>) \<and>
    host st2 = snd (p VIRSH [''-c'', URI, ''destroy'', n] None s1)"
proof -
  let ?s2 = "snd (p VIRSH [''-c'', URI, ''destroy'', n] None s1)"
  let ?a = "st\<lparr>host := s1, tasks := ts @ [ForceDestroy n v]\<rparr>"
  let ?b = "st\<lparr>host := ?s2, tasks := ts @ [MarkDown v]\<rparr>"
  let ?c = "(set_state v Down (st\<lparr>host := ?s2, tasks := ts\<rparr>))"
  have w: "run_virsh p [''domstate'', n] None (st\<lparr>tasks := ts\<rparr>) =
      (Inr (from_utf8_lossy (stdout_bytes out)), st\<lparr>tasks := ts, host := s1\<rparr>)"
    using run_virsh_ok [of p "[''domstate'', n]" None "st\<lparr>tasks := ts\<rparr>" out s1] runs(1,2) by simp
  have "virt_step p st (st\<lparr>host := s1, tasks := ts\<rparr>\<lparr>tasks := ts @ [ForceDestroy n v]\<rparr>)"
    by (rule task_runs [OF pending]) (simp_all add: task_step_def w runs(3))
  then have one: "virt_step p st ?a" by simp
  have d: "snd (run_virsh p [''destroy'', n] None (?a\<lparr>tasks := ts\<rparr>)) = st\<lparr>host := ?s2, tasks := ts\<rparr>"
    by (simp add: run_virsh_def split: prod.splits sum.splits proc_error.splits)
  have "virt_step p ?a (st\<lparr>host := ?s2, tasks := ts\<rparr>\<lparr>tasks := ts @ [MarkDown v]\<rparr>)"
    by (rule task_runs [where t = "ForceDestroy n v"]) (use d in \<open>simp_all add: task_step_def\<close>)
  then have two: "virt_step p ?a ?b" by simp
  have "virt_step p ?b (?c\<lparr>tasks := ts @ []\<rparr>)"
    by (rule task_runs [where t = "MarkDown v"]) (simp_all add: task_step_def set_state_def rec)
  with one two have "(virt_step p)\<^sup>*\<^sup>* st (?c\<lparr>tasks := ts @ []\<rparr>)"
    by (meson r_into_rtranclp rtranclp.rtrancl_into_rtrancl)
  moreover have "hm_get (registry (?c\<lparr>tasks := ts @ []\<rparr>)) v = Some (r\<lparr>state := Down\<rparr>)" "host (?c\<lparr>tasks := ts @ []\<rparr>) = ?s2"
    by (simp_all add: set_state_def rec update_conv')
  ultimately show ?thesis by blast
qed



section \<open>Reconciliation\<close>

lemma adopt_each_keeps: "hm_get (registry st) k = Some r \<Longrightarrow> hm_get (registry (adopt_each p ns st)) k = Some r"
proof (induction ns arbitrary: st)
  case (Cons n ns)
  from Cons.prems have "hm_get (registry (adopt_one p n st)) k = Some r"
    by (cases rule: adopt_one_cases [of p n st]) (auto simp: update_conv')
  with Cons.IH show ?case by simp
qed simp

lemma adopt_each_new:
  "hm_get (registry (adopt_each p ns st)) k = Some r \<Longrightarrow> hm_get (registry st) k = Some r \<or> vm_name r \<in> set ns"
proof (induction ns arbitrary: st)
  case (Cons n ns)
  then have "hm_get (registry (adopt_one p n st)) k = Some r \<or> vm_name r \<in> set ns" by simp
  moreover have "hm_get (registry (adopt_one p n st)) k = Some r \<Longrightarrow> hm_get (registry st) k = Some r \<or> vm_name r = n"
    by (cases rule: adopt_one_cases [of p n st]) (auto simp: update_conv' split: if_splits)
  ultimately show ?case by auto
qed simp

lemma adopt_each_complete:
  assumes "n \<in> set ns" "\<And>st. fst (run_virsh p [''domuuid'', n] None st) = Inr u" "trim u \<noteq> []"
  shows "hm_get (registry (adopt_each p ns st)) (trim u) \<noteq> None"
  using assms(1)
proof (induction ns arbitrary: st)
  case (Cons m ns)
  have "hm_get (registry (adopt_one p n st)) (trim u) \<noteq> None" for st
    using assms(2,3) by (cases rule: adopt_one_cases [of p n st]) (auto simp: update_conv')
  then show ?case using Cons adopt_each_keeps by (cases "m = n") fastforce+
qed simp

text \<open>
  C31: reconciling makes the registry follow the list of running domains. Records of running domains
  are kept as they are, a running domain whose identifier libvirt tells is adopted, and every
  other record is dropped, that of a paused machine or of an incoming migration included.
\<close>

theorem reconcile_tracks_running:
  assumes "distinct (map fst (registry st))"
    and "run_virsh p [''list'', ''--name'', ''--state-running''] None st = (Inr out, st1)"
    and "m = registry (reconcile_from_libvirt p st)"
  shows "(\<forall>k r. hm_get (registry st) k = Some r \<and> vm_name r \<in> set (running_names out) \<longrightarrow> hm_get m k = Some r) \<and>
    (\<forall>k r. hm_get m k = Some r \<longrightarrow> vm_name r \<in> set (running_names out)) \<and>
    (\<forall>n \<in> set (running_names out). \<forall>u. (\<forall>s. fst (run_virsh p [''domuuid'', n] None s) = Inr u) \<and> trim u \<noteq> [] \<longrightarrow>
      hm_get m (trim u) \<noteq> None)"
proof -
  let ?n = "running_names out"
  let ?f = "filter (\<lambda>(k, r). vm_name r \<in> set ?n) (registry st)"
  have m: "m = registry (adopt_each p ?n (st1\<lparr>registry := ?f\<rparr>))"
    using assms(2,3) run_virsh_keeps(1) [OF assms(2)] by (simp add: reconcile_from_libvirt_def Let_def)
  have f: "hm_get ?f k = Some r \<longleftrightarrow> hm_get (registry st) k = Some r \<and> vm_name r \<in> set ?n" for k r
    by (rule hm_get_filter_Some) (simp add: hm_ok_def assms(1))
  have "hm_get m k = Some r" if "hm_get (registry st) k = Some r" "vm_name r \<in> set ?n" for k r
    unfolding m by (rule adopt_each_keeps) (simp add: f that)
  moreover have "vm_name r \<in> set ?n" if "hm_get m k = Some r" for k r
    using adopt_each_new [OF that [unfolded m]] f by auto
  moreover have "hm_get m (trim u) \<noteq> None"
    if "n \<in> set ?n" "\<forall>s. fst (run_virsh p [''domuuid'', n] None s) = Inr u" "trim u \<noteq> []" for n u
    unfolding m using that by (intro adopt_each_complete) auto
  ultimately show ?thesis by blast
qed

section \<open>Concrete instances\<close>

text \<open>A \<open>virsh\<close> that accepts everything, has no running domains to list, and says of each that it runs.\<close>

definition sample_virsh :: "unit proc" where
  "sample_virsh bin args i s =
     (Inr \<lparr>exit_code = Some 0, stdout_bytes = (if args ! 2 = ''domstate'' then ''running'' else []), stderr_bytes = []\<rparr>, s)"

definition sample_params :: json where
  "sample_params = json_obj [(''vmID'', JStr ''v1''), (''vmName'', JStr ''m1'')]"

definition sample_record :: vm_record where
  "sample_record = \<lparr>vm_id = ''v1'', vm_name = ''m1'', mem_size_mb = 1024, vcpus = 1, state = Up, created_secs = 0\<rparr>"

definition vm_up :: "unit virt" where
  "vm_up = \<lparr>registry = [(''v1'', sample_record)], host = \<lparr>files = [], now_secs = 0, outside = ()\<rparr>, tasks = []\<rparr>"

lemma sample_virsh_run:
  "run_virsh sample_virsh args i st = (Inr (if ([''-c'', URI] @ args) ! 2 = ''domstate'' then ''running'' else []), st)"
proof -
  have "from_utf8_lossy ''running'' = ''running''" "from_utf8_lossy [] = []" by code_simp+
  then show ?thesis by (simp add: run_virsh_def sample_virsh_def success_def)
qed

lemma sample_ids:
  "vm_id_from sample_params = Inr ''v1''" "ds_name (from_vm_params ''v1'' sample_params) = ''m1''"
  by (simp_all add: vm_id_from_def sample_params_def json_get_obj from_vm_params_def Let_def)

lemma sample_create:
  "vm_create sample_virsh sample_params st =
     (Inr (json_obj [(''vmList'', json_obj [(''vmId'', JStr ''v1''), (''status'', JStr (as_engine_str Up))])]),
      put_record ''v1'' (from_vm_params ''v1'' sample_params) Up st)"
  by (simp add: vm_create_def on_vm_def sample_ids sample_virsh_run Let_def)

lemma vm_up_reachable: "virt_reachable sample_virsh vm_up"
proof -
  have "from_vm_params ''v1'' sample_params = \<lparr>ds_uuid = ''v1'', ds_name = ''m1'', ds_mem_mb = 1024, ds_vcpus = 1\<rparr>"
    by (simp add: from_vm_params_def sample_params_def json_get_obj DEFAULT_MEM_MB_def DEFAULT_VCPUS_def Let_def)
  then have "vm_up = snd (vm_create sample_virsh sample_params (virt_start (host vm_up)))"
    unfolding sample_create by (simp add: put_record_def virt_start_def vm_up_def sample_record_def)
  moreover have "virt_step sample_virsh (virt_start (host vm_up)) (snd (vm_create sample_virsh sample_params (virt_start (host vm_up))))"
    by (rule virt_step.verb) (simp add: vm_handlers_def)
  ultimately show ?thesis using virt_reachable.step [OF virt_reachable.start] by metis
qed

theorem vm_registry_consistent_witness:
  "distinct (map fst (registry vm_up)) \<and> vm_id (the (hm_get (registry vm_up) ''v1'')) = ''v1''"
  using vm_registry_consistent [OF vm_up_reachable] by (auto simp: vm_up_def)

lemma vm_up_record: "hm_get (registry vm_up) ''v1'' = Some sample_record" "vm_name sample_record = ''m1''"
  by (simp_all add: vm_up_def sample_record_def)

lemma sample_running:
  "sample_virsh VIRSH [''-c'', URI, ''domstate'', vm_name sample_record] None s =
     (Inr \<lparr>exit_code = Some 0, stdout_bytes = ''running'', stderr_bytes = []\<rparr>, s)"
  "success \<lparr>exit_code = Some 0, stdout_bytes = ''running'', stderr_bytes = []\<rparr>"
  "to_ascii_lowercase (trim (from_utf8_lossy (stdout_bytes \<lparr>exit_code = Some 0, stdout_bytes = ''running'', stderr_bytes = []\<rparr>))) = ''running''"
  by (simp add: sample_virsh_def, simp add: success_def, code_simp)



theorem reconcile_tracks_running_witness:
  "hm_get (registry (reconcile_from_libvirt sample_virsh (snd (vm_pause sample_virsh sample_params vm_up)))) ''v1'' = None"
proof -
  let ?st = "snd (vm_pause sample_virsh sample_params vm_up)"
  have "registry ?st = [(''v1'', sample_record\<lparr>state := Paused\<rparr>)]"
    by (simp add: vm_pause_def on_vm_def sample_ids sample_virsh_run set_state_def vm_up_def)
  then have "distinct (map fst (registry ?st))" by simp
  from reconcile_tracks_running [OF this _ refl, of sample_virsh "[]" ?st]
  show ?thesis by (simp add: sample_virsh_run running_names_def)
qed

section \<open>Spawned tasks come to an end\<close>

text \<open>
  Runs in which no verb spawns anything new: steps of tasks, counted, between arbitrary
  reconciliations and changes of the machine.
\<close>

inductive task_run :: "'x proc \<Rightarrow> nat \<Rightarrow> 'x virt \<Rightarrow> 'x virt \<Rightarrow> bool" for p where
  here: "task_run p 0 st st"
| world: "task_run p n st st1 \<Longrightarrow> task_run p n st (st1\<lparr>host := s\<rparr>)"
| reconcile: "task_run p n st st1 \<Longrightarrow> task_run p n st (reconcile_from_libvirt p st1)"
| task: "task_run p n st st1 \<Longrightarrow> tasks st1 = a @ t # b \<Longrightarrow> task_step p t (st1\<lparr>tasks := a @ b\<rparr>) = (ts, st2) \<Longrightarrow>
    task_run p (Suc n) st (st2\<lparr>tasks := tasks st2 @ ts\<rparr>)"

fun task_weight :: "vm_task \<Rightarrow> nat" where
  "task_weight (Migrate n dst) = 1"
| "task_weight (Watchdog n v) = 3"
| "task_weight (ForceDestroy n v) = 2"
| "task_weight (MarkDown v) = 1"

definition work_left :: "'x virt \<Rightarrow> nat" where
  "work_left st = sum_list (map task_weight (tasks st))"

lemma task_step_weight:
  "task_step p t st = (ts, st1) \<Longrightarrow> sum_list (map task_weight ts) < task_weight t \<and> tasks st1 = tasks st"
  by (cases t) (auto simp: task_step_def set_state_def split: prod.splits sum.splits if_splits option.splits dest!: run_virsh_keeps(2))

lemma adopt_each_tasks: "tasks (adopt_each p ns st) = tasks st"
  by (induction ns arbitrary: st) (auto simp: adopt_one_def Let_def put_record_def split: prod.splits sum.splits option.splits
      dest!: run_virsh_keeps(2))

lemma reconcile_tasks: "tasks (reconcile_from_libvirt p st) = tasks st"
  by (auto simp: reconcile_from_libvirt_def Let_def run_virsh_keeps adopt_each_tasks split: prod.splits sum.splits)

lemma task_run_work: "task_run p n st st1 \<Longrightarrow> n + work_left st1 \<le> work_left st"
proof (induction rule: task_run.induct)
  case (task n st st1 a t b ts st2)
  then show ?case using task_step_weight [OF task(3)] by (simp add: work_left_def)
qed (simp_all add: work_left_def reconcile_tasks)

lemma work_left_bound: "work_left st \<le> 3 * length (tasks st)"
proof -
  have "sum_list (map task_weight ts) \<le> 3 * length ts" for ts
  proof (induction ts)
    case (Cons t ts)
    then show ?case by (cases t) auto
  qed simp
  then show ?thesis by (simp add: work_left_def)
qed

lemma task_run_end: "task_run p n st st1 \<Longrightarrow> \<exists>m st2. task_run p m st st2 \<and> tasks st2 = []"
proof (induction "work_left st1" arbitrary: n st1 rule: less_induct)
  case less
  show ?case
  proof (cases "tasks st1")
    case Nil
    then show ?thesis using less.prems by blast
  next
    case (Cons t ts)
    obtain us st2 where step: "task_step p t (st1\<lparr>tasks := ts\<rparr>) = (us, st2)" by fastforce
    have "task_run p (Suc n) st (st2\<lparr>tasks := tasks st2 @ us\<rparr>)"
      by (rule task_run.task [OF less.prems, where a = "[]"]) (use Cons step in simp_all)
    moreover have "work_left (st2\<lparr>tasks := tasks st2 @ us\<rparr>) < work_left st1"
      using task_step_weight [OF step] Cons by (simp add: work_left_def)
    ultimately show ?thesis using less.hyps by blast
  qed
qed

text \<open>
  The background work of the daemon terminates. As long as no verb spawns more, at most three
  steps per pending task are taken, whatever libvirt does in between, and the run that always steps
  some task ends with none left.
\<close>

theorem spawned_tasks_terminate:
  "(\<forall>n st1. task_run p n st st1 \<longrightarrow> n \<le> 3 * length (tasks st)) \<and>
   (\<exists>n st1. task_run p n st st1 \<and> tasks st1 = [])"
  using task_run_work [of p _ st] work_left_bound [of st] task_run_end [OF task_run.here, of p st]
  by (meson add_leD1 order_trans)

theorem spawned_tasks_terminate_witness:
  "\<exists>n st1. task_run sample_virsh n (snd (vm_shutdown sample_virsh sample_params vm_up)) st1 \<and> tasks st1 = [] \<and>
     n \<le> 3 * length (tasks (snd (vm_shutdown sample_virsh sample_params vm_up)))"
  using spawned_tasks_terminate [of sample_virsh "snd (vm_shutdown sample_virsh sample_params vm_up)"] by blast

end
