(* ===== verification/Float64.thy ===== *)
theory Float64
  imports Rust_Str
begin

text \<open>
  What the host statistics use of \<open>f64\<close>: values, correct rounding to the nearest (ties to even),
  reading decimal text, the four operations that occur, and \<open>{:.n}\<close> formatting, which prints the
  exact value rounded to \<open>n\<close> digits, ties to even.
\<close>

section \<open>Values\<close>

text \<open>A finite value is a sign, a mantissa below \<open>2 ^ 53\<close> and a binary exponent.\<close>

datatype f64 = Fin (negative: bool) (mantissa: nat) (exponent: int) | Inf bool | NaN

fun ilog2 :: "nat \<Rightarrow> nat" where
  "ilog2 n = (if n < 2 then 0 else Suc (ilog2 (n div 2)))"

declare ilog2.simps [simp del]

text \<open>\<open>a / b\<close> rounded to a whole number, ties to even.\<close>

definition round_div :: "nat \<Rightarrow> nat \<Rightarrow> nat" where
  "round_div a b =
     (let q = a div b; r = a mod b
      in if b < 2 * r \<or> (2 * r = b \<and> odd q) then q + 1 else q)"

text \<open>\<open>a / b * 2 ^ (- e)\<close> as a fraction.\<close>

definition scaled :: "nat \<Rightarrow> nat \<Rightarrow> int \<Rightarrow> nat \<times> nat" where
  "scaled a b e = (if 0 \<le> e then (a, b * 2 ^ nat e) else (a * 2 ^ nat (- e), b))"

definition fraction_log2 :: "nat \<Rightarrow> nat \<Rightarrow> int" where
  "fraction_log2 a b =
     (let k = int (ilog2 a) - int (ilog2 b); (x, y) = scaled a b k
      in if y \<le> x then k else k - 1)"

definition round_f64 :: "bool \<Rightarrow> nat \<Rightarrow> nat \<Rightarrow> f64" where
  "round_f64 s a b =
     (if a = 0 then Fin s 0 0
      else
        (let e = max (- 1074) (fraction_log2 a b - 52); (x, y) = scaled a b e; m = round_div x y
         in if 2 ^ 53 \<le> m \<and> 971 \<le> e \<or> 971 < e then Inf s else Fin s m e))"

definition f64_num :: "f64 \<Rightarrow> nat" where
  "f64_num x = mantissa x * 2 ^ nat (exponent x)"

definition f64_den :: "f64 \<Rightarrow> nat" where
  "f64_den x = 2 ^ nat (- exponent x)"

section \<open>Reading\<close>

definition all_digits :: "string \<Rightarrow> bool" where
  "all_digits s = list_all is_digit s"

definition split_sign :: "string \<Rightarrow> bool \<times> string" where
  "split_sign s =
     (case s of
        c # r \<Rightarrow> if c = CHR ''-'' then (True, r) else if c = CHR ''+'' then (False, r) else (False, s)
      | [] \<Rightarrow> (False, []))"

text \<open>Mantissa digits with at most one point, and a decimal exponent.\<close>

definition parse_exponent :: "string \<Rightarrow> int option" where
  "parse_exponent s =
     (case split_sign s of
        (neg, d) \<Rightarrow>
          if d \<noteq> [] \<and> all_digits d then Some (if neg then - int (dec_val 0 d) else int (dec_val 0 d)) else None)"

definition parse_decimal :: "string \<Rightarrow> (nat \<times> int) option" where
  "parse_decimal s =
     (let (i, f) = (case split_once CHR ''.'' s of Some (a, b) \<Rightarrow> (a, b) | None \<Rightarrow> (s, []))
      in if i @ f \<noteq> [] \<and> all_digits (i @ f) then Some (dec_val 0 (i @ f), - int (length f)) else None)"

definition exponent_split :: "string \<Rightarrow> string \<times> string option" where
  "exponent_split s =
     (let a = takeWhile (\<lambda>c. c \<noteq> CHR ''e'' \<and> c \<noteq> CHR ''E'') s
      in if length a < length s then (a, Some (drop (Suc (length a)) s)) else (a, None))"

definition parse_f64 :: "string \<Rightarrow> f64 option" where
  "parse_f64 s =
     (case split_sign s of
        (neg, r) \<Rightarrow>
          (let w = to_ascii_lowercase r
           in if w = ''inf'' \<or> w = ''infinity'' then Some (Inf neg)
              else if w = ''nan'' then Some NaN
              else
                (case exponent_split r of
                   (m, x) \<Rightarrow>
                     (case (parse_decimal m, case x of None \<Rightarrow> Some 0 | Some t \<Rightarrow> parse_exponent t) of
                        (Some (d, k), Some e) \<Rightarrow>
                          Some (if 0 \<le> k + e then round_f64 neg (d * 10 ^ nat (k + e)) 1
                                else round_f64 neg d (10 ^ nat (- (k + e))))
                      | _ \<Rightarrow> None))))"

section \<open>Arithmetic\<close>

definition f64_of_u64 :: "u64 \<Rightarrow> f64" where
  "f64_of_u64 n = round_f64 False (unat n) 1"

definition f64_lit :: "nat \<Rightarrow> f64" where
  "f64_lit n = round_f64 False n 1"

definition f64_is_zero :: "f64 \<Rightarrow> bool" where
  "f64_is_zero x = (case x of Fin s m e \<Rightarrow> m = 0 | _ \<Rightarrow> False)"

definition f64_positive :: "f64 \<Rightarrow> bool" where
  "f64_positive x = (case x of Fin s m e \<Rightarrow> \<not> s \<and> m \<noteq> 0 | Inf s \<Rightarrow> \<not> s | NaN \<Rightarrow> False)"

definition f64_mul :: "f64 \<Rightarrow> f64 \<Rightarrow> f64" where
  "f64_mul x y =
     (case (x, y) of
        (NaN, _) \<Rightarrow> NaN
      | (_, NaN) \<Rightarrow> NaN
      | (Inf s, Inf t) \<Rightarrow> Inf (s \<noteq> t)
      | (Inf s, Fin t m e) \<Rightarrow> if m = 0 then NaN else Inf (s \<noteq> t)
      | (Fin s m e, Inf t) \<Rightarrow> if m = 0 then NaN else Inf (s \<noteq> t)
      | (Fin s m e, Fin t n f) \<Rightarrow>
          round_f64 (s \<noteq> t) (f64_num x * f64_num y) (f64_den x * f64_den y))"

definition f64_div :: "f64 \<Rightarrow> f64 \<Rightarrow> f64" where
  "f64_div x y =
     (case (x, y) of
        (NaN, _) \<Rightarrow> NaN
      | (_, NaN) \<Rightarrow> NaN
      | (Inf s, Inf t) \<Rightarrow> NaN
      | (Inf s, Fin t m e) \<Rightarrow> Inf (s \<noteq> t)
      | (Fin s m e, Inf t) \<Rightarrow> Fin (s \<noteq> t) 0 0
      | (Fin s m e, Fin t n f) \<Rightarrow>
          if n = 0 then if m = 0 then NaN else Inf (s \<noteq> t)
          else round_f64 (s \<noteq> t) (f64_num x * f64_den y) (f64_den x * f64_num y))"

definition f64_signed :: "f64 \<Rightarrow> int" where
  "f64_signed x = (if negative x then - int (f64_num x) else int (f64_num x))"

text \<open>A difference that is exactly zero has the sign plus, unless it is \<open>-0 - 0\<close>.\<close>

definition f64_sub :: "f64 \<Rightarrow> f64 \<Rightarrow> f64" where
  "f64_sub x y =
     (case (x, y) of
        (NaN, _) \<Rightarrow> NaN
      | (_, NaN) \<Rightarrow> NaN
      | (Inf s, Inf t) \<Rightarrow> if s = t then NaN else Inf s
      | (Inf s, Fin t m e) \<Rightarrow> Inf s
      | (Fin s m e, Inf t) \<Rightarrow> Inf (\<not> t)
      | (Fin s m e, Fin t n f) \<Rightarrow>
          (let d = f64_signed x * int (f64_den y) - f64_signed y * int (f64_den x)
           in if d = 0 then Fin (m = 0 \<and> n = 0 \<and> s \<and> \<not> t) 0 0
              else round_f64 (d < 0) (nat \<bar>d\<bar>) (f64_den x * f64_den y)))"

definition f64_less :: "f64 \<Rightarrow> f64 \<Rightarrow> bool" where
  "f64_less x y =
     (case (x, y) of
        (NaN, _) \<Rightarrow> False
      | (_, NaN) \<Rightarrow> False
      | (Inf s, Inf t) \<Rightarrow> s \<and> \<not> t
      | (Inf s, Fin t m e) \<Rightarrow> s
      | (Fin s m e, Inf t) \<Rightarrow> \<not> t
      | (Fin s m e, Fin t n f) \<Rightarrow> f64_signed x * int (f64_den y) < f64_signed y * int (f64_den x))"

text \<open>\<open>f64::min\<close>: a NaN is ignored.\<close>

definition f64_min :: "f64 \<Rightarrow> f64 \<Rightarrow> f64" where
  "f64_min x y = (if x = NaN then y else if y = NaN then x else if f64_less y x then y else x)"

section \<open>Writing\<close>

definition pad_left :: "nat \<Rightarrow> string \<Rightarrow> string" where
  "pad_left n s = replicate (n - length s) CHR ''0'' @ s"

definition fmt_f64 :: "nat \<Rightarrow> f64 \<Rightarrow> string" where
  "fmt_f64 n x =
     (case x of
        NaN \<Rightarrow> ''NaN''
      | Inf s \<Rightarrow> (if s then ''-inf'' else ''inf'')
      | Fin s m e \<Rightarrow>
          (let q = round_div (f64_num x * 10 ^ n) (f64_den x);
               ds = pad_left (n + 1) (nat_dec q); k = length ds - n
           in (if s then ''-'' else []) @ take k ds @ (if n = 0 then [] else ''.'' @ drop k ds)))"

end
