(* ===== verification/Host_Sysinfo.thy ===== *)
theory Host_Sysinfo
  imports Os Float64 "HOL-Library.State_Monad"
begin

unbundle bit_operations_syntax

text \<open>
  \<open>crates/vdsm-host/src/sysinfo.rs\<close>: what the daemon finds out about its host, from \<open>/proc\<close> and
  \<open>/sys\<close> and from the output of a few programs. Functions that only read are functions of the
  machine; those that run a program are in the state monad over it.
\<close>

section \<open>Reading and running\<close>

type_synonym ('x, 'a) act = "('x os, 'a) state"

definition reading :: "('x os \<Rightarrow> 'a) \<Rightarrow> ('x, 'a) act" where
  "reading f = State (\<lambda>s. (f s, s))"

definition run_output :: "'x env \<Rightarrow> string \<Rightarrow> string list \<Rightarrow> ('x, cmd_output option) act" where
  "run_output e bin args =
     State (\<lambda>s. case exec e bin args s of (Inl m, s1) \<Rightarrow> (None, s1) | (Inr r, s1) \<Rightarrow> (Some r, s1))"

text \<open>\<open>fs::read_to_string(p).ok()\<close> and \<open>.unwrap_or_default()\<close>.\<close>

definition read_opt :: "'x env \<Rightarrow> string \<Rightarrow> 'x os \<Rightarrow> string option" where
  "read_opt e p s = (case read_to_string e p s of Inr t \<Rightarrow> Some t | Inl _ \<Rightarrow> None)"

definition read_text :: "'x env \<Rightarrow> string \<Rightarrow> 'x os \<Rightarrow> string" where
  "read_text e p s = unwrap_or [] (read_opt e p s)"

definition trimmed_or :: "'x env \<Rightarrow> string \<Rightarrow> string \<Rightarrow> 'x os \<Rightarrow> string" where
  "trimmed_or e d p s = unwrap_or d (map_option trim (read_opt e p s))"

definition dir_names :: "'x env \<Rightarrow> string \<Rightarrow> 'x os \<Rightarrow> string list" where
  "dir_names e p s = (case read_dir e p s of Inr ns \<Rightarrow> map from_utf8_lossy ns | Inl _ \<Rightarrow> [])"

text \<open>\<open>str::find\<close> and \<open>str::split\<close> with a (not empty) string pattern.\<close>

fun find_str :: "string \<Rightarrow> string \<Rightarrow> nat option" where
  "find_str w [] = (if w = [] then Some 0 else None)"
| "find_str w (c # s) = (if starts_with w (c # s) then Some 0 else map_option Suc (find_str w s))"

lemma find_str_bound: "find_str w s = Some i \<Longrightarrow> i + length w \<le> length s"
proof (induction w s arbitrary: i rule: find_str.induct)
  case (2 w c s)
  have "length w \<le> length (c # s)" if "starts_with w (c # s)"
    using that by (metis starts_with_iff length_append le_add1)
  with 2 show ?case by (auto split: if_splits)
qed (simp split: if_splits)

function split_str :: "string \<Rightarrow> string \<Rightarrow> string list" where
  "split_str w s =
     (case find_str w s of
        Some i \<Rightarrow> if w = [] then [s] else take i s # split_str w (drop (i + length w) s)
      | None \<Rightarrow> [s])"
  by pat_completeness auto
termination
  by (relation "measure (\<lambda>(w, s). length s)") (auto dest!: find_str_bound simp flip: length_greater_0_conv)

declare split_str.simps [simp del]

definition trim_matches :: "(char \<Rightarrow> bool) \<Rightarrow> string \<Rightarrow> string" where
  "trim_matches P s = rev (dropWhile P (rev (dropWhile P s)))"

section \<open>Identity\<close>

definition hostname :: "'x env \<Rightarrow> 'x os \<Rightarrow> string" where
  "hostname e = trimmed_or e ''unknown'' ''/proc/sys/kernel/hostname''"

definition kernel_release :: "'x env \<Rightarrow> 'x os \<Rightarrow> string" where
  "kernel_release e = trimmed_or e ''unknown'' ''/proc/sys/kernel/osrelease''"

definition nonempty_trimmed :: "'x env \<Rightarrow> string \<Rightarrow> 'x os \<Rightarrow> string option" where
  "nonempty_trimmed e p s =
     (case map_option trim (read_opt e p s) of Some t \<Rightarrow> if t = [] then None else Some t | None \<Rightarrow> None)"

definition vdsm_id :: "'x env \<Rightarrow> 'x os \<Rightarrow> string" where
  "vdsm_id e s =
     (case nonempty_trimmed e ''/etc/vdsm/vdsm.id'' s of
        Some t \<Rightarrow> t
      | None \<Rightarrow> unwrap_or ''00000000-0000-0000-0000-000000000000'' (nonempty_trimmed e ''/sys/class/dmi/id/product_uuid'' s))"

definition kvm_enabled :: "'x env \<Rightarrow> 'x os \<Rightarrow> bool" where
  "kvm_enabled e s \<longleftrightarrow> path_exists e ''/sys/module/kvm'' s \<or> path_exists e ''/dev/kvm'' s"

section \<open>Processors\<close>

record cpu_info =
  model_name :: string
  cpu_flags :: "string list"
  mhz :: f64
  physical_cores :: u32
  logical_cpus :: u32
  sockets :: u32

record cpu_scan =
  sc_model :: string
  sc_flags :: "string list"
  sc_mhz :: f64
  sc_physical :: "u32 list"
  sc_cores :: "(u32 \<times> u32) list"
  sc_logical :: u32
  sc_current :: "u32 option"

record cpu_block =
  blk_phys :: "u32 option"
  blk_core :: "u32 option"
  saw_processor :: bool

definition scan_line :: "cpu_scan \<times> cpu_block \<Rightarrow> string \<Rightarrow> cpu_scan \<times> cpu_block" where
  "scan_line cb line =
     (case (cb, split_once COLON line) of
        (_, None) \<Rightarrow> cb
      | ((c, b), Some (k0, v0)) \<Rightarrow>
          (let k = trim k0; v = trim v0
           in if k = ''processor'' then (c\<lparr>sc_logical := sc_logical c + 1\<rparr>, b\<lparr>saw_processor := True\<rparr>)
              else if k = ''model name'' \<and> sc_model c = [] then (c\<lparr>sc_model := v\<rparr>, b)
              else if k = ''flags'' \<and> sc_flags c = [] then (c\<lparr>sc_flags := split_whitespace v\<rparr>, b)
              else if k = ''cpu MHz'' \<and> f64_is_zero (sc_mhz c) then (c\<lparr>sc_mhz := unwrap_or (f64_lit 0) (parse_f64 v)\<rparr>, b)
              else if k = ''physical id'' then (c\<lparr>sc_current := parse_u32 v\<rparr>, b\<lparr>blk_phys := parse_u32 v\<rparr>)
              else if k = ''core id'' then (c, b\<lparr>blk_core := parse_u32 v\<rparr>)
              else cb))"

definition scan_block :: "cpu_scan \<Rightarrow> string \<Rightarrow> cpu_scan" where
  "scan_block c0 block =
     (case foldl scan_line (c0, \<lparr>blk_phys = None, blk_core = None, saw_processor = False\<rparr>) (str_lines block) of
        (c, b) \<Rightarrow>
          if saw_processor b then
            (let c1 = (case blk_phys b of Some p \<Rightarrow> c\<lparr>sc_physical := List.insert p (sc_physical c)\<rparr> | None \<Rightarrow> c)
             in case (case blk_phys b of Some p \<Rightarrow> Some p | None \<Rightarrow> sc_current c1, blk_core b) of
                  (Some p, Some k) \<Rightarrow> c1\<lparr>sc_cores := List.insert (p, k) (sc_cores c1)\<rparr>
                | _ \<Rightarrow> c1)
          else c)"

definition cpu_of_text :: "string \<Rightarrow> cpu_info" where
  "cpu_of_text raw =
     (let c = foldl scan_block
            \<lparr>sc_model = [], sc_flags = [], sc_mhz = f64_lit 0, sc_physical = [], sc_cores = [], sc_logical = 0, sc_current = None\<rparr>
            (split_str [NL, NL] raw)
      in \<lparr>model_name = (if sc_model c = [] then ''unknown'' else sc_model c),
          cpu_flags = sc_flags c,
          mhz = sc_mhz c,
          physical_cores = (if sc_cores c = [] then max (sc_logical c) 1 else of_nat (length (sc_cores c))),
          logical_cpus = max (sc_logical c) 1,
          sockets = of_nat (max (length (sc_physical c)) 1)\<rparr>)"

definition host_cpu_info :: "'x env \<Rightarrow> 'x os \<Rightarrow> cpu_info" where
  "host_cpu_info e s = cpu_of_text (read_text e ''/proc/cpuinfo'' s)"

section \<open>Memory, load and uptime\<close>

record mem_info =
  total_kb :: u64
  free_kb :: u64
  available_kb :: u64
  buffers_kb :: u64
  cached_kb :: u64
  swap_total_kb :: u64
  swap_free_kb :: u64

definition mem_line :: "mem_info \<Rightarrow> string \<Rightarrow> mem_info" where
  "mem_line m line =
     (case split_once COLON line of
        None \<Rightarrow> m
      | Some (k, v) \<Rightarrow>
          (let x = unwrap_or 0 (Option.bind (opt_hd (split_whitespace (trim v))) parse_u64)
           in if k = ''MemTotal'' then m\<lparr>total_kb := x\<rparr>
              else if k = ''MemFree'' then m\<lparr>free_kb := x\<rparr>
              else if k = ''MemAvailable'' then m\<lparr>available_kb := x\<rparr>
              else if k = ''Buffers'' then m\<lparr>buffers_kb := x\<rparr>
              else if k = ''Cached'' then m\<lparr>cached_kb := x\<rparr>
              else if k = ''SwapTotal'' then m\<lparr>swap_total_kb := x\<rparr>
              else if k = ''SwapFree'' then m\<lparr>swap_free_kb := x\<rparr>
              else m))"

definition host_mem_info :: "'x env \<Rightarrow> 'x os \<Rightarrow> mem_info" where
  "host_mem_info e s =
     foldl mem_line
       \<lparr>total_kb = 0, free_kb = 0, available_kb = 0, buffers_kb = 0, cached_kb = 0, swap_total_kb = 0, swap_free_kb = 0\<rparr>
       (str_lines (read_text e ''/proc/meminfo'' s))"

definition float_word :: "string list \<Rightarrow> nat \<Rightarrow> f64" where
  "float_word ws i = unwrap_or (f64_lit 0) (if i < length ws then parse_f64 (ws ! i) else None)"

definition loadavg :: "'x env \<Rightarrow> 'x os \<Rightarrow> f64 \<times> f64 \<times> f64" where
  "loadavg e s =
     (let ws = split_whitespace (read_text e ''/proc/loadavg'' s) in (float_word ws 0, float_word ws 1, float_word ws 2))"

definition uptime_secs :: "'x env \<Rightarrow> 'x os \<Rightarrow> f64" where
  "uptime_secs e s = float_word (split_whitespace (read_text e ''/proc/uptime'' s)) 0"

definition os_release :: "'x env \<Rightarrow> 'x os \<Rightarrow> (string, string) hmap" where
  "os_release e s =
     foldl (\<lambda>m l. case split_once CHR ''='' l of
                    Some (k, v) \<Rightarrow> hm_insert (trim k) (trim_matches (\<lambda>c. c = DQUOTE) (trim v)) m
                  | None \<Rightarrow> m) []
       (str_lines (read_text e ''/etc/os-release'' s))"

section \<open>Network interfaces\<close>

definition nic_names :: "'x env \<Rightarrow> 'x os \<Rightarrow> string list" where
  "nic_names e s = sort (filter (\<lambda>n. n \<noteq> ''lo'') (dir_names e ''/sys/class/net'' s))"

definition skip_iface :: "string \<Rightarrow> bool" where
  "skip_iface n \<longleftrightarrow>
     n = ''lo'' \<or> starts_with ''virbr'' n \<or> starts_with ''docker'' n \<or> starts_with ''br-'' n \<or>
     starts_with ''veth'' n \<or> starts_with ''vnet'' n \<or> starts_with ''ovirtmgmt'' n"

definition iface_up :: "'x env \<Rightarrow> string \<Rightarrow> 'x os \<Rightarrow> bool" where
  "iface_up e n s \<longleftrightarrow>
     map_option trim (read_opt e (''/sys/class/net/'' @ n @ ''/carrier'') s) = Some ''1'' \<and>
     trimmed_or e [] (''/sys/class/net/'' @ n @ ''/operstate'') s \<in> {''up'', ''unknown''}"

definition mgmt_iface :: "'x env \<Rightarrow> 'x os \<Rightarrow> string" where
  "mgmt_iface e s =
     (let candidates = nic_names e s
      in case find (\<lambda>n. \<not> skip_iface n \<and> iface_up e n s) candidates of
           Some n \<Rightarrow> n
         | None \<Rightarrow> unwrap_or ''lo'' (find (\<lambda>n. \<not> skip_iface n) candidates))"

definition iface_mac :: "'x env \<Rightarrow> string \<Rightarrow> 'x os \<Rightarrow> string" where
  "iface_mac e n = trimmed_or e ''00:00:00:00:00:00'' (''/sys/class/net/'' @ n @ ''/address'')"

definition iface_mtu :: "'x env \<Rightarrow> string \<Rightarrow> 'x os \<Rightarrow> string" where
  "iface_mtu e n = trimmed_or e ''1500'' (''/sys/class/net/'' @ n @ ''/mtu'')"

text \<open>\<open>str::parse::<Ipv4Addr>\<close>: four decimal octets without leading zeros.\<close>

definition octet_ok :: "string \<Rightarrow> bool" where
  "octet_ok t \<longleftrightarrow>
     t \<noteq> [] \<and> length t \<le> 3 \<and> list_all is_digit t \<and> (hd t = CHR ''0'' \<longrightarrow> length t = 1) \<and> dec_val 0 t \<le> 255"

definition ipv4_ok :: "string \<Rightarrow> bool" where
  "ipv4_ok t \<longleftrightarrow> length (split_on CHR ''.'' t) = 4 \<and> list_all octet_ok (split_on CHR ''.'' t)"

text \<open>\<open>u32::MAX.checked_shl(32 - prefix).unwrap_or(0)\<close>, the subtraction wrapping around.\<close>

definition mask_of :: "u32 \<Rightarrow> u32" where
  "mask_of plen = (let k = 32 - plen in if k < 32 then push_bit (unat k) (- 1) else 0)"

definition netmask_str :: "u32 \<Rightarrow> string" where
  "netmask_str m =
     u32_str (drop_bit 24 m AND 255) @ ''.'' @ u32_str (drop_bit 16 m AND 255) @ ''.'' @
     u32_str (drop_bit 8 m AND 255) @ ''.'' @ u32_str (m AND 255)"

fun ipv4_of_tokens :: "string list \<Rightarrow> string \<times> string \<times> string" where
  "ipv4_of_tokens [] = ([], [], [])"
| "ipv4_of_tokens (token # ts) =
     (case split_once SLASH token of
        None \<Rightarrow> ipv4_of_tokens ts
      | Some (ip, rest) \<Rightarrow>
          (if length (split_on CHR ''.'' ip) \<noteq> 4 then ipv4_of_tokens ts
           else if \<not> ipv4_ok ip then ipv4_of_tokens ts
           else (ip, token, netmask_str (mask_of (unwrap_or 24 (parse_u32 rest))))))"

definition iface_ipv4 :: "'x env \<Rightarrow> string \<Rightarrow> ('x, string \<times> string \<times> string) act" where
  "iface_ipv4 e n =
     do { r \<leftarrow> run_output e ''/usr/sbin/ip'' [''-4'', ''-o'', ''addr'', ''show'', n];
          State_Monad.return (case r of
             None \<Rightarrow> ([], [], [])
           | Some o1 \<Rightarrow> ipv4_of_tokens (split_whitespace (from_utf8_lossy (stdout_bytes o1)))) }"

fun gateway_of :: "string list \<Rightarrow> string" where
  "gateway_of [] = []"
| "gateway_of [t] = []"
| "gateway_of (t # g # ts) = (if t = ''via'' then g else gateway_of (g # ts))"

definition default_gateway :: "'x env \<Rightarrow> ('x, string) act" where
  "default_gateway e =
     do { r \<leftarrow> run_output e ''/usr/sbin/ip'' [''-4'', ''route'', ''show'', ''default''];
          State_Monad.return (case r of
             None \<Rightarrow> []
           | Some o1 \<Rightarrow> gateway_of (split_whitespace (from_utf8_lossy (stdout_bytes o1)))) }"

section \<open>Hardware\<close>

definition dmi_field :: "'x env \<Rightarrow> string \<Rightarrow> 'x os \<Rightarrow> string" where
  "dmi_field e field s =
     (case nonempty_trimmed e (''/sys/class/dmi/id/'' @ field) s of
        Some t \<Rightarrow> t
      | None \<Rightarrow> trimmed_or e [] (''/run/vdsm/'' @ field) s)"

definition tsc_frequency_mhz :: "'x env \<Rightarrow> 'x os \<Rightarrow> string" where
  "tsc_frequency_mhz e s =
     (case Option.bind (read_opt e ''/sys/devices/system/cpu/cpu0/cpufreq/base_frequency'' s) (\<lambda>t. parse_u64 (trim t)) of
        Some khz \<Rightarrow> fmt_f64 1 (f64_div (f64_of_u64 khz) (f64_lit 1000))
      | None \<Rightarrow> (let c = host_cpu_info e s in if f64_positive (mhz c) then fmt_f64 1 (mhz c) else []))"

text \<open>The ladder of processor models: each rung with the flags it needs.\<close>

definition model_ladder :: "(string list \<times> string list) list" where
  "model_ladder =
     [([''ssse3''], [''model_Conroe'', ''model_Penryn'']),
      ([''sse4_2'', ''popcnt''], [''model_Nehalem'']),
      ([''aes'', ''pclmulqdq''], [''model_Westmere'']),
      ([''avx''], [''model_SandyBridge'']),
      ([''f16c'', ''rdrand''], [''model_IvyBridge'']),
      ([''avx2'', ''bmi2''], [''model_Haswell-noTSX'', ''model_Haswell'']),
      ([''adx'', ''rdseed''], [''model_Broadwell-noTSX'', ''model_Broadwell'']),
      ([''xsavec'', ''xsaves''], [''model_Skylake-Client-noTSX-IBRS'', ''model_Skylake-Client'']),
      ([''clwb''], [''model_Skylake-Server-noTSX-IBRS'', ''model_Skylake-Server'']),
      ([''avx512vnni''], [''model_Cascadelake-Server-noTSX'', ''model_Cascadelake-Server'']),
      ([''gfni'', ''vaes''], [''model_Icelake-Server-noTSX'']),
      ([''amx_tile''], [''model_SapphireRapids'']),
      ([''svm''], [''model_Opteron_G1'', ''model_Opteron_G2'']),
      ([''svm'', ''sse4a''], [''model_Opteron_G3'']),
      ([''svm'', ''avx''], [''model_Opteron_G4'']),
      ([''svm'', ''avx'', ''xop''], [''model_Opteron_G5'']),
      ([''svm'', ''avx2''], [''model_EPYC'', ''model_EPYC-Rome'']),
      ([''svm'', ''avx512f''], [''model_EPYC-Genoa''])]"

definition model_tokens_from_flags :: "string list \<Rightarrow> string list" where
  "model_tokens_from_flags flags =
     concat (map (\<lambda>(needs, tokens). if list_all (\<lambda>f. f \<in> set flags) needs then tokens else []) model_ladder)"

definition selinux_mode :: "'x env \<Rightarrow> ('x, int) act" where
  "selinux_mode e =
     do { enforce \<leftarrow> reading (\<lambda>s. case fs_read e ''/sys/fs/selinux/enforce'' s of
                                   Inr b \<Rightarrow> (case from_utf8 (take 16 b) of Inr t \<Rightarrow> trim t | Inl _ \<Rightarrow> [])
                                 | Inl _ \<Rightarrow> []);
          if enforce = ''1'' then State_Monad.return 1
          else if enforce = ''0'' then State_Monad.return 0
          else
            do { r \<leftarrow> run_output e ''/usr/sbin/getenforce'' [];
                 State_Monad.return (case r of
                    None \<Rightarrow> - 1
                  | Some o1 \<Rightarrow>
                      if success o1 then
                        (let t = trim (from_utf8_lossy (stdout_bytes o1))
                         in if t = ''Enforcing'' then 1 else if t = ''Permissive'' then 0 else - 1)
                      else - 1) } }"

definition fips_enabled :: "'x env \<Rightarrow> 'x os \<Rightarrow> bool" where
  "fips_enabled e s \<longleftrightarrow> map_option trim (read_opt e ''/proc/sys/crypto/fips_enabled'' s) = Some ''1''"

definition hugepage_sizes_kb :: "'x env \<Rightarrow> 'x os \<Rightarrow> u64 list" where
  "hugepage_sizes_kb e s =
     sort (List.map_filter
       (\<lambda>n. Option.bind (Option.bind (strip_prefix ''hugepages-'' n) (strip_suffix ''kB'')) parse_u64)
       (dir_names e ''/sys/kernel/mm/hugepages'' s))"

section \<open>NUMA and boot time\<close>

definition cpulist_part :: "string \<Rightarrow> u32 list" where
  "cpulist_part t =
     (case split_once CHR ''-'' t of
        Some (a, b) \<Rightarrow>
          (case (parse_u32 a, parse_u32 b) of
             (Some x, Some y) \<Rightarrow> map of_nat [unat x ..< Suc (unat y)]
           | _ \<Rightarrow> [])
      | None \<Rightarrow> (case parse_u32 t of Some c \<Rightarrow> [c] | None \<Rightarrow> []))"

definition cpulist :: "string \<Rightarrow> u32 list" where
  "cpulist t = concat (map cpulist_part (split_on CHR '','' (trim t)))"

definition node_mem_kb :: "string \<Rightarrow> u64" where
  "node_mem_kb t =
     (case find (\<lambda>l. has_substr ''MemTotal:'' l) (str_lines t) of
        None \<Rightarrow> 0
      | Some l \<Rightarrow>
          (case rev (split_whitespace l) of
             _ # n # _ \<Rightarrow> unwrap_or 0 (parse_u64 n)
           | _ \<Rightarrow> 0))"

definition numa_nodes :: "'x env \<Rightarrow> 'x os \<Rightarrow> (u32 \<times> u32 list \<times> u64) list" where
  "numa_nodes e s =
     sort_key fst (List.map_filter
       (\<lambda>n. map_option
          (\<lambda>i. (i, cpulist (read_text e (''/sys/devices/system/node/'' @ n @ ''/cpulist'') s),
                 node_mem_kb (read_text e (''/sys/devices/system/node/'' @ n @ ''/meminfo'') s) div 1024))
          (Option.bind (strip_prefix ''node'' n) parse_u32))
       (dir_names e ''/sys/devices/system/node'' s))"

definition numa_distances :: "'x env \<Rightarrow> 'x os \<Rightarrow> (u32 \<times> u32 list) list" where
  "numa_distances e s =
     map (\<lambda>(i, _, _).
       (i, List.map_filter parse_u32
             (split_whitespace (trim (read_text e (''/sys/devices/system/node/node'' @ u32_str i @ ''/distance'') s)))))
       (numa_nodes e s)"

definition boot_time_secs :: "'x env \<Rightarrow> 'x os \<Rightarrow> u64" where
  "boot_time_secs e s =
     unwrap_or 0 (Option.bind (find_map (strip_prefix ''btime '') (str_lines (read_text e ''/proc/stat'' s)))
       (\<lambda>t. parse_u64 (trim t)))"

section \<open>Versions of programs\<close>

definition default_emulated_machines :: "string list" where
  "default_emulated_machines = [''q35'', ''pc'', ''pc-q35-rhel9.6.0'', ''pc-i440fx-rhel7.6.0'']"

definition machine_aliases :: "string list" where
  "machine_aliases =
     [''pc-q35-rhel9.6.0'', ''pc-q35-rhel9.4.0'', ''pc-q35-rhel9.2.0'', ''pc-q35-rhel8.6.0'', ''pc-q35-rhel8.4.0'',
      ''pc-i440fx-rhel7.6.0'', ''pc-i440fx-rhel7.5.0'']"

definition push_new :: "'a list \<Rightarrow> 'a \<Rightarrow> 'a list" where
  "push_new xs x = (if x \<in> set xs then xs else xs @ [x])"

definition machine_of_tag :: "string \<Rightarrow> string option" where
  "machine_of_tag tag =
     Option.bind (find_str ''</machine>'' tag) (\<lambda>end_at.
       Option.bind (split_once CHR ''>'' (take end_at tag)) (\<lambda>(_, rest).
         let name = trim rest
         in if starts_with ''pc-'' name \<or> name = ''q35'' \<or> name = ''pc'' then Some name else None))"

definition machines_of_xml :: "string \<Rightarrow> string list" where
  "machines_of_xml xml =
     (let machines = foldl push_new [] (List.map_filter machine_of_tag (split_str ''<machine'' xml))
      in if machines = [] then default_emulated_machines else foldl push_new machines machine_aliases)"

definition emulated_machines :: "'x env \<Rightarrow> ('x, string list) act" where
  "emulated_machines e =
     do { r \<leftarrow> run_output e ''/usr/bin/virsh'' [''-c'', ''qemu:///system'', ''capabilities''];
          State_Monad.return (case r of
             None \<Rightarrow> default_emulated_machines
           | Some o1 \<Rightarrow>
               if \<not> success o1 then default_emulated_machines else machines_of_xml (from_utf8_lossy (stdout_bytes o1))) }"

definition version_token :: "string \<Rightarrow> string option" where
  "version_token tok =
     (if list_ex is_digit tok \<and> CHR ''.'' \<in> set tok then Some (trim_matches (\<lambda>c. \<not> is_digit c \<and> c \<noteq> CHR ''.'') tok)
      else None)"

definition first_word_version :: "'x env \<Rightarrow> string \<Rightarrow> string list \<Rightarrow> ('x, string) act" where
  "first_word_version e cmd args =
     do { r \<leftarrow> run_output e cmd args;
          State_Monad.return (case r of
             None \<Rightarrow> []
           | Some o1 \<Rightarrow>
               if \<not> success o1 then []
               else unwrap_or [] (find_map version_token (split_whitespace (from_utf8_lossy (stdout_bytes o1))))) }"

text \<open>The rest of the first line of \<open>virsh version\<close> that starts with the given words.\<close>

definition virsh_version_line :: "'x env \<Rightarrow> string list \<Rightarrow> string \<Rightarrow> ('x, string) act" where
  "virsh_version_line e args w =
     do { r \<leftarrow> run_output e ''/usr/bin/virsh'' ([''-c'', ''qemu:///system'', ''version''] @ args);
          State_Monad.return (case r of
             None \<Rightarrow> []
           | Some o1 \<Rightarrow>
               unwrap_or [] (map_option trim (find_map (\<lambda>l. strip_prefix w (trim l)) (str_lines (from_utf8_lossy (stdout_bytes o1)))))) }"

definition libvirt_version :: "'x env \<Rightarrow> ('x, string) act" where
  "libvirt_version e = virsh_version_line e [''--daemon''] ''Using library: libvirt ''"

definition kvm_version :: "'x env \<Rightarrow> ('x, string) act" where
  "kvm_version e = virsh_version_line e [] ''Running hypervisor: QEMU ''"

definition spice_version :: "'x env \<Rightarrow> ('x, string) act" where
  "spice_version e = first_word_version e ''pkg-config'' [''--modversion'', ''spice-server'']"

definition gluster_version :: "'x env \<Rightarrow> ('x, string) act" where
  "gluster_version e = first_word_version e ''/usr/sbin/gluster'' [''--version'']"

definition ceph_version :: "'x env \<Rightarrow> ('x, string) act" where
  "ceph_version e = first_word_version e ''/usr/bin/ceph'' [''--version'']"

definition openvswitch_version :: "'x env \<Rightarrow> ('x, string) act" where
  "openvswitch_version e = first_word_version e ''/usr/sbin/ovs-vsctl'' [''--version'']"

definition nmstate_version :: "'x env \<Rightarrow> ('x, string) act" where
  "nmstate_version e = first_word_version e ''/usr/bin/nmstatectl'' [''--version'']"

definition kernel_features :: "'x env \<Rightarrow> 'x os \<Rightarrow> (string, string) hmap" where
  "kernel_features e s =
     foldl (\<lambda>m n. case read_opt e (''/sys/devices/system/cpu/vulnerabilities/'' @ n) s of
                    Some v \<Rightarrow> hm_insert n (trim v) m
                  | None \<Rightarrow> m) [] (dir_names e ''/sys/devices/system/cpu/vulnerabilities'' s)"

definition numa_node_count :: "'x env \<Rightarrow> 'x os \<Rightarrow> u32" where
  "numa_node_count e s =
     (case read_dir e ''/sys/devices/system/node'' s of
        Inl _ \<Rightarrow> 1
      | Inr ns \<Rightarrow>
          max 1 (foldl (\<lambda>k n. case strip_prefix ''node'' (from_utf8_lossy n) of
                                Some t \<Rightarrow> if list_all is_digit t then k + 1 else k
                              | None \<Rightarrow> k) 0 ns))"

section \<open>Network masks\<close>

text \<open>
  The network mask reported for a prefix of \<open>p\<close> bits has exactly the \<open>p\<close> highest bits set, from
  \<open>0.0.0.0\<close> to \<open>255.255.255.255\<close>; a prefix above 32 wraps around and gives the empty mask.
\<close>

theorem netmask_correct:
  "unat (mask_of p) = (if unat p \<le> 32 then 2 ^ 32 - 2 ^ (32 - unat p) else 0)"
proof (cases "unat p \<le> 32")
  case True
  then have le: "p \<le> 32" by (simp add: word_le_nat_alt)
  then have k: "unat (32 - p) = 32 - unat p" by (simp add: unat_sub)
  show ?thesis
  proof (cases "p = 0")
    case False
    then have pos: "0 < unat p" by (simp add: unat_gt_0)
    have "push_bit n (- 1 :: u32) = - (2 ^ n)" for n by (simp add: push_bit_eq_mult)
    moreover have "unat (- (2 ^ n) :: u32) = 2 ^ 32 - 2 ^ n" if "n < 32" for n
    proof -
      have "(2 :: nat) ^ n < 2 ^ 32" using that by (rule power_strict_increasing) simp
      then have "unat (of_nat (2 ^ n) :: u32) = 2 ^ n"
        using that by (simp add: unsigned_of_nat take_bit_nat_eq_self del: of_nat_power)
      then have n: "unat ((2 :: u32) ^ n) = 2 ^ n" by simp
      then have "unat (0 - (2 :: u32) ^ n) = 2 ^ 32 - 2 ^ n"
        unfolding unat_sub_if' n by simp
      then show ?thesis by simp
    qed
    moreover have "(32 - p) < 32" using k pos True by (simp add: word_less_nat_alt)
    ultimately show ?thesis using True k pos by (simp add: mask_of_def Let_def)
  qed (simp add: mask_of_def)
next
  case False
  moreover have "unat p < 2 ^ 32" using unsigned_less [of p] by simp
  ultimately have "\<not> 32 - p < 32" by (simp add: word_less_nat_alt unat_sub_if')
  with False show ?thesis by (simp add: mask_of_def Let_def)
qed

end
