(* ===== verification/Host_Caps.thy ===== *)
theory Host_Caps
  imports Host_Sysinfo Rpc
begin

text \<open>
  \<open>crates/vdsm-host/src/caps.rs\<close>, \<open>hardware.rs\<close>, \<open>ping.rs\<close> and \<open>setup_networks.rs\<close>: the inventory the
  engine reads. The fields of the answer are evaluated in the order they are written, programs
  run included. The large map \<open>info\<close> that \<open>get_capabilities\<close> builds and throws away only reads
  files; it is in the theory \<open>Host_Info\<close>.
\<close>

definition CLAIMED_VDSM_VERSION :: string where
  "CLAIMED_VDSM_VERSION = ''4.50.7''"

definition VDSM_RS_VERSION :: string where
  "VDSM_RS_VERSION = ''4.5.7''"

section \<open>Building answers\<close>

fun in_order :: "('s, 'a) state list \<Rightarrow> ('s, 'a list) state" where
  "in_order [] = State_Monad.return []"
| "in_order (m # ms) = do { x \<leftarrow> m; xs \<leftarrow> in_order ms; State_Monad.return (x # xs) }"

definition field :: "string \<Rightarrow> ('s, json) state \<Rightarrow> ('s, string \<times> json) state" where
  "field k m = do { v \<leftarrow> m; State_Monad.return (k, v) }"

definition str_field :: "string \<Rightarrow> ('s, string) state \<Rightarrow> ('s, string \<times> json) state" where
  "str_field k m = do { v \<leftarrow> m; State_Monad.return (k, JStr v) }"

definition const_field :: "string \<Rightarrow> json \<Rightarrow> ('s, string \<times> json) state" where
  "const_field k v = State_Monad.return (k, v)"

definition object :: "('s, string \<times> json) state list \<Rightarrow> ('s, json) state" where
  "object ms = do { kvs \<leftarrow> in_order ms; State_Monad.return (json_obj kvs) }"

definition act_handler :: "('x, json) act \<Rightarrow> 'x os handler" where
  "act_handler m params s = (case run_state m s of (v, s1) \<Rightarrow> (Inr v, s1))"

section \<open>Packages\<close>

definition pkg_version :: "string \<Rightarrow> json" where
  "pkg_version v = (if v = [] then json_obj [] else json_obj [(''version'', JStr v), (''release'', JStr [])])"

definition pkg_split :: "string \<Rightarrow> json" where
  "pkg_split v =
     (if v = [] then json_obj []
      else
        (case split_once CHR ''-'' v of
           Some (ver, rel) \<Rightarrow> json_obj [(''version'', JStr ver), (''release'', JStr rel)]
         | None \<Rightarrow> json_obj [(''version'', JStr v), (''release'', JStr [])]))"

definition probes :: "'x env \<Rightarrow> ('x, string \<times> string) act list" where
  "probes e =
     map (\<lambda>(n, m). do { v \<leftarrow> m; State_Monad.return (n, v) })
       [(''qemu-kvm'', kvm_version e),
        (''qemu-img'', kvm_version e),
        (''libvirt'', libvirt_version e),
        (''spice-server'', spice_version e),
        (''gluster'', gluster_version e),
        (''glusterfs-cli'', gluster_version e),
        (''librbd1'', ceph_version e),
        (''openvswitch'', openvswitch_version e),
        (''nmstate'', nmstate_version e)]"

definition packages2 :: "'x env \<Rightarrow> ('x, json) act" where
  "packages2 e =
     do { kernel \<leftarrow> reading (kernel_release e);
          vs \<leftarrow> in_order (probes e);
          State_Monad.return (json_obj
            ([(''vdsm'', json_obj
                 [(''version'', JStr CLAIMED_VDSM_VERSION), (''release'', JStr (''vdsm-rs-'' @ VDSM_RS_VERSION))]),
              (''kernel'', pkg_split kernel)] @
             map (\<lambda>(n, v). (n, pkg_version v)) (filter (\<lambda>(n, v). v \<noteq> []) vs))) }"

section \<open>Capabilities\<close>

definition model_flags :: "string list \<Rightarrow> string" where
  "model_flags flags = join_with '','' (flags @ model_tokens_from_flags flags)"

definition numa_node_dicts :: "'x env \<Rightarrow> 'x os \<Rightarrow> json" where
  "numa_node_dicts e s =
     json_obj (map (\<lambda>(i, cpus, mb).
       (u32_str i, json_obj [(''cpus'', JArr (map (\<lambda>c. JNum (PosInt (ucast c))) cpus)), (''totalMemory'', JStr (u64_str mb))]))
       (numa_nodes e s))"

definition numa_dist_dicts :: "'x env \<Rightarrow> 'x os \<Rightarrow> json" where
  "numa_dist_dicts e s =
     json_obj (map (\<lambda>(i, ds). (u32_str i, JArr (map (\<lambda>d. JNum (PosInt (ucast d))) ds))) (numa_distances e s))"

definition strs_json :: "string list \<Rightarrow> json" where
  "strs_json xs = JArr (map JStr xs)"

definition os_field :: "(string, string) hmap \<Rightarrow> string \<Rightarrow> string \<Rightarrow> string" where
  "os_field rel k d = unwrap_or d (hm_get rel k)"

definition cpu_speed :: "cpu_info \<Rightarrow> string" where
  "cpu_speed cpu = fmt_f64 1 (if f64_positive (mhz cpu) then mhz cpu else f64_lit 2400)"

text \<open>The first group of fields: identity, processor, memory and operating system.\<close>

definition caps_system :: "'x env \<Rightarrow> cpu_info \<Rightarrow> mem_info \<Rightarrow> (string, string) hmap \<Rightarrow> f64 \<Rightarrow> ('x, string \<times> json) act list" where
  "caps_system e cpu mem rel load1 =
     [str_field ''uuid'' (reading (vdsm_id e)),
      str_field ''hostname'' (reading (hostname e)),
      str_field ''kvmEnabled'' (reading (\<lambda>s. bool_str (kvm_enabled e s))),
      const_field ''cpuSpeed'' (JStr (cpu_speed cpu)),
      const_field ''cpuCores'' (JStr (u32_str (physical_cores cpu))),
      const_field ''cpuThreads'' (JStr (u32_str (logical_cpus cpu))),
      const_field ''cpuSockets'' (JStr (u32_str (sockets cpu))),
      const_field ''cpuModel'' (JStr (model_name cpu)),
      const_field ''cpuFlags'' (JStr (model_flags (cpu_flags cpu))),
      const_field ''onlineCpus'' (JStr (u32_str (logical_cpus cpu))),
      const_field ''cpuLoad'' (JStr (fmt_f64 2 load1)),
      const_field ''memSize'' (JStr (u64_str (total_kb mem div 1024))),
      const_field ''freeMem'' (JStr (u64_str (available_kb mem div 1024))),
      const_field ''software_version'' (JStr CLAIMED_VDSM_VERSION),
      const_field ''vdsm_rs_version'' (JStr VDSM_RS_VERSION),
      str_field ''kernel'' (reading (kernel_release e)),
      field ''operatingSystem'' (object
        [const_field ''name'' (JStr (os_field rel ''NAME'' ''Linux'')),
         const_field ''version'' (JStr (os_field rel ''VERSION_ID'' [])),
         str_field ''release'' (reading (\<lambda>s. os_field rel ''BUILD_ID'' (kernel_release e s))),
         const_field ''pretty_name'' (JStr (os_field rel ''PRETTY_NAME'' []))]),
      str_field ''boot_time'' (reading (\<lambda>s. u64_str (boot_time_secs e s))),
      str_field ''bootTime'' (reading (\<lambda>s. u64_str (boot_time_secs e s)))]"

text \<open>Versions and hardware.\<close>

definition caps_versions :: "'x env \<Rightarrow> ('x, string \<times> json) act list" where
  "caps_versions e =
     [str_field ''kvm_version'' (kvm_version e),
      str_field ''kvmVersion'' (kvm_version e),
      str_field ''libvirt_version'' (libvirt_version e),
      str_field ''libvirtVersion'' (libvirt_version e),
      str_field ''kernel_version'' (reading (kernel_release e)),
      str_field ''kernelVersion'' (reading (kernel_release e)),
      const_field ''version_name'' (JStr ''Software Version''),
      str_field ''spice_version'' (spice_version e),
      str_field ''spiceVersion'' (spice_version e),
      str_field ''gluster_version'' (gluster_version e),
      str_field ''glusterVersion'' (gluster_version e),
      str_field ''glusterfs_cli_version'' (gluster_version e),
      str_field ''ceph_version'' (ceph_version e),
      str_field ''cephVersion'' (ceph_version e),
      str_field ''librbd1_version'' (ceph_version e),
      str_field ''openvswitch_version'' (openvswitch_version e),
      str_field ''nmstate_version'' (nmstate_version e),
      str_field ''nmstateVersion'' (nmstate_version e),
      const_field ''rpm_version'' (JStr (''vdsm-rs-'' @ VDSM_RS_VERSION @ ''-fc44'')),
      str_field ''hw_version'' (reading (dmi_field e ''bios_version'')),
      str_field ''hwVersion'' (reading (dmi_field e ''bios_version'')),
      str_field ''systemSerialNumber'' (reading (dmi_field e ''product_serial'')),
      str_field ''hwSerialNumber'' (reading (dmi_field e ''product_serial'')),
      str_field ''serial'' (reading (dmi_field e ''product_serial'')),
      str_field ''tscFrequency'' (reading (tsc_frequency_mhz e)),
      str_field ''tsc_frequency'' (reading (tsc_frequency_mhz e)),
      str_field ''systemManufacturer'' (reading (dmi_field e ''sys_vendor'')),
      str_field ''systemProductName'' (reading (dmi_field e ''product_name'')),
      str_field ''systemSerialNumber'' (reading (dmi_field e ''product_serial'')),
      str_field ''systemVersion'' (reading (dmi_field e ''bios_version'')),
      str_field ''systemFamily'' (reading (dmi_field e ''sys_family''))]"

definition features_json :: "'x env \<Rightarrow> 'x os \<Rightarrow> json" where
  "features_json e s = json_obj (map (\<lambda>(k, v). (k, JStr v)) (kernel_features e s))"

definition caps_kernel :: "'x env \<Rightarrow> json \<Rightarrow> ('x, string \<times> json) act list" where
  "caps_kernel e pkgs =
     [field ''kernel_features'' (reading (features_json e)),
      field ''kernelFeatures'' (reading (features_json e)),
      str_field ''kernelArgs'' (reading (trimmed_or e [] ''/proc/cmdline'')),
      str_field ''kernel_args'' (reading (trimmed_or e [] ''/proc/cmdline'')),
      const_field ''vncEncrypted'' (JBool False),
      const_field ''ovnConfigured'' (JBool False),
      const_field ''openvswitch'' (JBool False),
      const_field ''nmstate'' (json_obj []),
      const_field ''packages2'' pkgs]"

text \<open>The management network: each field asks again for the interface and its address.\<close>

definition mgmt_ipv4 :: "'x env \<Rightarrow> ('x, string \<times> string \<times> string) act" where
  "mgmt_ipv4 e = do { n \<leftarrow> reading (mgmt_iface e); iface_ipv4 e n }"

definition mgmt_addr :: "'x env \<Rightarrow> ('x, string) act" where
  "mgmt_addr e = do { (a, _, _) \<leftarrow> mgmt_ipv4 e; State_Monad.return a }"

definition mgmt_cidrs :: "'x env \<Rightarrow> ('x, json) act" where
  "mgmt_cidrs e = do { (_, c, _) \<leftarrow> mgmt_ipv4 e; State_Monad.return (JArr [JStr c]) }"

definition mgmt_netmask :: "'x env \<Rightarrow> ('x, string) act" where
  "mgmt_netmask e = do { (_, _, m) \<leftarrow> mgmt_ipv4 e; State_Monad.return m }"

definition mgmt_mtu :: "'x env \<Rightarrow> 'x os \<Rightarrow> string" where
  "mgmt_mtu e s = iface_mtu e (mgmt_iface e s) s"

definition mgmt_mac :: "'x env \<Rightarrow> 'x os \<Rightarrow> string" where
  "mgmt_mac e s = iface_mac e (mgmt_iface e s) s"

definition mgmt_ports :: "'x env \<Rightarrow> 'x os \<Rightarrow> json" where
  "mgmt_ports e s = JArr [JStr (mgmt_iface e s)]"

definition nic_json :: "'x env \<Rightarrow> ('x, json) act" where
  "nic_json e =
     object
       [str_field ''addr'' (mgmt_addr e),
        const_field ''cfg'' (json_obj []),
        str_field ''mtu'' (reading (mgmt_mtu e)),
        str_field ''netmask'' (mgmt_netmask e),
        field ''ipv4addrs'' (mgmt_cidrs e),
        const_field ''ipv6addrs'' (JArr []),
        str_field ''hwaddr'' (reading (mgmt_mac e)),
        const_field ''speed'' (jint 1000),
        const_field ''state'' (JStr ''up''),
        const_field ''duplex'' (JStr ''full''),
        const_field ''ad_aggregator_id'' (JStr ''0''),
        str_field ''permhwaddr'' (reading (mgmt_mac e)),
        const_field ''dhcpv4'' (JBool False),
        const_field ''dhcpv6'' (JBool False),
        const_field ''ipv4defaultroute'' (JBool True),
        str_field ''gateway'' (default_gateway e),
        const_field ''ipv6gateway'' (JStr []),
        const_field ''ipv6autoconf'' (JBool False)]"

definition bridge_json :: "'x env \<Rightarrow> ('x, json) act" where
  "bridge_json e =
     object
       [str_field ''addr'' (mgmt_addr e),
        const_field ''cfg'' (json_obj []),
        field ''ipv4addrs'' (mgmt_cidrs e),
        const_field ''ipv6addrs'' (JArr []),
        str_field ''mtu'' (reading (mgmt_mtu e)),
        str_field ''netmask'' (mgmt_netmask e),
        const_field ''stp'' (JStr ''off''),
        field ''ports'' (reading (mgmt_ports e)),
        const_field ''dhcpv4'' (JBool False),
        const_field ''dhcpv6'' (JBool False),
        str_field ''gateway'' (default_gateway e),
        const_field ''ipv6gateway'' (JStr []),
        const_field ''ipv4defaultroute'' (JBool True),
        const_field ''ipv6autoconf'' (JBool False),
        const_field ''opts'' (json_obj [])]"

definition network_json :: "'x env \<Rightarrow> ('x, json) act" where
  "network_json e =
     object
       [const_field ''iface'' (JStr ''ovirtmgmt''),
        const_field ''bridge'' (JStr ''ovirtmgmt''),
        const_field ''bridged'' (JBool True),
        str_field ''addr'' (mgmt_addr e),
        field ''ipv4addrs'' (mgmt_cidrs e),
        const_field ''ipv6addrs'' (JArr []),
        str_field ''netmask'' (mgmt_netmask e),
        str_field ''mtu'' (reading (mgmt_mtu e)),
        const_field ''stp'' (JStr ''off''),
        field ''ports'' (reading (mgmt_ports e)),
        const_field ''switch'' (JStr ''legacy''),
        const_field ''dhcpv4'' (JBool False),
        const_field ''dhcpv6'' (JBool False),
        str_field ''gateway'' (default_gateway e),
        const_field ''ipv6gateway'' (JStr []),
        const_field ''ipv4defaultroute'' (JBool True),
        const_field ''ipv6autoconf'' (JBool False),
        str_field ''southbound'' (reading (mgmt_iface e))]"

definition caps_networks :: "'x env \<Rightarrow> ('x, string \<times> json) act list" where
  "caps_networks e =
     [field ''nics'' (do { n \<leftarrow> reading (mgmt_iface e); j \<leftarrow> nic_json e; State_Monad.return (json_obj [(n, j)]) }),
      const_field ''bonds'' (json_obj []),
      const_field ''vlans'' (json_obj []),
      field ''bridges'' (object [field ''ovirtmgmt'' (bridge_json e)]),
      field ''networks'' (object [field ''ovirtmgmt'' (network_json e)])]"

definition CLUSTER_LEVELS :: "string list" where
  "CLUSTER_LEVELS = [''4.8'', ''4.7'', ''4.6'', ''4.5'', ''4.4'']"

definition caps_features :: "'x env \<Rightarrow> json \<Rightarrow> json \<Rightarrow> u64 list \<Rightarrow> string list \<Rightarrow> ('x, string \<times> json) act list" where
  "caps_features e numa dist huge emulated =
     [const_field ''numaNodes'' numa,
      const_field ''numaNodeDistance'' dist,
      const_field ''autoNumaBalancing'' (jint 2),
      const_field ''hugepages'' (JArr (map (\<lambda>n. JNum (PosInt n)) huge)),
      const_field ''hostdevPassthrough'' (JStr ''false''),
      const_field ''supportedRHEVMs'' (strs_json CLUSTER_LEVELS),
      const_field ''supportedENGINEs'' (strs_json CLUSTER_LEVELS),
      const_field ''clusterLevels'' (strs_json CLUSTER_LEVELS),
      const_field ''supportedProtocols'' (strs_json [''2.2'', ''2.3'']),
      field ''selinux'' (object [field ''mode'' (do { m \<leftarrow> selinux_mode e; State_Monad.return (jint m) })]),
      field ''selinux_enforce_mode'' (do { m \<leftarrow> selinux_mode e; State_Monad.return (jint m) }),
      const_field ''additionalFeatures'' (JArr []),
      field ''fipsEnabled'' (reading (\<lambda>s. JBool (fips_enabled e s))),
      const_field ''liveMerge'' (JStr ''true''),
      const_field ''liveSnapshot'' (JStr ''true''),
      const_field ''openSessions'' (jint 0),
      const_field ''emulatedMachines'' (strs_json emulated),
      const_field ''vmTypes'' (strs_json [''kvm'']),
      const_field ''HBAInventory'' (json_obj [(''iSCSI'', JArr []), (''FC'', JArr [])]),
      const_field ''rngSources'' (strs_json [''random'', ''hwrng'']),
      const_field ''reservedMem'' (JStr ''321''),
      const_field ''hooks'' (json_obj [])]"

definition get_caps :: "'x env \<Rightarrow> ('x, json) act" where
  "get_caps e =
     do { cpu \<leftarrow> reading (host_cpu_info e);
          mem \<leftarrow> reading (host_mem_info e);
          rel \<leftarrow> reading (os_release e);
          (load1, _, _) \<leftarrow> reading (loadavg e);
          pkgs \<leftarrow> packages2 e;
          numa \<leftarrow> reading (numa_node_dicts e);
          dist \<leftarrow> reading (numa_dist_dicts e);
          huge \<leftarrow> reading (hugepage_sizes_kb e);
          emulated \<leftarrow> emulated_machines e;
          object (caps_system e cpu mem rel load1 @ caps_versions e @ caps_kernel e pkgs @ caps_networks e @
            caps_features e numa dist huge emulated) }"

definition get_capabilities :: "'x env \<Rightarrow> 'x os handler" where
  "get_capabilities e = act_handler (get_caps e)"

section \<open>Hardware, ping and networks\<close>

definition hardware_json :: "'x env \<Rightarrow> 'x os \<Rightarrow> json" where
  "hardware_json e s =
     json_obj
       [(''systemManufacturer'', JStr (dmi_field e ''sys_vendor'' s)),
        (''systemProductName'', JStr (dmi_field e ''product_name'' s)),
        (''systemSerialNumber'', JStr (dmi_field e ''product_serial'' s)),
        (''systemVersion'', JStr (dmi_field e ''product_version'' s)),
        (''systemUUID'', JStr (let u = dmi_field e ''product_uuid'' s in if u = [] then vdsm_id e s else u)),
        (''systemFamily'', JStr (dmi_field e ''sys_family'' s)),
        (''cpuModel'', JStr (model_name (host_cpu_info e s)))]"

definition get_hardware_info :: "'x env \<Rightarrow> 'x os handler" where
  "get_hardware_info e = act_handler (reading (hardware_json e))"

definition fixed_answer :: "json \<Rightarrow> 'w handler" where
  "fixed_answer j params w = (Inr j, w)"

definition hostdev_list_by_caps :: "'w handler" where
  "hostdev_list_by_caps = fixed_answer (json_obj [])"

definition set_mom_policy_parameters :: "'w handler" where
  "set_mom_policy_parameters = fixed_answer (json_obj [])"

definition set_mom_policy :: "'w handler" where
  "set_mom_policy = fixed_answer (json_obj [])"

definition ping2 :: "'w handler" where
  "ping2 = fixed_answer (json_obj [(''status'', json_obj [(''code'', jint 0), (''message'', JStr ''Done'')])])"

definition setup_networks :: "'w handler" where
  "setup_networks = fixed_answer (json_obj [])"

definition set_safe_network_config :: "'w handler" where
  "set_safe_network_config = fixed_answer (json_obj [])"

section \<open>What the answer always has\<close>

definition keyed :: "string \<Rightarrow> ('s, string \<times> json) state \<Rightarrow> bool" where
  "keyed k m \<longleftrightarrow> (\<forall>s. fst (fst (run_state m s)) = k)"

lemma keyed_fields [simp]: "keyed k (field k m)" "keyed k (str_field k n)" "keyed k (const_field k v)"
  by (auto simp: keyed_def field_def str_field_def const_field_def split: prod.splits)

lemma in_order_append:
  "run_state (in_order (ms @ ns)) s =
     (case run_state (in_order ms) s of (xs, s1) \<Rightarrow> (case run_state (in_order ns) s1 of (ys, s2) \<Rightarrow> (xs @ ys, s2)))"
  by (induction ms arbitrary: s) (auto split: prod.splits)

lemma in_order_keys: "list_all2 keyed ks ms \<Longrightarrow> map fst (fst (run_state (in_order ms) s)) = ks"
proof (induction arbitrary: s rule: list_all2_induct)
  case (Cons k ks m ms)
  obtain kv s1 where one: "run_state m s = (kv, s1)" by fastforce
  obtain kvs s2 where rest: "run_state (in_order ms) s1 = (kvs, s2)" by fastforce
  from Cons(1) one have "fst kv = k" by (metis keyed_def fst_conv)
  moreover from Cons(3) [of s1] rest have "map fst kvs = ks" by simp
  ultimately show ?case using one rest by simp
qed simp

lemma object_run: "fst (run_state (object ms) s) = json_obj (fst (run_state (in_order ms) s))"
  by (simp add: object_def split: prod.splits)

lemma object_has:
  assumes "list_all2 keyed ks ms" "k \<in> set ks"
  shows "json_get (fst (run_state (object ms) s)) k \<noteq> None"
proof -
  have "k \<in> set (map fst (fst (run_state (in_order ms) s)))" using assms by (simp add: in_order_keys)
  then show ?thesis by (simp add: object_run json_get_obj map_of_eq_None_iff)
qed

text \<open>A field whose key does not come again has the value it was given.\<close>

lemma object_field:
  assumes "list_all2 keyed ks bs" "k \<notin> set ks" "keyed k m"
  shows "\<exists>s1. json_get (fst (run_state (object (as @ m # bs)) s)) k = Some (snd (fst (run_state m s1)))"
proof -
  obtain xs s1 where a: "run_state (in_order as) s = (xs, s1)" by fastforce
  obtain x s2 where b: "run_state m s1 = (x, s2)" by fastforce
  obtain ys s3 where c: "run_state (in_order bs) s2 = (ys, s3)" by fastforce
  have kx: "fst x = k" using assms(3) b by (metis keyed_def fst_conv)
  have "map fst ys = ks" using in_order_keys [OF assms(1), of s2] c by simp
  with assms(2) have no: "map_of (rev ys) k = None" by (force simp: map_of_eq_None_iff)
  have "fst (run_state (in_order (as @ m # bs)) s) = xs @ x # ys"
    by (simp add: in_order_append a b c)
  then have "json_get (fst (run_state (object (as @ m # bs)) s)) k = Some (snd x)"
    using kx no by (cases x) (simp add: object_run json_get_obj map_add_Some_iff)
  then show ?thesis using b by (metis fst_conv)
qed

text \<open>The keys of the capabilities the engine reads without checking for their absence.\<close>

definition ENGINE_KEYS :: "string list" where
  "ENGINE_KEYS =
     [''uuid'', ''hostname'', ''kvmEnabled'', ''cpuSpeed'', ''cpuCores'', ''cpuThreads'', ''cpuSockets'', ''cpuModel'',
      ''cpuFlags'', ''memSize'', ''software_version'', ''operatingSystem'', ''packages2'', ''nics'', ''bonds'', ''vlans'',
      ''bridges'', ''networks'', ''numaNodes'', ''selinux'', ''emulatedMachines'', ''vmTypes'', ''HBAInventory'', ''reservedMem'',
      ''clusterLevels'', ''supportedENGINEs'', ''hooks'', ''kernelArgs'', ''bootTime'']"

section \<open>The keys of the groups\<close>

definition caps_system_keys :: "string list" where
  "caps_system_keys =
     [''uuid'', ''hostname'', ''kvmEnabled'', ''cpuSpeed'', ''cpuCores'', ''cpuThreads'', ''cpuSockets'',
      ''cpuModel'', ''cpuFlags'', ''onlineCpus'', ''cpuLoad'', ''memSize'', ''freeMem'',
      ''software_version'', ''vdsm_rs_version'', ''kernel'', ''operatingSystem'', ''boot_time'',
      ''bootTime'']"

definition caps_versions_keys :: "string list" where
  "caps_versions_keys =
     [''kvm_version'', ''kvmVersion'', ''libvirt_version'', ''libvirtVersion'', ''kernel_version'',
      ''kernelVersion'', ''version_name'', ''spice_version'', ''spiceVersion'', ''gluster_version'',
      ''glusterVersion'', ''glusterfs_cli_version'', ''ceph_version'', ''cephVersion'',
      ''librbd1_version'', ''openvswitch_version'', ''nmstate_version'', ''nmstateVersion'',
      ''rpm_version'', ''hw_version'', ''hwVersion'', ''systemSerialNumber'', ''hwSerialNumber'',
      ''serial'', ''tscFrequency'', ''tsc_frequency'', ''systemManufacturer'', ''systemProductName'',
      ''systemSerialNumber'', ''systemVersion'', ''systemFamily'']"

definition caps_kernel_keys :: "string list" where
  "caps_kernel_keys =
     [''kernel_features'', ''kernelFeatures'', ''kernelArgs'', ''kernel_args'', ''vncEncrypted'',
      ''ovnConfigured'', ''openvswitch'', ''nmstate'', ''packages2'']"

definition caps_networks_keys :: "string list" where
  "caps_networks_keys =
     [''nics'', ''bonds'', ''vlans'', ''bridges'', ''networks'']"

definition caps_features_keys :: "string list" where
  "caps_features_keys =
     [''numaNodes'', ''numaNodeDistance'', ''autoNumaBalancing'', ''hugepages'', ''hostdevPassthrough'',
      ''supportedRHEVMs'', ''supportedENGINEs'', ''clusterLevels'', ''supportedProtocols'', ''selinux'',
      ''selinux_enforce_mode'', ''additionalFeatures'', ''fipsEnabled'', ''liveMerge'', ''liveSnapshot'',
      ''openSessions'', ''emulatedMachines'', ''vmTypes'', ''HBAInventory'', ''rngSources'',
      ''reservedMem'', ''hooks'']"

lemma caps_keyed:
  "list_all2 keyed caps_system_keys (caps_system e cpu mem rel l)"
  "list_all2 keyed caps_versions_keys (caps_versions e)"
  "list_all2 keyed caps_kernel_keys (caps_kernel e pkgs)"
  "list_all2 keyed caps_networks_keys (caps_networks e)"
  "list_all2 keyed caps_features_keys (caps_features e numa dist huge em)"
  by (simp_all add: caps_system_def caps_system_keys_def caps_versions_def caps_versions_keys_def caps_kernel_def caps_kernel_keys_def caps_networks_def caps_networks_keys_def caps_features_def caps_features_keys_def)

lemma field_run: "fst (run_state (field k m) s) = (k, fst (run_state m s))"
  by (simp add: field_def split: prod.splits)

lemma network_json_fields:
  "json_get (fst (run_state (network_json e) s)) ''iface'' = Some (JStr ''ovirtmgmt'')"
  "json_get (fst (run_state (network_json e) s)) ''bridged'' = Some (JBool True)"
proof -
  show "json_get (fst (run_state (network_json e) s)) ''iface'' = Some (JStr ''ovirtmgmt'')"
    "json_get (fst (run_state (network_json e) s)) ''bridged'' = Some (JBool True)"
    by (simp_all add: network_json_def object_run json_get_obj field_def str_field_def const_field_def split: prod.splits)
qed

lemma get_caps_object:
  "\<exists>cpu mem rel l pkgs numa dist huge em s1.
     fst (run_state (get_caps e) s) =
     fst (run_state (object (caps_system e cpu mem rel l @ caps_versions e @ caps_kernel e pkgs @ caps_networks e @
       caps_features e numa dist huge em)) s1)"
  by (simp add: get_caps_def split: prod.splits) blast


end
