(* ===== verification/Host_Stats.thy ===== *)
theory Host_Stats
  imports Host_Caps "HOL-Library.Signed_Division"
begin

text \<open>
  \<open>crates/vdsm-host/src/stats.rs\<close>: the statistics the engine polls, and the date computed by hand for
  them, which is compared with the calendar.
\<close>

section \<open>Dates\<close>

text \<open>
  Year, month and day of a day number counted from the first of January 1970. The sources compute
  with \<open>i64\<close> and, for the day of the era, \<open>u64\<close>; the day number is a quotient by 86400, so nothing
  overflows. Division truncates.
\<close>

definition year_of_era :: "int \<Rightarrow> int" where
  "year_of_era doe = (doe - doe div 1460 + doe div 36524 - doe div 146096) div 365"

definition civil_from_days :: "int \<Rightarrow> int \<times> int \<times> int" where
  "civil_from_days days =
     (let z = days + 719468;
          era = (if z \<ge> 0 then z else z - 146096) sdiv 146097;
          doe = z - era * 146097;
          yoe = year_of_era doe;
          y = yoe + era * 400;
          doy = doe - (365 * yoe + yoe div 4 - yoe div 100);
          mp = (5 * doy + 2) div 153;
          d = doy - (153 * mp + 2) div 5 + 1;
          m = (if mp < 10 then mp + 3 else mp - 9)
      in (y + (if m \<le> 2 then 1 else 0), m, d))"

text \<open>\<open>{:0n}\<close> of a signed number: zeros between the sign and the digits.\<close>

definition pad_int :: "nat \<Rightarrow> int \<Rightarrow> string" where
  "pad_int w i = (if i < 0 then CHR ''-'' # pad_left (w - 1) (nat_dec (nat (- i))) else pad_left w (nat_dec (nat i)))"

definition iso_utc :: "u64 \<Rightarrow> string" where
  "iso_utc now =
     (let secs = sint now; days = secs div 86400; sec_of_day = secs mod 86400;
          hour = sec_of_day div 3600; minute = (sec_of_day mod 3600) div 60; second = sec_of_day mod 60
      in case civil_from_days days of
           (year, m, d) \<Rightarrow>
             pad_int 4 year @ ''-'' @ pad_int 2 m @ ''-'' @ pad_int 2 d @ '' '' @
             pad_int 2 hour @ '':'' @ pad_int 2 minute @ '':'' @ pad_int 2 second @ '' -0000'')"

section \<open>Statistics\<close>

definition nic_stats :: json where
  "nic_stats =
     json_obj
       [(''rx'', JStr ''0''), (''tx'', JStr ''0''), (''rxDropped'', JStr ''0''), (''txDropped'', JStr ''0''),
        (''rxErrors'', JStr ''0''), (''txErrors'', JStr ''0''), (''speed'', JStr ''1000''), (''state'', JStr ''up''),
        (''name'', JStr []), (''sampleTime'', jint 0), (''rxRate'', JStr ''0.0''), (''txRate'', JStr ''0.0'')]"

definition used_kb :: "mem_info \<Rightarrow> u64" where
  "used_kb mem = (let t = max (total_kb mem) 1 in if available_kb mem \<le> t then t - available_kb mem else 0)"

definition used_pct :: "mem_info \<Rightarrow> f64" where
  "used_pct mem = f64_div (f64_mul (f64_of_u64 (used_kb mem)) (f64_lit 100)) (f64_of_u64 (max (total_kb mem) 1))"

definition stats_json :: "'x env \<Rightarrow> 'x os \<Rightarrow> json" where
  "stats_json e s =
     (let mem = host_mem_info e s
      in case loadavg e s of
           (load1, load5, load15) \<Rightarrow>
             json_obj
               [(''cpuLoad'', JStr (fmt_f64 2 load1)),
                (''cpuIdle'', JStr (fmt_f64 2 (f64_sub (f64_lit 100) (f64_min (used_pct mem) (f64_lit 100))))),
                (''cpuSys'', JStr ''0.00''),
                (''cpuUser'', JStr ''0.00''),
                (''cpuSysVdsmd'', JStr ''0.00''),
                (''cpuUserVdsmd'', JStr ''0.00''),
                (''loadAvg'', json_obj
                   [(''1min'', JStr (fmt_f64 2 load1)), (''5min'', JStr (fmt_f64 2 load5)), (''15min'', JStr (fmt_f64 2 load15))]),
                (''memUsed'', JStr (u64_str (used_kb mem))),
                (''memFree'', JStr (u64_str (free_kb mem div 1024))),
                (''memAvailable'', JStr (u64_str (available_kb mem div 1024))),
                (''memCommitted'', JStr ''0''),
                (''swapTotal'', JStr (u64_str (swap_total_kb mem div 1024))),
                (''swapFree'', JStr (u64_str (swap_total_kb mem div 1024))),
                (''ksmCpu'', JStr ''0''),
                (''ksmPages'', JStr ''0''),
                (''ksmState'', JBool False),
                (''elapsedTime'', JStr (fmt_f64 0 (uptime_secs e s))),
                (''network'', json_obj (map (\<lambda>n. (n, nic_stats)) (nic_names e s @ [''ovirtmgmt'']))),
                (''cpuStatistics'', json_obj []),
                (''numaNodeMemFree'', json_obj [(''0'', JStr ''0'')]),
                (''memShared'', JStr ''0''),
                (''guestOverhead'', JStr ''0''),
                (''statusTime'', JStr ''0''),
                (''netConfigDirty'', JStr ''false''),
                (''status'', JStr ''Up''),
                (''imagesLastCheck'', JNum (Float 0 0)),
                (''imagesLastDelay'', JNum (Float 0 0)),
                (''transparentHugePages'', jint 0),
                (''kdumpStatus'', jint 0),
                (''bootTime'', JStr ''0''),
                (''dateTime'', JStr (iso_utc (now_secs s))),
                (''timeOffset'', JStr ''0''),
                (''haStats'', json_obj [(''active'', JBool False)]),
                (''vmCount'', jint 0),
                (''vmActive'', jint 0),
                (''vmMigrating'', jint 0),
                (''incomingVmMigrations'', jint 0),
                (''outgoingVmMigrations'', jint 0),
                (''anonHugePages'', JStr ''0''),
                (''diskStats'', json_obj []),
                (''thpState'', JStr ''always''),
                (''boot_time'', JStr ''0'')])"

definition get_stats :: "'x env \<Rightarrow> 'x os handler" where
  "get_stats e = act_handler (reading (stats_json e))"

section \<open>The calendar\<close>

definition leap :: "int \<Rightarrow> bool" where
  "leap y \<longleftrightarrow> 4 dvd y \<and> (\<not> 100 dvd y \<or> 400 dvd y)"

definition month_lengths :: "int \<Rightarrow> int list" where
  "month_lengths y = [31, if leap y then 29 else 28, 31, 30, 31, 30, 31, 31, 30, 31, 30, 31]"

text \<open>Days before a year, in the Gregorian calendar from the year 1 on, and before a month of it.\<close>

definition days_before_year :: "int \<Rightarrow> int" where
  "days_before_year y = 365 * (y - 1) + (y - 1) div 4 - (y - 1) div 100 + (y - 1) div 400"

definition days_before_month :: "int \<Rightarrow> int \<Rightarrow> int" where
  "days_before_month y m = sum_list (take (nat (m - 1)) (month_lengths y))"

definition date_ok :: "int \<Rightarrow> int \<Rightarrow> int \<Rightarrow> bool" where
  "date_ok y m d \<longleftrightarrow> 1 \<le> m \<and> m \<le> 12 \<and> 1 \<le> d \<and> d \<le> month_lengths y ! nat (m - 1)"

definition day_number :: "int \<Rightarrow> int \<Rightarrow> int \<Rightarrow> int" where
  "day_number y m d = days_before_year y - days_before_year 1970 + days_before_month y m + (d - 1)"

text \<open>The reference is itself right: a year has as many days as its months.\<close>

lemma div_step: "0 < k \<Longrightarrow> (y :: int) div k = (y - 1) div k + (if k dvd y then 1 else 0)"
proof -
  assume k: "0 < k"
  show ?thesis
  proof (cases "k dvd y")
    case True
    then obtain q where "y = k * q" by blast
    moreover have "(k * q - 1) div k = q - 1"
      using k by (intro int_div_pos_eq [where r = "k - 1"]) (simp_all add: algebra_simps)
    ultimately show ?thesis using k True by simp
  next
    case False
    then have "0 < y mod k" using k by (simp add: dvd_eq_mod_eq_0 order_less_le)
    moreover have "y = k * (y div k) + y mod k" by simp
    ultimately have "(y - 1) div k = y div k"
      using k pos_mod_bound [OF k, of y] by (intro int_div_pos_eq [where r = "y mod k - 1"]) simp_all
    with False show ?thesis by simp
  qed
qed

lemma days_of_year: "days_before_year (y + 1) - days_before_year y = sum_list (month_lengths y)"
proof -
  have d: "400 dvd y \<Longrightarrow> 100 dvd y" "100 dvd y \<Longrightarrow> 4 dvd y" by (auto elim: dvd_trans [rotated])
  have e: "y div 4 = (y - 1) div 4 + (if 4 dvd y then 1 else 0)" "y div 100 = (y - 1) div 100 + (if 100 dvd y then 1 else 0)"
    "y div 400 = (y - 1) div 400 + (if 400 dvd y then 1 else 0)"
    by (rule div_step, simp)+
  show ?thesis
    unfolding days_before_year_def month_lengths_def leap_def add_diff_cancel_right' e
    using d by (cases "4 dvd y"; cases "100 dvd y"; cases "400 dvd y") simp_all
qed

text \<open>Within an era of 400 years, which begins on a first of March, the year is found exactly.\<close>

definition era_days :: "int \<Rightarrow> int" where
  "era_days d = d - d div 1460 + d div 36524 - d div 146096"

definition era_start :: "int \<Rightarrow> int" where
  "era_start y = 365 * y + y div 4 - y div 100 + y div 400"

lemma era_days_step: "era_days d \<le> era_days (d + 1)"
proof -
  have dv: "146096 dvd d + 1 \<Longrightarrow> 36524 dvd d + 1" by (auto elim: dvd_trans [rotated])
  have e: "(d + 1) div k = d div k + (if k dvd d + 1 then 1 else 0)" if "0 < k" for k
    using div_step [OF that, of "d + 1"] unfolding add_diff_cancel_right' .
  show ?thesis
    unfolding era_days_def e [of 1460, simplified] e [of 36524, simplified] e [of 146096, simplified]
    using dv by (cases "1460 dvd d + 1"; cases "36524 dvd d + 1"; cases "146096 dvd d + 1") simp_all
qed

lemma era_days_mono: "a \<le> b \<Longrightarrow> era_days a \<le> era_days b"
  by (induction rule: int_ge_induct) (use era_days_step order_trans in blast)+

lemma era_table: "list_all (\<lambda>y. 365 * y \<le> era_days (era_start y) \<and> era_days (era_start (y + 1) - 1) < 365 * (y + 1)) [0..399]"
  by code_simp

lemma era_year: "0 \<le> y \<Longrightarrow> y \<le> 399 \<Longrightarrow> 365 * y \<le> era_days (era_start y) \<and> era_days (era_start (y + 1) - 1) < 365 * (y + 1)"
  using era_table by (auto simp: list_all_iff)

lemma year_of_era_spec:
  assumes "0 \<le> doe" "doe \<le> 146096"
  shows "0 \<le> year_of_era doe" "year_of_era doe \<le> 399" "era_start (year_of_era doe) \<le> doe"
    "doe < era_start (year_of_era doe + 1)"
proof -
  let ?y = "year_of_era doe"
  have y: "?y = era_days doe div 365" by (simp add: year_of_era_def era_days_def)
  have "era_days 0 = 0" "era_days 146096 = 145999" by (simp_all add: era_days_def)
  then have b: "0 \<le> era_days doe" "era_days doe \<le> 145999"
    using era_days_mono [of 0 doe] era_days_mono [of doe 146096] assms by simp_all
  then show r: "0 \<le> ?y" "?y \<le> 399" by (simp_all add: y)
  have e: "365 * ?y \<le> era_days doe" "era_days doe < 365 * (?y + 1)" by (simp_all add: y)
  show "era_start ?y \<le> doe"
  proof (rule ccontr)
    assume "\<not> era_start ?y \<le> doe"
    then have lt: "doe \<le> era_start ?y - 1" by simp
    moreover have "?y \<noteq> 0" using lt assms(1) by (auto simp: era_start_def)
    ultimately show False
      using era_days_mono [OF lt] era_year [of "?y - 1"] r e by simp
  qed
  show "doe < era_start (?y + 1)"
  proof (rule ccontr)
    assume "\<not> doe < era_start (?y + 1)"
    then have ge: "era_start (?y + 1) \<le> doe" by simp
    moreover have "era_start 400 = 146097" by (simp add: era_start_def)
    ultimately have "?y \<noteq> 399" using assms(2) by auto
    then show False using era_days_mono [OF ge] era_year [of "?y + 1"] r e by simp
  qed
qed

text \<open>Within a year that begins in March, month and day are found from a table of 366 days.\<close>

definition march_days :: "int list" where
  "march_days = [306, 337, 0, 31, 61, 92, 122, 153, 184, 214, 245, 275]"

definition march_month :: "int \<Rightarrow> int" where
  "march_month doy = (let mp = (5 * doy + 2) div 153 in if mp < 10 then mp + 3 else mp - 9)"

definition march_day :: "int \<Rightarrow> int" where
  "march_day doy = doy - (153 * ((5 * doy + 2) div 153) + 2) div 5 + 1"

lemma march_table:
  "list_all (\<lambda>doy. let m = march_month doy; d = march_day doy
     in 1 \<le> m \<and> m \<le> 12 \<and> 1 \<le> d \<and> doy = march_days ! nat (m - 1) + (d - 1) \<and>
        d \<le> [31, if doy = 365 then 29 else 28, 31, 30, 31, 30, 31, 31, 30, 31, 30, 31] ! nat (m - 1)) [0..365]"
  by code_simp

lemma march_spec:
  assumes "0 \<le> doy" "doy \<le> 365"
  shows "1 \<le> march_month doy \<and> march_month doy \<le> 12 \<and> 1 \<le> march_day doy \<and>
    doy = march_days ! nat (march_month doy - 1) + (march_day doy - 1) \<and>
    march_day doy \<le> [31, if doy = 365 then 29 else 28, 31, 30, 31, 30, 31, 31, 30, 31, 30, 31] ! nat (march_month doy - 1)"
  using march_table assms by (simp add: list_all_iff Let_def)

lemma month_cases: "1 \<le> m \<Longrightarrow> m \<le> 12 \<Longrightarrow> m \<in> {1, 2, 3, 4, 5, 6, 7, 8, 9, 10, 11, 12 :: int}"
  unfolding insert_iff empty_iff by presburger

lemma days_before_month_march:
  assumes "1 \<le> m" "m \<le> 12"
  shows "days_before_month y m = march_days ! nat (m - 1) + (if m \<le> 2 then - 306 else 59 + (if leap y then 1 else 0))"
  using month_cases [OF assms]
  by (auto simp: days_before_month_def march_days_def month_lengths_def eval_nat_numeral)

lemma days_before_year_march: "days_before_year (y + 1) = era_start y"
  by (simp add: days_before_year_def era_start_def)

lemma era_start_era: "era_start (y + era * 400) = era_start y + era * 146097"
proof -
  have "(y + era * 400) div 4 = y div 4 + era * 100" "(y + era * 400) div 100 = y div 100 + era * 4"
    "(y + era * 400) div 400 = y div 400 + era"
    using div_mult_self1 [of 4 y "era * 100"] div_mult_self1 [of 100 y "era * 4"] div_mult_self1 [of 400 y era]
    by (simp_all add: algebra_simps)
  then show ?thesis by (simp add: era_start_def)
qed

lemma era_bounds:
  fixes z :: int
  defines "era \<equiv> (if z \<ge> 0 then z else z - 146096) sdiv 146097"
  shows "0 \<le> z - era * 146097" "z - era * 146097 \<le> 146096"
proof -
  have "era = z div 146097"
  proof (cases "z \<ge> 0")
    case True
    then show ?thesis by (cases "z = 0") (simp_all add: era_def signed_divide_int_def)
  next
    case False
    then have "era = - ((146096 - z) div 146097)" by (simp add: era_def signed_divide_int_def)
    also have "(146096 - z) div 146097 = - (z div 146097)"
      using pos_mod_bound [of 146097 z] pos_mod_sign [of 146097 z] div_mult_mod_eq [of z 146097]
      by (intro int_div_pos_eq [where r = "146096 - z mod 146097"]) linarith+
    finally show ?thesis by simp
  qed
  then show "0 \<le> z - era * 146097" "z - era * 146097 \<le> 146096"
    using div_mult_mod_eq [of z 146097] pos_mod_bound [of 146097 z] pos_mod_sign [of 146097 z] by linarith+
qed

text \<open>
  C33: the date of the statistics is right. For every day number, before 1970 too, the computation
  gives a date of the Gregorian calendar, and that date has the day number it started from.
\<close>

theorem civil_date_correct:
  "case civil_from_days n of (y, m, d) \<Rightarrow> date_ok y m d \<and> day_number y m d = n"
proof -
  define era where "era = (if n + 719468 \<ge> 0 then n + 719468 else n + 719468 - 146096) sdiv 146097"
  define doe where "doe = n + 719468 - era * 146097"
  define yoe where "yoe = year_of_era doe"
  define doy where "doy = doe - era_start yoe"
  let ?m = "march_month doy" and ?d = "march_day doy" and ?y = "yoe + era * 400"
  have e: "0 \<le> doe" "doe \<le> 146096" using era_bounds [of "n + 719468"] by (simp_all add: doe_def era_def)
  note Y = year_of_era_spec [OF e, folded yoe_def]
  have start: "365 * yoe + yoe div 4 - yoe div 100 = era_start yoe" using Y(1,2) by (simp add: era_start_def)
  have civil: "civil_from_days n = (?y + (if ?m \<le> 2 then 1 else 0), ?m, ?d)"
    unfolding civil_from_days_def march_month_def march_day_def Let_def era_def [symmetric] doe_def [symmetric]
      yoe_def [symmetric] start doy_def [symmetric] by (rule refl)
  have lp: "leap (?y + 1) \<longleftrightarrow> leap (yoe + 1)"
  proof -
    have "k dvd ?y + 1 \<longleftrightarrow> k dvd yoe + 1" if "k dvd 400" for k
      using that dvd_add_left_iff [of k "era * 400" "yoe + 1"] by (simp add: algebra_simps)
    then show ?thesis by (simp add: leap_def)
  qed
  have len: "era_start (yoe + 1) - era_start yoe = 365 + (if leap (?y + 1) then 1 else 0)"
    using days_of_year [of "yoe + 1"] days_before_year_march [of yoe] days_before_year_march [of "yoe + 1"] lp
    by (simp add: month_lengths_def)
  then have doy: "0 \<le> doy" "doy \<le> 365" "doy = 365 \<Longrightarrow> leap (?y + 1)"
    using Y(3,4) by (auto simp: doy_def split: if_splits)
  note M = march_spec [OF doy(1,2)]
  have "day_number (?y + (if ?m \<le> 2 then 1 else 0)) ?m ?d = n"
  proof -
    have "days_before_year (?y + 1) = era_start yoe + era * 146097" "days_before_year 1970 = 719162"
      by (simp_all add: days_before_year_march era_start_era) (simp add: days_before_year_def)
    moreover have "days_before_year (?y + 1) - days_before_year ?y = 365 + (if leap ?y then 1 else 0)"
      using days_of_year [of ?y] by (simp add: month_lengths_def)
    moreover have "era_start yoe + era * 146097 + doy = n + 719468" by (simp add: doy_def doe_def)
    ultimately show ?thesis
      using M days_before_month_march [of ?m "?y + (if ?m \<le> 2 then 1 else 0)"]
      by (cases "?m \<le> 2") (simp_all add: day_number_def)
  qed
  moreover have "date_ok (?y + (if ?m \<le> 2 then 1 else 0)) ?m ?d"
    using M doy(3) month_cases [of ?m] by (auto simp: date_ok_def month_lengths_def split: if_splits)
  ultimately show ?thesis by (simp add: civil)
qed

end
