(* ===== verification/Vdsmd.thy ===== *)
theory Vdsmd
  imports Server Storage_Volumes Storage_Block Virt Host_Stats
begin

text \<open>
  \<open>crates/vdsm-common/src/config.rs\<close>, \<open>error.rs\<close>, \<open>crates/vdsm-host/src/vm_stats.rs\<close> and
  \<open>crates/vdsmd/src/main.rs\<close>: the configuration, the state of the daemon with all its components on
  one machine, and the table of verbs. Reading TOML text is a parameter.
\<close>

section \<open>Configuration\<close>

datatype vdsm_error = ConfigError string | IoError string | TomlError string | NotImplemented string

definition vdsm_error_text :: "vdsm_error \<Rightarrow> string" where
  "vdsm_error_text x =
     (case x of
        ConfigError m \<Rightarrow> ''config error: '' @ m
      | IoError m \<Rightarrow> ''io error: '' @ m
      | TomlError m \<Rightarrow> ''toml parse error: '' @ m
      | NotImplemented m \<Rightarrow> ''not implemented: '' @ m)"

record daemon_config =
  cfg_user :: string
  cfg_group :: string
  cfg_state_dir :: string
  cfg_log_level :: string

definition daemon_config_default :: daemon_config where
  "daemon_config_default =
     \<lparr>cfg_user = ''vdsm'', cfg_group = ''vdsm'', cfg_state_dir = ''/var/lib/vdsm'', cfg_log_level = ''info''\<rparr>"

record rpc_config =
  cfg_bind :: string
  cfg_port :: u16
  cfg_tls_enabled :: bool
  cfg_tls_cert :: string
  cfg_tls_key :: string
  cfg_tls_ca :: string
  cfg_framing :: string

definition rpc_config_default :: rpc_config where
  "rpc_config_default =
     \<lparr>cfg_bind = ''0.0.0.0'', cfg_port = 54321, cfg_tls_enabled = True,
      cfg_tls_cert = ''/etc/pki/vdsm/certs/vdsmcert.pem'', cfg_tls_key = ''/etc/pki/vdsm/keys/vdsmkey.pem'',
      cfg_tls_ca = ''/etc/pki/vdsm/certs/cacert.pem'', cfg_framing = ''line''\<rparr>"

record libvirt_config =
  cfg_uri :: string

definition libvirt_config_default :: libvirt_config where
  "libvirt_config_default = \<lparr>cfg_uri = ''qemu:///system''\<rparr>"

record config =
  daemon_cfg :: daemon_config
  rpc_cfg :: rpc_config
  libvirt_cfg :: libvirt_config

definition config_default :: config where
  "config_default = \<lparr>daemon_cfg = daemon_config_default, rpc_cfg = rpc_config_default, libvirt_cfg = libvirt_config_default\<rparr>"

type_synonym toml = "string \<Rightarrow> (string, config) result"

definition config_load :: "'x env \<Rightarrow> toml \<Rightarrow> string \<Rightarrow> 'x os \<Rightarrow> (vdsm_error, config) result" where
  "config_load e from_toml path s =
     (case read_to_string e path s of
        Inl m \<Rightarrow> Inl (ConfigError (path @ '': '' @ m))
      | Inr t \<Rightarrow> (case from_toml t of Inl m \<Rightarrow> Inl (TomlError m) | Inr c \<Rightarrow> Inr c))"

text \<open>The part of \<open>main\<close> before the runtime: configuration, log level, and what the server is given.\<close>

definition effective_config :: "'x env \<Rightarrow> toml \<Rightarrow> string \<Rightarrow> 'x os \<Rightarrow> (vdsm_error, config) result" where
  "effective_config e from_toml path s =
     (if path_exists e path s then config_load e from_toml path s else Inr config_default)"

definition log_level_of :: "string option \<Rightarrow> config \<Rightarrow> string" where
  "log_level_of arg c = unwrap_or (cfg_log_level (daemon_cfg c)) arg"

definition server_config_of :: "config \<Rightarrow> server_config" where
  "server_config_of c =
     (let r = rpc_cfg c
      in \<lparr>bind_addr = cfg_bind r, port = cfg_port r, tls_enabled = cfg_tls_enabled r, tls_cert = cfg_tls_cert r,
          tls_key = cfg_tls_key r, framing = framing_from_str_lossy (cfg_framing r)\<rparr>)"

section \<open>The state of the daemon\<close>

record 'x daemon =
  d_connections :: "server_connection list"
  d_pool :: pool_state
  d_registry :: "(string, vm_record) hmap"
  d_tasks :: "vm_task list"
  d_os :: "'x os"

text \<open>What lies outside the sources: the storage context, \<open>virsh\<close>, and the order of the registry.\<close>

record 'x outer =
  octx :: "'x ctx"
  ovirsh :: "'x proc"
  oorder :: "(string, vm_record) hmap \<Rightarrow> vm_record list"

definition on_storage :: "'x storage handler \<Rightarrow> 'x daemon handler" where
  "on_storage h params d =
     (case h params \<lparr>connections = d_connections d, pool = d_pool d, machine = d_os d\<rparr> of
        (r, st) \<Rightarrow> (r, d\<lparr>d_connections := connections st, d_pool := pool st, d_os := machine st\<rparr>))"

definition on_virt :: "'x virt handler \<Rightarrow> 'x daemon handler" where
  "on_virt h params d =
     (case h params \<lparr>registry = d_registry d, host = d_os d, tasks = d_tasks d\<rparr> of
        (r, st) \<Rightarrow> (r, d\<lparr>d_registry := registry st, d_tasks := tasks st, d_os := host st\<rparr>))"

definition on_os :: "'x os handler \<Rightarrow> 'x daemon handler" where
  "on_os h params d = (case h params (d_os d) of (r, s) \<Rightarrow> (r, d\<lparr>d_os := s\<rparr>))"

definition get_all_vm_stats :: "'x outer \<Rightarrow> 'x virt handler" where
  "get_all_vm_stats w params st =
     (let st1 = reconcile_from_libvirt (ovirsh w) st
      in (Inr (JArr (map (\<lambda>r. record_to_stats r (now_secs (host st1))) (oorder w (registry st1)))), st1))"

section \<open>The verbs\<close>

definition host_verbs :: "'x outer \<Rightarrow> (string \<times> 'x daemon handler) list" where
  "host_verbs w =
     (let e = sys (bus (octx w))
      in [(''Host.ping2'', ping2),
          (''Host.getCapabilities'', on_os (get_capabilities e)),
          (''Host.getStats'', on_os (Host_Stats.get_stats e)),
          (''Host.getAllVmStats'', on_virt (get_all_vm_stats w)),
          (''Host.setupNetworks'', setup_networks),
          (''Host.setSafeNetworkConfig'', set_safe_network_config),
          (''Host.getHardwareInfo'', on_os (get_hardware_info e)),
          (''Host.hostdevListByCaps'', hostdev_list_by_caps),
          (''Host.setMOMPolicyParameters'', set_mom_policy_parameters),
          (''Host.setMOMPolicy'', set_mom_policy)])"

definition vm_verbs :: "'x outer \<Rightarrow> (string \<times> 'x virt handler) list" where
  "vm_verbs w =
     (let p = ovirsh w
      in [(''VM.create'', vm_create p),
          (''VM.destroy'', vm_destroy p),
          (''VM.shutdown'', vm_shutdown p),
          (''VM.cont'', vm_cont p),
          (''VM.pause'', vm_pause p),
          (''VM.getStats'', vm_get_stats),
          (''VM.setTicket'', vm_set_ticket p),
          (''VM.updateDevice'', vm_update_device),
          (''VM.hotplugDisk'', vm_update_device),
          (''VM.hotunplugDisk'', vm_update_device),
          (''VM.hotplugNic'', vm_update_device),
          (''VM.hotunplugNic'', vm_update_device),
          (''VM.migrate'', vm_migrate p),
          (''VM.migrationCreate'', vm_migration_create),
          (''VM.migrationCancel'', vm_migration_cancel p),
          (''VM.migrateCancel'', vm_migration_cancel p),
          (''VM.migrateChangeParams'', vm_migrate_change_params),
          (''VM.migrateStatus'', vm_migrate_status p),
          (''Host.dumpxmls'', dump_xmls p)])"

definition storage_verbs :: "'x outer \<Rightarrow> (string \<times> 'x storage handler) list" where
  "storage_verbs w =
     (let c = octx w
      in [(''StoragePool.connectStorageServer'', connect_storage_server c),
          (''StoragePool.disconnectStorageServer'', disconnect_storage_server c),
          (''Host.getStorageServerConnectionsList'', get_storage_server_connections_list c),
          (''Host.discoverSendTargets'', discover_send_targets),
          (''Host.getDeviceList'', get_device_list_stub),
          (''StorageDomain.create'', create_storage_domain c),
          (''StorageDomain.getInfo'', get_storage_domain_info c),
          (''StorageDomain.getStats'', get_storage_domain_stats c),
          (''StorageDomain.attach'', attach_storage_domain),
          (''StorageDomain.activate'', activate_storage_domain),
          (''StoragePool.connectStoragePool'', connect_storage_pool),
          (''StoragePool.connect'', connect_storage_pool),
          (''StoragePool.disconnect'', connect_storage_pool),
          (''StoragePool.reconstructMaster'', create_storage_pool),
          (''StoragePool.refresh'', connect_storage_pool),
          (''StorageDomain.refresh'', activate_storage_domain),
          (''StorageDomain.detach'', attach_storage_domain),
          (''StorageDomain.deactivate'', activate_storage_domain),
          (''StorageDomain.format'', activate_storage_domain),
          (''StoragePool.spmStop'', spm_start),
          (''Volume.create'', volume_create c),
          (''Volume.getInfo'', volume_get_info c),
          (''Volume.getSize'', volume_get_size c),
          (''Volume.delete'', volume_delete c),
          (''Image.prepare'', image_prepare c),
          (''Image.teardown'', image_teardown c),
          (''Image.delete'', image_delete c),
          (''Image.deleteVolumes'', image_delete_volumes c)])"

definition block_verbs :: "'x outer \<Rightarrow> (string \<times> 'x storage handler) list" where
  "block_verbs w =
     (let c = octx w
      in [(''Host.discoverSendTargets'', iscsi_discover_send_targets c),
          (''Host.iscsiDiscoverSendTargets'', iscsi_discover_send_targets c),
          (''Host.iscsiLogin'', iscsi_login c),
          (''Host.iscsiLogout'', iscsi_logout c),
          (''Host.iscsiRescan'', iscsi_rescan c),
          (''Host.getDeviceList'', get_device_list_stub),
          (''Host.getDevicesVisibility'', get_devices_visibility c),
          (''Host.getLVMVGList'', get_lvm_vg_list c),
          (''Host.getVGInfo'', get_vg_info c),
          (''Host.createVG'', create_vg c),
          (''Host.extendVG'', extend_vg c),
          (''Host.removeVG'', remove_vg c),
          (''Host.getPathListStatus'', get_path_list_status c),
          (''Host.fcScan'', fc_scan c),
          (''StoragePool.create'', create_storage_pool),
          (''StoragePool.spmStart'', spm_start),
          (''StoragePool.getSpmStatus'', get_spm_status),
          (''StoragePool.getInfo'', get_storage_pool_info c),
          (''Host.HSMGetAllTasksStatuses'', hsm_get_all_tasks_statuses)])"

definition all_storage_verbs :: "'x outer \<Rightarrow> (string \<times> 'x storage handler) list" where
  "all_storage_verbs w = storage_verbs w @ block_verbs w"

definition verb_table :: "'x outer \<Rightarrow> 'x daemon dispatcher" where
  "verb_table w =
     register_all
       (host_verbs w @ map (\<lambda>(n, h). (n, on_virt h)) (vm_verbs w) @
        map (\<lambda>(n, h). (n, on_storage h)) (all_storage_verbs w))"

section \<open>Components as parts of the daemon\<close>

text \<open>
  A component sees a part of the state of the daemon, and its handlers are lifted through that
  view. What is proved of a handler on its own state then holds of the verb.
\<close>

locale part =
  fixes view :: "'d \<Rightarrow> 'v" and put :: "'v \<Rightarrow> 'd \<Rightarrow> 'd" and lifted :: "'v handler \<Rightarrow> 'd handler"
  assumes view_put: "view (put v d) = v"
    and put_view: "put (view d) d = d"
    and lifted_eq: "lifted h params d = (case h params (view d) of (r, v) \<Rightarrow> (r, put v d))"
begin

lemma lifted_result: "fst (lifted h params d) = fst (h params (view d))"
  by (simp add: lifted_eq split: prod.splits)

lemma lifted_view: "view (snd (lifted h params d)) = snd (h params (view d))"
  by (simp add: lifted_eq view_put split: prod.splits)

lemma lifted_frame: "(\<And>v. P (put v d) = P d) \<Longrightarrow> P (snd (lifted h params d)) = P d"
  by (simp add: lifted_eq split: prod.splits)

lemma lifted_keeps: "(\<And>v. Q v \<Longrightarrow> Q (snd (h params v))) \<Longrightarrow> Q (view d) \<Longrightarrow> Q (view (snd (lifted h params d)))"
  by (simp add: lifted_view)

lemma lifted_pure: "snd (h params (view d)) = view d \<Longrightarrow> snd (lifted h params d) = d"
  by (auto simp: lifted_eq put_view split: prod.splits)

end

definition storage_view :: "'x daemon \<Rightarrow> 'x storage" where
  "storage_view d = \<lparr>connections = d_connections d, pool = d_pool d, machine = d_os d\<rparr>"

definition virt_view :: "'x daemon \<Rightarrow> 'x virt" where
  "virt_view d = \<lparr>registry = d_registry d, host = d_os d, tasks = d_tasks d\<rparr>"

definition virt_put :: "'x virt \<Rightarrow> 'x daemon \<Rightarrow> 'x daemon" where
  "virt_put st d = d\<lparr>d_registry := registry st, d_tasks := tasks st, d_os := host st\<rparr>"

interpretation storage_part: part storage_view
    "\<lambda>st d. d\<lparr>d_connections := connections st, d_pool := pool st, d_os := machine st\<rparr>" on_storage
  by unfold_locales (simp_all add: storage_view_def on_storage_def)

interpretation virt_part: part virt_view virt_put on_virt
  by unfold_locales (simp_all add: virt_view_def virt_put_def on_virt_def)

interpretation os_part: part d_os "\<lambda>s d. d\<lparr>d_os := s\<rparr>" on_os
  by unfold_locales (simp_all add: on_os_def)

section \<open>Looking verbs up\<close>

lemma invoke_verb:
  "invoke (verb_table w) m =
     (case map_of (rev (all_storage_verbs w)) m of
        Some h \<Rightarrow> on_storage h
      | None \<Rightarrow>
          (case map_of (rev (vm_verbs w)) m of
             Some h \<Rightarrow> on_virt h
           | None \<Rightarrow>
               (case map_of (rev (host_verbs w)) m of
                  Some h \<Rightarrow> h
                | None \<Rightarrow> (\<lambda>params d. (Inl (method_not_found m), d)))))"
proof -
  have lift: "map_of (rev (map (\<lambda>(n, h). (n, f h)) xs)) m = map_option f (map_of (rev xs) m)" for f and xs :: "(string \<times> 'b) list"
    by (simp add: map_of_map rev_map)
  show ?thesis
    unfolding verb_table_def invoke_register_all rev_append map_of_append map_add_def lift
    by (simp add: map_of_map rev_map map_add_def split: option.splits)
qed

lemma found_verb: "map_of (rev xs) m = Some h \<Longrightarrow> h \<in> snd ` set xs"
  by (force dest: map_of_SomeD)

text \<open>The verbs about the host itself leave the storage alone, and the registry to the reconciliation.\<close>

lemma host_verb_cases:
  assumes "h \<in> snd ` set (host_verbs w)"
  shows "(\<exists>g. h = on_os g) \<or> h = on_virt (get_all_vm_stats w) \<or> (\<exists>j. h = fixed_answer j)"
  using assms
  by (auto simp: host_verbs_def Let_def ping2_def setup_networks_def set_safe_network_config_def hostdev_list_by_caps_def
      set_mom_policy_parameters_def set_mom_policy_def)

section \<open>The daemon at work\<close>

lemma pool_le_refl [simp]: "pool_le p p"
  by (simp add: pool_le_def)

lemma on_machine_pool [simp]: "pool (snd (on_machine f st)) = pool st" "connections (snd (on_machine f st)) = connections st"
  by (simp_all add: on_machine_def split: prod.splits)

lemma connect_pool [simp]:
  "pool (snd (connect_storage_server c params st)) = pool st" "pool (snd (disconnect_storage_server c params st)) = pool st"
  using connect_all_spec disconnect_all_spec
  by (fastforce simp: connect_storage_server_def disconnect_storage_server_def split: prod.splits)+

lemma size_pool [simp]: "pool (snd (volume_get_size c params st)) = pool st"
  by (auto simp: volume_get_size_def volume_get_info_def case_prod_beta split: sum.splits)

lemma storage_verbs_pool:
  assumes "h \<in> snd ` set (all_storage_verbs w)" "0 \<le> master_ver (pool st)"
  shows "pool_le (pool st) (pool (snd (h params st)))"
  using assms(1) pool_le_steps [OF assms(2), of params]
  by (auto simp: all_storage_verbs_def storage_verbs_def block_verbs_def Let_def get_storage_server_connections_list_def discover_send_targets_def
      get_device_list_stub_def create_storage_domain_def get_storage_domain_info_def get_storage_domain_stats_def
      attach_storage_domain_def activate_storage_domain_def connect_storage_pool_def create_storage_pool_def spm_start_def
      volume_create_def volume_get_info_def volume_delete_def image_prepare_def image_teardown_def image_delete_def
      image_delete_volumes_def iscsi_discover_send_targets_def iscsi_login_def iscsi_logout_def iscsi_rescan_def
      get_devices_visibility_def get_lvm_vg_list_def get_vg_info_def create_vg_def extend_vg_def remove_vg_def
      get_path_list_status_def fc_scan_def get_spm_status_def get_storage_pool_info_def hsm_get_all_tasks_statuses_def
      split: prod.splits)

lemma vm_verbs_registry:
  assumes "h \<in> snd ` set (vm_verbs w)" "registry_ok (registry st)"
  shows "registry_ok (registry (snd (h params st)))"
  using assms by (intro handlers_registry [where p = "ovirsh w"]) (auto simp: vm_verbs_def vm_handlers_def Let_def)

text \<open>A request for any verb, a step of a spawned task, or a change of the machine.\<close>

inductive daemon_step :: "'x outer \<Rightarrow> 'x daemon \<Rightarrow> 'x daemon \<Rightarrow> bool" for w where
  request: "daemon_step w d (snd (invoke (verb_table w) m params d))"
| task: "d_tasks d = a @ t # b \<Longrightarrow> task_step (ovirsh w) t (virt_view (d\<lparr>d_tasks := a @ b\<rparr>)) = (ts, st) \<Longrightarrow>
    daemon_step w d (virt_put (st\<lparr>tasks := tasks st @ ts\<rparr>) d)"
| world: "daemon_step w d (d\<lparr>d_os := s\<rparr>)"

definition daemon_start :: "'x os \<Rightarrow> 'x daemon" where
  "daemon_start s = \<lparr>d_connections = [], d_pool = pool_default, d_registry = [], d_tasks = [], d_os = s\<rparr>"

definition daemon_ok :: "'x daemon \<Rightarrow> bool" where
  "daemon_ok d \<longleftrightarrow> registry_ok (d_registry d) \<and> 0 \<le> master_ver (d_pool d) \<and> distinct (domains (d_pool d))"

lemma daemon_ok_le: "registry_ok (d_registry d') \<Longrightarrow> pool_le (d_pool d) (d_pool d') \<Longrightarrow> daemon_ok d \<Longrightarrow> daemon_ok d'"
  by (auto simp: daemon_ok_def pool_le_def)

lemma storage_frame:
  "d_registry (snd (on_storage h params d)) = d_registry d" "d_tasks (snd (on_storage h params d)) = d_tasks d"
  by (rule storage_part.lifted_frame, simp)+

lemma virt_frame:
  "d_pool (snd (on_virt h params d)) = d_pool d" "d_connections (snd (on_virt h params d)) = d_connections d"
  by (rule virt_part.lifted_frame, simp add: virt_put_def)+

lemma os_frame:
  "d_pool (snd (on_os h params d)) = d_pool d" "d_connections (snd (on_os h params d)) = d_connections d"
  "d_registry (snd (on_os h params d)) = d_registry d" "d_tasks (snd (on_os h params d)) = d_tasks d"
  by (rule os_part.lifted_frame, simp)+

lemmas frames = storage_frame virt_frame os_frame

lemma views [simp]: "pool (storage_view d) = d_pool d" "registry (virt_view d) = d_registry d"
  by (simp_all add: storage_view_def virt_view_def)

lemma lifted_views:
  "d_pool (snd (on_storage h params d)) = pool (snd (h params (storage_view d)))"
  "d_registry (snd (on_virt g params d)) = registry (snd (g params (virt_view d)))"
  using storage_part.lifted_view [of h params d] virt_part.lifted_view [of g params d]
  by (metis views(1), metis views(2))

lemma request_ok:
  assumes "daemon_ok d"
  shows "registry_ok (d_registry (snd (invoke (verb_table w) m params d)))"
    and "pool_le (d_pool d) (d_pool (snd (invoke (verb_table w) m params d)))"
proof -
  let ?d = "snd (invoke (verb_table w) m params d)"
  have r: "registry_ok (d_registry d)" and v: "0 \<le> master_ver (d_pool d)" using assms by (simp_all add: daemon_ok_def)
  have "registry_ok (d_registry ?d) \<and> pool_le (d_pool d) (d_pool ?d)"
  proof (cases "map_of (rev (all_storage_verbs w)) m")
    case (Some h)
    then show ?thesis
      using storage_verbs_pool [OF found_verb [OF Some], of "storage_view d" params] r v
      by (simp add: invoke_verb frames lifted_views)
  next
    case s: None
    show ?thesis
    proof (cases "map_of (rev (vm_verbs w)) m")
      case (Some h)
      then show ?thesis
        using s vm_verbs_registry [OF found_verb [OF Some], of "virt_view d" params] r
        by (simp add: invoke_verb frames lifted_views)
    next
      case None
      show ?thesis
      proof (cases "map_of (rev (host_verbs w)) m")
        case (Some h)
        have "registry_ok (registry (snd (get_all_vm_stats w params (virt_view d))))"
          using r by (simp add: get_all_vm_stats_def Let_def reconcile_registry)
        with host_verb_cases [OF found_verb [OF Some]] s None Some r show ?thesis
          by (auto simp: invoke_verb frames lifted_views fixed_answer_def)
      next
        case n: None
        with s None r show ?thesis by (simp add: invoke_verb)
      qed
    qed
  qed
  then show "registry_ok (d_registry ?d)" "pool_le (d_pool d) (d_pool ?d)" by simp_all
qed

lemma daemon_step_ok:
  assumes "daemon_step w d d'" "daemon_ok d"
  shows "daemon_ok d' \<and> pool_le (d_pool d) (d_pool d')"
proof -
  have "registry_ok (d_registry d') \<and> pool_le (d_pool d) (d_pool d')"
    using assms(1)
  proof cases
    case (request m params)
    then show ?thesis using request_ok [OF assms(2)] by simp
  next
    case (task a t b ts st)
    have "registry_ok (registry st)"
      by (rule task_step_registry [OF task(3)]) (use assms(2) in \<open>simp add: daemon_ok_def\<close>)
    then show ?thesis by (simp add: task(1) virt_put_def)
  next
    case (world s)
    then show ?thesis using assms(2) by (simp add: daemon_ok_def)
  qed
  with daemon_ok_le assms(2) show ?thesis by blast
qed

lemma daemon_steps_ok:
  assumes "(daemon_step w)\<^sup>*\<^sup>* d d'" "daemon_ok d"
  shows "daemon_ok d' \<and> pool_le (d_pool d) (d_pool d')"
  using assms
proof (induction rule: rtranclp_induct)
  case (step y z)
  then show ?case using daemon_step_ok pool_le_trans by blast
qed simp

lemma daemon_start_ok: "daemon_ok (daemon_start s)"
  by (simp add: daemon_ok_def daemon_start_def registry_ok_def hm_ok_def pool_default_def)

text \<open>
  The state of the whole daemon stays sound. From its start, through any requests for any verbs,
  steps of spawned tasks and changes of the machine, the registry of machines has one record per
  identifier, filed under it, and the pool has no domain twice; and from any point on the pool
  only gains domains and its master version never falls.
\<close>

theorem daemon_invariant:
  assumes "(daemon_step w)\<^sup>*\<^sup>* (daemon_start s) d" "(daemon_step w)\<^sup>*\<^sup>* d d'"
  shows "distinct (map fst (d_registry d')) \<and> (\<forall>k r. hm_get (d_registry d') k = Some r \<longrightarrow> vm_id r = k) \<and>
    distinct (domains (d_pool d')) \<and> (\<exists>new. domains (d_pool d') = domains (d_pool d) @ new) \<and>
    master_ver (d_pool d) \<le> master_ver (d_pool d')"
proof -
  have "daemon_ok d" using daemon_steps_ok [OF assms(1) daemon_start_ok] by simp
  from daemon_steps_ok [OF assms(2) this] show ?thesis
    by (simp add: daemon_ok_def registry_ok_def hm_ok_def pool_le_def)
qed

definition sample_outer :: "unit outer" where
  "sample_outer = \<lparr>octx = sample_ctx, ovirsh = sample_virsh, oorder = map snd\<rparr>"

theorem daemon_invariant_witness:
  "\<exists>d. d = snd (invoke (verb_table sample_outer) ''VM.create'' sample_params (daemon_start sample_os)) \<and>
     distinct (map fst (d_registry d)) \<and> distinct (domains (d_pool d))"
proof -
  have "(daemon_step sample_outer)\<^sup>*\<^sup>* (daemon_start sample_os)
      (snd (invoke (verb_table sample_outer) ''VM.create'' sample_params (daemon_start sample_os)))"
    by (rule r_into_rtranclp) (rule daemon_step.request)
  from daemon_invariant [OF this rtranclp.rtrancl_refl] show ?thesis by blast
qed

text \<open>
  The components are kept apart. Whatever verb is called, known or not, either the machines of
  the registry and the spawned tasks are as before, or the storage connections and the pool are.
\<close>

theorem verbs_keep_apart:
  "let d' = snd (invoke (verb_table w) m params d)
   in d_registry d' = d_registry d \<and> d_tasks d' = d_tasks d \<or> d_connections d' = d_connections d \<and> d_pool d' = d_pool d"
proof (cases "map_of (rev (all_storage_verbs w)) m")
  case (Some h)
  then show ?thesis by (simp add: invoke_verb frames Let_def)
next
  case s: None
  show ?thesis
  proof (cases "map_of (rev (vm_verbs w)) m")
    case (Some h)
    with s show ?thesis by (simp add: invoke_verb frames Let_def)
  next
    case None
    have "h \<in> snd ` set (host_verbs w) \<Longrightarrow> d_connections (snd (h params d)) = d_connections d \<and> d_pool (snd (h params d)) = d_pool d" for h
      using host_verb_cases [of h w] by (auto simp: frames fixed_answer_def)
    with s None found_verb show ?thesis by (fastforce simp: invoke_verb Let_def split: option.splits)
  qed
qed

lemma verb_lookups:
  "map_of (rev (all_storage_verbs w)) ''Host.getDeviceList'' = Some get_device_list_stub"
  "map_of (rev (all_storage_verbs w)) ''StoragePool.disconnect'' = Some connect_storage_pool"
  "map_of (rev (all_storage_verbs w)) ''StoragePool.connect'' = Some connect_storage_pool"
  "map_of (rev (all_storage_verbs w)) ''StorageDomain.format'' = Some activate_storage_domain"
  unfolding all_storage_verbs_def storage_verbs_def block_verbs_def Let_def
  by (simp_all only: append_Cons append_Nil rev.simps map_of.simps fst_conv snd_conv fun_upd_apply list.inject char.inject simp_thms if_True if_False list.distinct)


end
