(* ===== verification/Tls.thy ===== *)
theory Tls
  imports Os
begin

text \<open>
  \<open>crates/vdsm-rpc/src/tls.rs\<close>: loading the certificate and the key of the server. Reading PEM text
  (\<open>rustls_pemfile\<close>) and building the configuration (\<open>rustls\<close>) are parameters in the record
  \<open>tls_lib\<close>: the certificates found in a text, each of which may be unreadable, the first private
  key, and the verdict on a chain and a key. The process-wide cryptography provider and the key log,
  which only \<open>rustls\<close> uses, have no counterpart.
\<close>

datatype tls_error = TlsIo string string | NoCerts string | NoKey string | RustlsError string

definition tls_error_text :: "tls_error \<Rightarrow> string" where
  "tls_error_text x =
     (case x of
        TlsIo p m \<Rightarrow> ''read '' @ p @ '': '' @ m
      | NoCerts p \<Rightarrow> ''no certificates in '' @ p
      | NoKey p \<Rightarrow> ''no private key in '' @ p
      | RustlsError m \<Rightarrow> ''rustls config: '' @ m)"

record ('c, 'k, 'g) tls_lib =
  pem_certs :: "bytes \<Rightarrow> (string, 'c) result list"
  pem_key :: "bytes \<Rightarrow> (string, 'k option) result"
  single_cert :: "'c list \<Rightarrow> 'k \<Rightarrow> (string, 'g) result"

definition ok_items :: "(string, 'c) result list \<Rightarrow> 'c list" where
  "ok_items rs = List.map_filter (\<lambda>r. case r of Inr x \<Rightarrow> Some x | Inl _ \<Rightarrow> None) rs"

definition load_server_config ::
  "'x env \<Rightarrow> ('c, 'k, 'g) tls_lib \<Rightarrow> string \<Rightarrow> string \<Rightarrow> 'x os \<Rightarrow> (tls_error, 'g) result" where
  "load_server_config e lib cert_path key_path s =
     (case fs_read e cert_path s of
        Inl m \<Rightarrow> Inl (TlsIo cert_path m)
      | Inr cert_bytes \<Rightarrow>
          (let certs = ok_items (pem_certs lib cert_bytes)
           in if certs = [] then Inl (NoCerts cert_path)
              else
                (case fs_read e key_path s of
                   Inl m \<Rightarrow> Inl (TlsIo key_path m)
                 | Inr key_bytes \<Rightarrow>
                     (case pem_key lib key_bytes of
                        Inl m \<Rightarrow> Inl (TlsIo key_path m)
                      | Inr None \<Rightarrow> Inl (NoKey key_path)
                      | Inr (Some key) \<Rightarrow>
                          (case single_cert lib certs key of
                             Inl m \<Rightarrow> Inl (RustlsError m)
                           | Inr cfg \<Rightarrow> Inr cfg)))))"

text \<open>A configuration is only made from a certificate and a key that were read from the two files.\<close>

lemma load_server_config_Inr:
  "load_server_config e lib cert_path key_path s = Inr g \<longleftrightarrow>
   (\<exists>cb kb key. fs_read e cert_path s = Inr cb \<and> fs_read e key_path s = Inr kb \<and> ok_items (pem_certs lib cb) \<noteq> [] \<and>
      pem_key lib kb = Inr (Some key) \<and> single_cert lib (ok_items (pem_certs lib cb)) key = Inr g)"
  by (auto simp: load_server_config_def Let_def split: sum.splits option.splits)

end
