(* ===== verification/Daemon_Run.thy ===== *)
theory Daemon_Run
  imports Vdsmd Tls
begin

text \<open>
  \<open>Server::serve\<close> of \<open>crates/vdsm-rpc/src/server.rs\<close> and the end of \<open>crates/vdsmd/src/main.rs\<close>: binding the
  listener, the TLS material, and the accept loop, which spawns a task per connection. The tasks
  run concurrently on one daemon state. They are interleaved step by step, one step being a read,
  or one frame or line with the whole handler it calls. Which sockets the system hands out, and
  when, is left open: a step relation.
\<close>

section \<open>Starting\<close>

definition u16_str :: "u16 \<Rightarrow> string" where
  "u16_str n = nat_dec (unat n)"

text \<open>Up to the loop: the acceptor, \<open>None\<close> without TLS. \<open>listen\<close> is what binding the address gives.\<close>

definition serve_start ::
  "'x env \<Rightarrow> ('c, 'k, 'g) tls_lib \<Rightarrow> (string \<Rightarrow> (string, unit) result) \<Rightarrow> server_config \<Rightarrow> 'x os \<Rightarrow>
   (string, 'g option) result" where
  "serve_start e lib listen cfg s =
     (case listen (bind_addr cfg @ '':'' @ u16_str (port cfg)) of
        Inl m \<Rightarrow> Inl m
      | Inr _ \<Rightarrow>
          (if tls_enabled cfg then
             (case load_server_config e lib (tls_cert cfg) (tls_key cfg) s of
                Inl x \<Rightarrow> Inl (tls_error_text x)
              | Inr g \<Rightarrow> Inr (Some g))
           else Inr None))"

text \<open>
  \<open>main\<close> of \<open>vdsmd\<close> up to the accept loop: how the server frames its messages, and the acceptor.
\<close>

definition vdsmd_start ::
  "'x env \<Rightarrow> toml \<Rightarrow> ('c, 'k, 'g) tls_lib \<Rightarrow> (string \<Rightarrow> (string, unit) result) \<Rightarrow> string \<Rightarrow> 'x os \<Rightarrow>
   (string, framing \<times> 'g option) result" where
  "vdsmd_start e from_toml lib listen path s =
     (case effective_config e from_toml path s of
        Inl x \<Rightarrow> Inl (vdsm_error_text x)
      | Inr c \<Rightarrow>
          (case serve_start e lib listen (server_config_of c) s of
             Inl m \<Rightarrow> Inl m
           | Inr g \<Rightarrow> Inr (framing (server_config_of c), g)))"

text \<open>
  The daemon never falls back to plain text: it serves without TLS only when a configuration file
  turns TLS off, and with TLS only on a certificate and a key that were read.
\<close>

lemma vdsmd_start_tls:
  assumes "vdsmd_start e from_toml lib listen path s = Inr (fr, g)"
  shows "\<exists>c. effective_config e from_toml path s = Inr c \<and>
    (case g of
       None \<Rightarrow> path_exists e path s \<and> config_load e from_toml path s = Inr c \<and> \<not> cfg_tls_enabled (rpc_cfg c)
     | Some a \<Rightarrow> cfg_tls_enabled (rpc_cfg c) \<and>
         load_server_config e lib (cfg_tls_cert (rpc_cfg c)) (cfg_tls_key (rpc_cfg c)) s = Inr a)"
  using assms
  by (auto simp: vdsmd_start_def serve_start_def server_config_of_def effective_config_def config_default_def
      rpc_config_default_def Let_def split: sum.splits if_splits)

section \<open>One connection, one step at a time\<close>

definition stomp_work :: "'w srv \<Rightarrow> bytes \<Rightarrow> 'w conn \<Rightarrow> status \<times> bytes \<times> 'w conn" where
  "stomp_work s b c =
     (case parse_frame b of
        Parsed f r \<Rightarrow> (case handle_frame s f c of (st, c') \<Rightarrow> (st, r, c'))
      | Incomplete \<Rightarrow> (Running, b, c)
      | Failed e \<Rightarrow> (ClosedOk, b, snd (send_frame (error_frame ''malformed frame'' (parse_error_text e)) c))
      | Panicked \<Rightarrow> (Crashed, b, c))"

definition line_work :: "'w srv \<Rightarrow> bytes \<Rightarrow> 'w conn \<Rightarrow> status \<times> bytes \<times> 'w conn" where
  "line_work s b c =
     (case find_byte NL b of
        None \<Rightarrow> (Running, b, c)
      | Some i \<Rightarrow> (case handle_line s (take (Suc i) b) c of (st, c') \<Rightarrow> (st, drop (Suc i) b, c')))"

text \<open>A connection reads when its buffer holds no more complete message.\<close>

definition idle :: "framing \<Rightarrow> bytes \<Rightarrow> bool" where
  "idle fr b \<longleftrightarrow> (case fr of Stomp \<Rightarrow> parse_frame b = Incomplete | Line \<Rightarrow> find_byte NL b = None)"

datatype client_event = Work | Read read_event

fun client_step :: "framing \<Rightarrow> 'w srv \<Rightarrow> client_event \<Rightarrow> bytes \<Rightarrow> 'w conn \<Rightarrow> status \<times> bytes \<times> 'w conn" where
  "client_step Stomp s Work b c = stomp_work s b c"
| "client_step Line s Work b c = line_work s b c"
| "client_step fr s (Read ReadErr) b c = (ClosedErr, b, c)"
| "client_step fr s (Read Eof) b c = (case fr of Stomp \<Rightarrow> (ClosedOk, b, c) | Line \<Rightarrow> finish_lines s b c)"
| "client_step fr s (Read (Data d)) b c =
     (if d = [] then (case fr of Stomp \<Rightarrow> (ClosedOk, b, c) | Line \<Rightarrow> finish_lines s b c) else (Running, b @ d, c))"

text \<open>The inner loops are these steps, repeated while the buffer holds a message.\<close>

lemma drain_work:
  "drain s b c =
     (if idle Stomp b then (Running, b, c)
      else case stomp_work s b c of (st, b', c') \<Rightarrow> if st = Running then drain s b' c' else (st, b', c'))"
  by (subst drain.simps) (auto simp: idle_def stomp_work_def split: parse_outcome.splits prod.splits status.splits)

lemma drain_lines_work:
  "drain_lines s b c =
     (if idle Line b then (Running, b, c)
      else case line_work s b c of (st, b', c') \<Rightarrow> if st = Running then drain_lines s b' c' else (st, b', c'))"
  by (subst drain_lines.simps) (auto simp: idle_def line_work_def split: option.splits prod.splits status.splits)

section \<open>All connections\<close>

record 'w client =
  cl_peer :: string
  cl_buf :: bytes
  cl_status :: status
  cl_conn :: "'w conn"

record 'w serving =
  sv_world :: 'w
  sv_clients :: "'w client list"

definition new_client :: "bool option \<Rightarrow> string \<Rightarrow> nat \<Rightarrow> 'w \<Rightarrow> 'w client" where
  "new_client tls p n w =
     \<lparr>cl_peer = p, cl_buf = [], cl_status = (if tls = Some False then ClosedErr else Running), cl_conn = conn_init n w\<rparr>"

text \<open>
  \<open>other\<close> is what else happens to the daemon state meanwhile. A peer address prints as text, and a
  buffer never grows to half the address space, as for every Rust vector.
\<close>

inductive serving_step :: "framing \<Rightarrow> bool \<Rightarrow> 'w srv \<Rightarrow> ('w \<Rightarrow> 'w \<Rightarrow> bool) \<Rightarrow> 'w serving \<Rightarrow> 'w serving \<Rightarrow> bool"
  for fr with_tls s other where
  accept: "utf8_valid p \<Longrightarrow> (tls = None \<longleftrightarrow> \<not> with_tls) \<Longrightarrow>
    serving_step fr with_tls s other S (S\<lparr>sv_clients := sv_clients S @ [new_client tls p n (sv_world S)]\<rparr>)"
| accept_failed: "serving_step fr with_tls s other S S"
| client: "i < length (sv_clients S) \<Longrightarrow> cl = sv_clients S ! i \<Longrightarrow> cl_status cl = Running \<Longrightarrow>
    (ev = Work \<longleftrightarrow> \<not> idle fr (cl_buf cl)) \<Longrightarrow>
    client_step fr (s\<lparr>peer := cl_peer cl\<rparr>) ev (cl_buf cl) ((cl_conn cl)\<lparr>world := sv_world S\<rparr>) = (st, b, c) \<Longrightarrow>
    length b < 2 ^ 63 \<Longrightarrow>
    serving_step fr with_tls s other S
      \<lparr>sv_world = world c, sv_clients = (sv_clients S)[i := cl\<lparr>cl_buf := b, cl_status := st, cl_conn := c\<rparr>]\<rparr>"
| other: "other (sv_world S) w \<Longrightarrow> serving_step fr with_tls s other S (S\<lparr>sv_world := w\<rparr>)"

definition serving_start :: "'w \<Rightarrow> 'w serving" where
  "serving_start w = \<lparr>sv_world = w, sv_clients = []\<rparr>"

section \<open>What a step does to the daemon\<close>

lemma answer_world: "answer s t w = (r, i, w') \<Longrightarrow> w' = w \<or> (\<exists>m params. w' = snd (invoke (dispatcher s) m params w))"
  by (auto simp: answer_def split: sum.splits prod.splits) (metis snd_conv)+

lemma process_one_world: "process_one s t w = (r, w') \<Longrightarrow> w' = w \<or> (\<exists>m params. w' = snd (invoke (dispatcher s) m params w))"
  by (auto simp: process_one_def split: sum.splits prod.splits if_splits) (metis snd_conv)+

lemma send_frame_world [simp]: "world (snd (send_frame g c)) = world c"
  by (rule send_frame_cases [of g c]) simp_all

lemma send_frame_world_eq: "send_frame g c = (ok, c') \<Longrightarrow> world c' = world c"
  using send_frame_world [of g c] by simp

lemma handle_stomp_send_world:
  assumes "handle_stomp_send s f c = (st, c')"
  shows "world c' = world c \<or> (\<exists>m params. world c' = snd (invoke (dispatcher s) m params (world c)))"
proof (cases "from_utf8 (body f)")
  case (Inl e)
  then show ?thesis using assms by (simp add: handle_stomp_send_def)
next
  case (Inr t)
  obtain r i w' where a: "answer s t (world c) = (r, i, w')" by (cases "answer s t (world c)") auto
  have "world c' = w'"
    using assms Inr a by (auto simp: handle_stomp_send_def Let_def split: if_splits sum.splits option.splits prod.splits
        dest!: send_frame_world_eq)
  then show ?thesis using answer_world [OF a] by simp
qed

lemma handle_frame_world:
  assumes "handle_frame s f c = (st, c')"
  shows "world c' = world c \<or> connected c \<and> (\<exists>m params. world c' = snd (invoke (dispatcher s) m params (world c)))"
proof (cases "connected c \<and> command f = ''SEND''")
  case True
  then have "handle_stomp_send s f c = (st, c')" using assms by (simp add: handle_frame_def Let_def)
  with True show ?thesis using handle_stomp_send_world by blast
next
  case False
  then show ?thesis
    using assms by (auto simp: handle_frame_def Let_def split: if_splits prod.splits bool.splits option.splits dest!: send_frame_world_eq)
qed

lemma write_all_world: "write_all b c = (ok, c') \<Longrightarrow> world c' = world c"
  by (auto simp: write_all_def split: if_splits)

lemma handle_line_world:
  assumes "handle_line s l c = (st, c')"
  shows "world c' = world c \<or> (\<exists>m params. world c' = snd (invoke (dispatcher s) m params (world c)))"
proof (cases "\<exists>t. from_utf8 l = Inr t \<and> trim t \<noteq> []")
  case True
  then obtain t where t: "from_utf8 l = Inr t" "trim t \<noteq> []" by auto
  obtain r w' where p: "process_one s (trim t) (world c) = (r, w')" by fastforce
  have "world c' = w'"
    using assms t p by (auto simp: handle_line_def split: option.splits sum.splits prod.splits dest!: write_all_world)
  then show ?thesis using process_one_world [OF p] by simp
next
  case False
  then show ?thesis using assms by (auto simp: handle_line_def split: sum.splits if_splits)
qed

lemma finish_lines_world:
  "finish_lines s b c = (st, b', c') \<Longrightarrow> world c' = world c \<or> (\<exists>m params. world c' = snd (invoke (dispatcher s) m params (world c)))"
  by (auto simp: finish_lines_def split: if_splits prod.splits status.splits dest!: handle_line_world)

text \<open>A step of a connection runs at most one verb; over STOMP, none before the handshake.\<close>

lemma client_step_world:
  assumes "client_step fr s ev b c = (st, b', c')"
  shows "world c' = world c \<or>
    (fr = Stomp \<longrightarrow> connected c) \<and> (\<exists>m params. world c' = snd (invoke (dispatcher s) m params (world c)))"
proof (cases ev)
  case Work
  then show ?thesis
    using assms by (cases fr) (auto simp: stomp_work_def line_work_def split: parse_outcome.splits option.splits prod.splits
        dest!: handle_frame_world handle_line_world)
next
  case (Read r)
  then show ?thesis
    using assms by (cases r; cases fr) (auto split: if_splits dest!: finish_lines_world)
qed

text \<open>What happens in the daemon besides requests.\<close>

inductive background :: "'x outer \<Rightarrow> 'x daemon \<Rightarrow> 'x daemon \<Rightarrow> bool" for w where
  task: "d_tasks d = a @ t # b \<Longrightarrow> task_step (ovirsh w) t (virt_view (d\<lparr>d_tasks := a @ b\<rparr>)) = (ts, st) \<Longrightarrow>
    background w d (virt_put (st\<lparr>tasks := tasks st @ ts\<rparr>) d)"
| machine: "background w d (d\<lparr>d_os := s\<rparr>)"

lemma background_step: "background w d d' \<Longrightarrow> daemon_step w d d'"
  by (cases rule: background.cases) (auto intro: daemon_step.intros)

lemma request_reached: "(daemon_step w)\<^sup>*\<^sup>* d (snd (invoke (verb_table w) m params d))"
  by (rule r_into_rtranclp) (rule daemon_step.request)

lemma serving_step_daemon:
  assumes "serving_step fr tls s (background w) S S'" "dispatcher s = verb_table w"
  shows "(daemon_step w)\<^sup>*\<^sup>* (sv_world S) (sv_world S')"
  using assms(1)
proof cases
  case (client i cl ev st b c)
  then have "sv_world S' = sv_world S \<or> (\<exists>m params. sv_world S' = snd (invoke (verb_table w) m params (sv_world S)))"
    using client_step_world [OF client(6)] assms(2) by auto
  then show ?thesis using request_reached by auto
next
  case (other d)
  then show ?thesis by (simp add: background_step r_into_rtranclp)
qed simp_all

lemma serving_steps_daemon:
  assumes "(serving_step fr tls s (background w))\<^sup>*\<^sup>* S S'" "dispatcher s = verb_table w"
  shows "(daemon_step w)\<^sup>*\<^sup>* (sv_world S) (sv_world S')"
  using assms(1)
proof (induction rule: rtranclp_induct)
  case (step y z)
  then show ?case using serving_step_daemon [OF step(2) assms(2)] by (meson rtranclp_trans)
qed simp


definition sample_engine :: "unit daemon srv" where
  "sample_engine =
     \<lparr>de_request = (\<lambda>t. Inr \<lparr>req_jsonrpc = ''2.0'', req_method = t, req_params = JNull, req_id = Some (JStr ''7'')\<rparr>),
      ser_response = (\<lambda>r. Inr (if resp_result r = None then ''error'' else ''ok'')),
      dispatcher = verb_table sample_outer, peer = ''[::1]:9'', hash_order = (\<lambda>m. m)\<rparr>"


section \<open>What each client is sent\<close>

definition client_ok :: "'w srv \<Rightarrow> 'w client \<Rightarrow> bool" where
  "client_ok s cl \<longleftrightarrow>
     utf8_valid (cl_peer cl) \<and> length (cl_buf cl) < 2 ^ 63 \<and>
     conn_inv (s\<lparr>peer := cl_peer cl\<rparr>) (cl_conn cl) (cl_status cl) (cl_conn cl)"

lemma conn_inv_self: "conn_inv s c0 st c \<Longrightarrow> conn_inv s c st c"
  by (auto simp: conn_inv_def)

lemma conn_inv_shared: "conn_inv s c st c \<Longrightarrow> conn_inv s (c\<lparr>world := w\<rparr>) st (c\<lparr>world := w\<rparr>)"
  by (simp add: conn_inv_def)

lemma srv_ok_peer: "srv_ok s \<Longrightarrow> utf8_valid p \<Longrightarrow> srv_ok (s\<lparr>peer := p\<rparr>)"
  by (simp add: srv_ok_def)

lemma stomp_work_inv:
  assumes ok: "srv_ok s" and inv: "conn_inv s c Running c" and len: "length b < 2 ^ 63"
    and st: "stomp_work s b c = (st, b', c')"
  shows "conn_inv s c' st c'"
proof (cases "parse_frame b")
  case (Parsed f r)
  then show ?thesis
    using st handle_frame_inv [OF ok inv parse_frame_text [OF Parsed]] by (auto simp: stomp_work_def split: prod.splits intro: conn_inv_self)
next
  case (Failed e)
  have "length (parse_error_text e) < 2 ^ 64 - 1" by (rule error_text_bound [OF parse_frame_short [OF Failed] len])
  then have "conn_inv s c ClosedOk (snd (send_frame (error_frame ''malformed frame'' (parse_error_text e)) c))"
    by (intro conn_inv_send [OF inv]) (simp_all add: error_frame_ok)
  then show ?thesis using Failed st by (auto simp: stomp_work_def intro: conn_inv_self)
next
  case Incomplete
  then show ?thesis using inv st by (auto simp: stomp_work_def)
next
  case Panicked
  then show ?thesis using inv st by (auto simp: stomp_work_def intro: conn_inv_status)
qed

lemma client_step_inv:
  assumes "srv_ok s" "conn_inv s c Running c" "length b < 2 ^ 63" "client_step Stomp s ev b c = (st, b', c')"
  shows "conn_inv s c' st c'"
proof (cases ev)
  case Work
  then show ?thesis using stomp_work_inv [OF assms(1-3)] assms(4) by simp
next
  case (Read r)
  then show ?thesis
    using assms(2,4) by (cases r) (auto split: if_splits intro: conn_inv_status)
qed

lemma serving_step_clients:
  assumes "serving_step Stomp tls s other S S'" "srv_ok s" "\<forall>cl \<in> set (sv_clients S). client_ok s cl"
  shows "\<forall>cl \<in> set (sv_clients S'). client_ok s cl"
  using assms(1)
proof cases
  case (accept p t n)
  have "client_ok s (new_client t p n (sv_world S))"
    using accept(2) conn_inv_status [OF conn_inv_init] conn_inv_self by (auto simp: client_ok_def new_client_def conn_inv_init)
  then show ?thesis using accept(1) assms(3) by auto
next
  case (client i cl ev st b c)
  have cl: "client_ok s cl" using client(2,3) assms(3) by simp
  let ?s = "s\<lparr>peer := cl_peer cl\<rparr>"
  have "conn_inv ?s ((cl_conn cl)\<lparr>world := sv_world S\<rparr>) Running ((cl_conn cl)\<lparr>world := sv_world S\<rparr>)"
    using cl client(4) by (auto simp: client_ok_def intro: conn_inv_shared)
  from client_step_inv [OF srv_ok_peer [OF assms(2)] this _ client(6)] cl
  have "conn_inv ?s c st c" by (simp add: client_ok_def)
  then have "client_ok s (cl\<lparr>cl_buf := b, cl_status := st, cl_conn := c\<rparr>)"
    using cl client(7) by (simp add: client_ok_def)
  then show ?thesis using client(1) assms(3) by (auto dest!: set_update_subset_insert [THEN subsetD])
qed (use assms(3) in auto)

lemma serving_steps_clients:
  assumes "(serving_step Stomp tls s other)\<^sup>*\<^sup>* (serving_start w) S" "srv_ok s"
  shows "\<forall>cl \<in> set (sv_clients S). client_ok s cl"
  using assms(1)
proof (induction rule: rtranclp_induct)
  case (step y z)
  then show ?case using serving_step_clients [OF step(2) assms(2)] by blast
qed (simp add: serving_start_def)



end
