(* ===== verification/Supervdsm_Run.thy ===== *)
theory Supervdsm_Run
  imports Supervdsm
begin

text \<open>
  \<open>main\<close> of \<open>crates/supervdsm/src/main.rs\<close>: the start of the root daemon, which replaces a stale socket
  and narrows who may open the new one, and its accept loop. Sockets are nodes of the file system
  beside its files and directories, with an owner, a group and a mode. The umask of the process and
  refusals of a socket call for reasons of its own (a path that is too long, for instance) are
  parameters in the record \<open>sock_env\<close>. Accepted connections are handled in the order in which their
  requests are executed.
\<close>

section \<open>Sockets\<close>

record sock =
  sock_uid :: u32
  sock_gid :: u32
  sock_mode :: u32

datatype sock_op = SockBind | SockChown | SockChmod

record 'x root_sys =
  rs_os :: "'x os"
  rs_socks :: "(string list, sock) hmap"

record 'x sock_env =
  sock_fault :: "sock_op \<Rightarrow> string \<Rightarrow> 'x root_sys \<Rightarrow> string option"
  umask :: u32

definition EADDRINUSE :: string where
  "EADDRINUSE = ''Address already in use (os error 98)''"

text \<open>\<open>Path::exists\<close> and \<open>std::fs::remove_file\<close> where a socket may be found.\<close>

definition sys_exists :: "'x env \<Rightarrow> string \<Rightarrow> 'x root_sys \<Rightarrow> bool" where
  "sys_exists e p w \<longleftrightarrow>
     fault e OpStat p (rs_os w) = None \<and>
     (case locate (files (rs_os w)) p of
        Inl _ \<Rightarrow> False
      | Inr q \<Rightarrow> node_at (files (rs_os w)) q \<noteq> None \<or> map_of (rs_socks w) q \<noteq> None)"

definition sys_unlink :: "'x env \<Rightarrow> string \<Rightarrow> 'x root_sys \<Rightarrow> (string, unit) result \<times> 'x root_sys" where
  "sys_unlink e p w =
     (case (fault e OpRemove p (rs_os w), locate (files (rs_os w)) p) of
        (None, Inr q) \<Rightarrow>
          (if map_of (rs_socks w) q \<noteq> None then (Inr (), w\<lparr>rs_socks := hm_remove q (rs_socks w)\<rparr>)
           else map_prod id (\<lambda>s. w\<lparr>rs_os := s\<rparr>) (remove_file e p (rs_os w)))
      | _ \<Rightarrow> map_prod id (\<lambda>s. w\<lparr>rs_os := s\<rparr>) (remove_file e p (rs_os w)))"

text \<open>\<open>UnixListener::bind\<close> as root: the name must be free, and the mode is \<open>0o777\<close> less the umask. \<open>chown\<close> and \<open>set_permissions\<close> on a socket.\<close>

definition sock_bind :: "'x sock_env \<Rightarrow> string \<Rightarrow> 'x root_sys \<Rightarrow> (string, unit) result \<times> 'x root_sys" where
  "sock_bind k p w =
     (case sock_fault k SockBind p w of
        Some m \<Rightarrow> (Inl m, w)
      | None \<Rightarrow>
          (case locate (files (rs_os w)) p of
             Inl m \<Rightarrow> (Inl m, w)
           | Inr q \<Rightarrow>
               (if node_at (files (rs_os w)) q \<noteq> None \<or> map_of (rs_socks w) q \<noteq> None then (Inl EADDRINUSE, w)
                else (Inr (), w\<lparr>rs_socks := hm_insert q
                       \<lparr>sock_uid = 0, sock_gid = 0, sock_mode = and 0x1FF (not (umask k))\<rparr> (rs_socks w)\<rparr>))))"

definition sock_change ::
  "'x sock_env \<Rightarrow> sock_op \<Rightarrow> (sock \<Rightarrow> sock) \<Rightarrow> string \<Rightarrow> 'x root_sys \<Rightarrow> (string, unit) result \<times> 'x root_sys" where
  "sock_change k op f p w =
     (case sock_fault k op p w of
        Some m \<Rightarrow> (Inl m, w)
      | None \<Rightarrow>
          (case locate (files (rs_os w)) p of
             Inl m \<Rightarrow> (Inl m, w)
           | Inr q \<Rightarrow>
               (case map_of (rs_socks w) q of
                  None \<Rightarrow> (Inl ENOENT, w)
                | Some x \<Rightarrow> (Inr (), w\<lparr>rs_socks := hm_insert q (f x) (rs_socks w)\<rparr>))))"

definition sock_chown :: "'x sock_env \<Rightarrow> u32 \<Rightarrow> u32 \<Rightarrow> string \<Rightarrow> 'x root_sys \<Rightarrow> (string, unit) result \<times> 'x root_sys" where
  "sock_chown k u g = sock_change k SockChown (\<lambda>x. x\<lparr>sock_uid := u, sock_gid := g\<rparr>)"

definition sock_chmod :: "'x sock_env \<Rightarrow> u32 \<Rightarrow> string \<Rightarrow> 'x root_sys \<Rightarrow> (string, unit) result \<times> 'x root_sys" where
  "sock_chmod k m = sock_change k SockChmod (\<lambda>x. x\<lparr>sock_mode := m\<rparr>)"

section \<open>The daemon from its start\<close>

text \<open>\<open>main\<close> up to the loop: the uid that may connect, with the socket owned \<open>root:vdsm\<close>, mode \<open>0o660\<close>.\<close>

definition SOCK_MODE :: u32 where
  "SOCK_MODE = 0x1B0"

definition supervdsm_start ::
  "'x env \<Rightarrow> 'x sock_env \<Rightarrow> string \<Rightarrow> string \<Rightarrow> 'x root_sys \<Rightarrow> (string, u32) result \<times> 'x root_sys" where
  "supervdsm_start e k user p w =
     (case lookup_user e user (rs_os w) of
        Inl m \<Rightarrow> (Inl m, w)
      | Inr (uid, gid) \<Rightarrow>
          (case sock_bind k p (if sys_exists e p w then snd (sys_unlink e p w) else w) of
             (Inl m, w2) \<Rightarrow> (Inl m, w2)
           | (Inr _, w2) \<Rightarrow>
               (case sock_chown k 0 gid p w2 of
                  (Inl m, w3) \<Rightarrow> (Inl m, w3)
                | (Inr _, w3) \<Rightarrow>
                    (case sock_chmod k SOCK_MODE p w3 of
                       (Inl m, w4) \<Rightarrow> (Inl m, w4)
                     | (Inr _, w4) \<Rightarrow> (Inr uid, w4)))))"

text \<open>
  The loop: an accept that fails is logged and the loop goes on; a connection is handed to
  \<open>handle\<close>, whose error is logged. What each connection is sent, if anything.
\<close>

datatype accept_event = AcceptFailed string | Accepted "(string, u32) result" bytes

fun on_accept :: "'x bus \<Rightarrow> accept_event \<Rightarrow> 'x os \<Rightarrow> string option \<times> 'x os" where
  "on_accept b (AcceptFailed m) s = (None, s)"
| "on_accept b (Accepted cred req) s =
     (case handle b cred req s of (Inr r, s') \<Rightarrow> (r, s') | (Inl m, s') \<Rightarrow> (None, s'))"

fun accept_loop :: "'x bus \<Rightarrow> accept_event list \<Rightarrow> 'x os \<Rightarrow> string option list \<times> 'x os" where
  "accept_loop b [] s = ([], s)"
| "accept_loop b (ev # evs) s =
     (case on_accept b ev s of
        (r, s1) \<Rightarrow> (case accept_loop b evs s1 of (rs, s2) \<Rightarrow> (r # rs, s2)))"

definition supervdsm_main ::
  "'x bus \<Rightarrow> 'x sock_env \<Rightarrow> string \<Rightarrow> string \<Rightarrow> accept_event list \<Rightarrow> 'x root_sys \<Rightarrow>
   (string, string option list) result \<times> 'x root_sys" where
  "supervdsm_main b k user p evs w =
     (case supervdsm_start (root b) k user p w of
        (Inl m, w') \<Rightarrow> (Inl m, w')
      | (Inr uid, w') \<Rightarrow>
          (case accept_loop (b\<lparr>allowed_uid := uid\<rparr>) evs (rs_os w') of
             (rs, s) \<Rightarrow> (Inr rs, w'\<lparr>rs_os := s\<rparr>)))"

section \<open>The start\<close>

definition no_sock_faults :: "'x sock_env \<Rightarrow> bool" where
  "no_sock_faults k \<longleftrightarrow> (\<forall>op p w. sock_fault k op p w = None)"

lemma no_sock_faultsD [simp]: "no_sock_faults k \<Longrightarrow> sock_fault k op p w = None"
  by (simp add: no_sock_faults_def)

lemma sock_bind_Inr:
  "sock_bind k p w = (Inr u, w') \<Longrightarrow>
     \<exists>q x. locate (files (rs_os w)) p = Inr q \<and> w' = w\<lparr>rs_socks := hm_insert q x (rs_socks w)\<rparr>"
  by (auto simp: sock_bind_def split: option.splits sum.splits if_splits)

lemma sock_change_bound:
  "locate (files (rs_os w)) p = Inr q \<Longrightarrow>
     sock_change k op f p (w\<lparr>rs_socks := hm_insert q x m\<rparr>) =
       (case sock_fault k op p (w\<lparr>rs_socks := hm_insert q x m\<rparr>) of
          Some e \<Rightarrow> (Inl e, w\<lparr>rs_socks := hm_insert q x m\<rparr>)
        | None \<Rightarrow> (Inr (), w\<lparr>rs_socks := hm_insert q (f x) m\<rparr>))"
  by (simp add: sock_change_def update_conv' split: option.splits)

lemma supervdsm_start_Inr:
  assumes "supervdsm_start e k user p w = (Inr uid, w')"
  shows "\<exists>gid q. lookup_user e user (rs_os w) = Inr (uid, gid) \<and> locate (files (rs_os w')) p = Inr q \<and>
    map_of (rs_socks w') q = Some \<lparr>sock_uid = 0, sock_gid = gid, sock_mode = SOCK_MODE\<rparr>"
  using assms
  by (auto simp: supervdsm_start_def sock_chown_def sock_chmod_def sock_change_bound update_conv'
      split: sum.splits prod.splits option.splits dest!: sock_bind_Inr)

text \<open>No name is both a socket and a file or directory.\<close>

definition socks_apart :: "'x root_sys \<Rightarrow> bool" where
  "socks_apart w \<longleftrightarrow> (\<forall>q \<in> fst ` set (rs_socks w). node_at (files (rs_os w)) q = None)"

lemma stale_removed:
  assumes "no_faults e" "socks_apart w" "locate (files (rs_os w)) p = Inr q" "\<not> dir_at (files (rs_os w)) q"
  defines "w1 \<equiv> if sys_exists e p w then snd (sys_unlink e p w) else w"
  shows "locate (files (rs_os w1)) p = Inr q \<and> map_of (rs_socks w1) = (map_of (rs_socks w))(q := None) \<and>
    node_at (files (rs_os w1)) = (node_at (files (rs_os w)))(q := None)"
proof -
  have q: "q \<noteq> []" using assms(4) by auto
  have sock: "map_of (rs_socks w) q = Some x \<Longrightarrow> node_at (files (rs_os w)) q = None" for x
    using assms(2) by (auto simp: socks_apart_def dest!: map_of_SomeD intro!: rev_image_eqI)
  have rm: "node_at (hm_remove q f) = (node_at f)(q := None)" for f :: fs
    using q by (auto simp: node_at_def delete_conv')
  have dirs: "dir_at (hm_remove q (files (rs_os w))) = dir_at (files (rs_os w))"
    using assms(4) by (auto simp: fun_eq_iff dir_at_def rm)
  show ?thesis
    using assms(1,3,4) sock locate_dirs [OF dirs, of p q] unfolding w1_def
    by (cases "map_of (rs_socks w) q"; cases "node_at (files (rs_os w)) q"; cases "the (node_at (files (rs_os w)) q)")
      (auto simp: sys_exists_def sys_unlink_def remove_file_def delete_conv' rm dir_at_def)
qed

lemma unlink_dir:
  assumes "no_faults e" "socks_apart w" "locate (files (rs_os w)) p = Inr q" "dir_at (files (rs_os w)) q"
  shows "snd (sys_unlink e p w) = w"
proof -
  have "map_of (rs_socks w) q = None"
    using assms(2,4) by (auto simp: socks_apart_def dir_at_def map_of_eq_None_iff)
  then show ?thesis using assms by (simp add: sys_unlink_def remove_file_def dir_at_def)
qed

lemma start_over_stale:
  assumes "no_faults e" "no_sock_faults k" "socks_apart w" "lookup_user e user (rs_os w) = Inr (uid, gid)"
    and "locate (files (rs_os w)) p = Inr q" "\<not> dir_at (files (rs_os w)) q"
  shows "\<exists>w'. supervdsm_start e k user p w = (Inr uid, w') \<and>
    map_of (rs_socks w') = (map_of (rs_socks w))(q \<mapsto> \<lparr>sock_uid = 0, sock_gid = gid, sock_mode = SOCK_MODE\<rparr>) \<and>
    node_at (files (rs_os w')) = (node_at (files (rs_os w)))(q := None)"
proof -
  let ?w1 = "if sys_exists e p w then snd (sys_unlink e p w) else w"
  have w1: "locate (files (rs_os ?w1)) p = Inr q" "map_of (rs_socks ?w1) = (map_of (rs_socks w))(q := None)"
    "node_at (files (rs_os ?w1)) = (node_at (files (rs_os w)))(q := None)"
    using stale_removed [OF assms(1,3,5,6)] by blast+
  have "supervdsm_start e k user p w = (Inr uid,
    ?w1\<lparr>rs_socks := hm_insert q \<lparr>sock_uid = 0, sock_gid = gid, sock_mode = SOCK_MODE\<rparr> (rs_socks ?w1)\<rparr>)"
    unfolding supervdsm_start_def sock_bind_def using w1 assms(2,4)
    by (simp add: sock_chown_def sock_chmod_def sock_change_bound del: if_split)
  then show ?thesis using w1 by (simp add: update_conv' del: if_split)
qed

text \<open>
  C15: the root daemon starts again after an unclean end, and narrows its socket. When no system call
  fails for reasons of its own, it starts exactly when the account has a uid and a gid, the
  directory of the socket exists and no directory has its name: a stale socket or file there is
  replaced, and nothing else changes. Whatever fails, it never serves a socket that is not
  \<open>root:vdsm\<close> with mode \<open>0o660\<close>, and admits the uid of the account.
\<close>

theorem supervdsm_start_narrows:
  "(supervdsm_start e k user p w = (Inr uid, w') \<longrightarrow>
      (\<exists>gid q. lookup_user e user (rs_os w) = Inr (uid, gid) \<and> locate (files (rs_os w')) p = Inr q \<and>
         map_of (rs_socks w') q = Some \<lparr>sock_uid = 0, sock_gid = gid, sock_mode = SOCK_MODE\<rparr>)) \<and>
   (no_faults e \<and> no_sock_faults k \<and> socks_apart w \<longrightarrow>
      (case (lookup_user e user (rs_os w), locate (files (rs_os w)) p) of
         (Inr (uid, gid), Inr q) \<Rightarrow>
           if dir_at (files (rs_os w)) q then supervdsm_start e k user p w = (Inl EADDRINUSE, w)
           else \<exists>w'. supervdsm_start e k user p w = (Inr uid, w') \<and>
                  map_of (rs_socks w') = (map_of (rs_socks w))(q \<mapsto> \<lparr>sock_uid = 0, sock_gid = gid, sock_mode = SOCK_MODE\<rparr>) \<and>
                  node_at (files (rs_os w')) = (node_at (files (rs_os w)))(q := None)
       | (Inl m, _) \<Rightarrow> supervdsm_start e k user p w = (Inl m, w)
       | (_, Inl m) \<Rightarrow> supervdsm_start e k user p w = (Inl m, w)))"
  (is "_ \<and> (?ok \<longrightarrow> ?exact)")
proof (intro conjI impI)
  assume "supervdsm_start e k user p w = (Inr uid, w')"
  then show "\<exists>gid q. lookup_user e user (rs_os w) = Inr (uid, gid) \<and> locate (files (rs_os w')) p = Inr q \<and>
      map_of (rs_socks w') q = Some \<lparr>sock_uid = 0, sock_gid = gid, sock_mode = SOCK_MODE\<rparr>"
    by (rule supervdsm_start_Inr)
next
  assume ok: ?ok
  show ?exact
  proof (cases "\<exists>u g q. lookup_user e user (rs_os w) = Inr (u, g) \<and> locate (files (rs_os w)) p = Inr q")
    case False
    then show ?thesis
      by (auto simp: supervdsm_start_def sys_exists_def sock_bind_def ok split: sum.splits)
  next
    case True
    then obtain u g q where uq: "lookup_user e user (rs_os w) = Inr (u, g)" "locate (files (rs_os w)) p = Inr q" by blast
    show ?thesis
    proof (cases "dir_at (files (rs_os w)) q")
      case True
      then have "snd (sys_unlink e p w) = w" using ok uq(2) unlink_dir by blast
      with True show ?thesis by (simp add: uq supervdsm_start_def sock_bind_def ok dir_at_def)
    next
      case False
      then show ?thesis using start_over_stale [of e k w user u g p q] ok uq by simp
    qed
  qed
qed

text \<open>A machine whose last daemon left its socket behind, open to everyone.\<close>

definition sample_passwd :: string where
  "sample_passwd = ''root:x:0:0::/root:/bin/sh'' @ [NL] @ ''vdsm:x:36:36::/var/lib/vdsm:/sbin/nologin'' @ [NL]"

definition sample_sys :: "unit root_sys" where
  "sample_sys =
     \<lparr>rs_os = \<lparr>files = [([''etc''], NDir), ([''etc'', ''passwd''], NFile sample_passwd), ([''run''], NDir)], now_secs = 0, outside = ()\<rparr>,
      rs_socks = [([''run'', ''s''], \<lparr>sock_uid = 0, sock_gid = 0, sock_mode = 0x1FF\<rparr>)]\<rparr>"

definition sample_socks :: "unit sock_env" where
  "sample_socks = \<lparr>sock_fault = (\<lambda>op p w. None), umask = 0x12\<rparr>"

lemma sample_user: "lookup_user sample_env ''vdsm'' (rs_os sample_sys) = Inr (36, 36)"
proof -
  have loc: "locate (files (rs_os sample_sys)) ''/etc/passwd'' = Inr [''etc'', ''passwd'']" by code_simp
  have num: "parse_u32 ''36'' = Some 36" by (simp add: parse_u32_def parse_unsigned_def is_digit_def digit_val_def)
  have ls: "str_lines sample_passwd = [''root:x:0:0::/root:/bin/sh'', ''vdsm:x:36:36::/var/lib/vdsm:/sbin/nologin'']"
    by code_simp
  have flds: "split_on COLON ''root:x:0:0::/root:/bin/sh'' = [''root'', ''x'', ''0'', ''0'', [], ''/root'', ''/bin/sh'']"
    "split_on COLON ''vdsm:x:36:36::/var/lib/vdsm:/sbin/nologin'' =
       [''vdsm'', ''x'', ''36'', ''36'', [], ''/var/lib/vdsm'', ''/sbin/nologin'']" by code_simp+
  have valid: "utf8_valid sample_passwd" by (simp add: sample_passwd_def)
  have "find_user ''vdsm'' (str_lines sample_passwd) = Some (36, 36)"
    unfolding ls using num flds by (simp add: passwd_entry_def)
  then show ?thesis
    using loc valid by (simp add: lookup_user_def read_to_string_def fs_read_def sample_env_def sample_sys_def node_at_def)
qed

lemma sample_place:
  "locate (files (rs_os sample_sys)) ''/run/s'' = Inr [''run'', ''s'']" "socks_apart sample_sys"
  "\<not> dir_at (files (rs_os sample_sys)) [''run'', ''s'']"
  by code_simp+

lemma sample_calls: "no_faults sample_env" "no_sock_faults sample_socks"
  by (simp_all add: no_faults_def no_sock_faults_def sample_env_def sample_socks_def)

theorem supervdsm_start_narrows_witness:
  "\<exists>w'. supervdsm_start sample_env sample_socks ''vdsm'' ''/run/s'' sample_sys = (Inr 36, w') \<and>
     map_of (rs_socks w') [''run'', ''s''] = Some \<lparr>sock_uid = 0, sock_gid = 36, sock_mode = SOCK_MODE\<rparr>"
  using supervdsm_start_narrows [of sample_env sample_socks "''vdsm''" "''/run/s''" sample_sys 36 sample_sys]
    sample_calls sample_place sample_user by auto

section \<open>The accept loop\<close>

text \<open>What the root daemon may do to the machine: one vetted command line, or a rescan of the FC hosts.\<close>

inductive vetted_step :: "'x env \<Rightarrow> 'x os \<Rightarrow> 'x os \<Rightarrow> bool" for e where
  command: "vetted bin args \<Longrightarrow> vetted_step e s (snd (exec e bin args s))"
| rescan: "vetted_step e s (snd (fc_scan_exec e s))"

lemma run_cmd_state [simp]: "snd (run_cmd e bin args s) = snd (exec e bin args s)"
  by (simp add: run_cmd_def split: prod.splits sum.splits)

lemma execute_vetted: "snd (execute e op s) = s \<or> vetted_step e s (snd (execute e op s))"
proof (cases "op = FcScan")
  case True
  then show ?thesis by (auto intro: vetted_step.rescan)
next
  case False
  have "closed_op TYPE('a) op" for op' :: "'a itself" by (rule closed_ops [OF False])
  then consider "\<exists>m. execute e op s = (invalid m, s)" | bin args where "vetted bin args" "execute e op s = run_cmd e bin args s"
    unfolding closed_op_def by blast
  then show ?thesis by cases (auto intro: vetted_step.command)
qed

fun permitted :: "'x bus \<Rightarrow> accept_event \<Rightarrow> bool" where
  "permitted b (AcceptFailed m) \<longleftrightarrow> False"
| "permitted b (Accepted cred req) \<longleftrightarrow> cred = Inr (allowed_uid b)"

lemma handle_vetted: "snd (handle b cred req s) = s \<or> cred = Inr (allowed_uid b) \<and> vetted_step (root b) s (snd (handle b cred req s))"
  using execute_vetted [of "root b" _ s] by (auto simp: handle_def split: sum.splits prod.splits) (metis snd_conv)+

lemma on_accept_vetted: "snd (on_accept b ev s) = s \<or> permitted b ev \<and> vetted_step (root b) s (snd (on_accept b ev s))"
  using handle_vetted [of b _ _ s] by (cases ev) (auto split: sum.splits prod.splits, (metis snd_conv)+)

text \<open>At most one change per permitted connection.\<close>

lemma accept_loop_vetted:
  "\<exists>n \<le> length (filter (permitted b) evs). (vetted_step (root b) ^^ n) s (snd (accept_loop b evs s))"
proof (induction evs arbitrary: s)
  case (Cons ev evs)
  obtain r s1 where s1: "on_accept b ev s = (r, s1)" by fastforce
  from Cons obtain n where n: "n \<le> length (filter (permitted b) evs)" "(vetted_step (root b) ^^ n) s1 (snd (accept_loop b evs s1))"
    by blast
  have st: "snd (accept_loop b (ev # evs) s) = snd (accept_loop b evs s1)" by (simp add: s1 split: prod.splits)
  from on_accept_vetted [of b ev s] s1 consider "s1 = s" | "permitted b ev" "vetted_step (root b) s s1" by auto
  then show ?case
  proof cases
    case 1
    then show ?thesis using n st by (auto intro: exI [of _ n])
  next
    case 2
    then have "(vetted_step (root b) ^^ Suc n) s (snd (accept_loop b evs s1))" using n(2) by (metis relpowp_Suc_I2)
    then show ?thesis using n(1) 2(1) st by (intro exI [of _ "Suc n"]) simp
  qed
qed simp

text \<open>The others neither change the machine nor what the permitted are sent.\<close>

definition refusal :: "'x bus \<Rightarrow> string option" where
  "refusal b =
     (case ser_res b (failure ''unauthorized: peer uid not permitted'') of Inl m \<Rightarrow> None | Inr l \<Rightarrow> Some (l @ [NL]))"

lemma on_accept_refused: "\<not> permitted b ev \<Longrightarrow> \<exists>r. on_accept b ev s = (r, s) \<and> r \<in> {None, refusal b}"
  by (cases ev) (auto simp: handle_def refusal_def split: sum.splits)

lemma accept_loop_refused:
  "list_all2 (\<lambda>ev r. permitted b ev \<or> r \<in> {None, refusal b}) evs (fst (accept_loop b evs s))"
proof (induction evs arbitrary: s)
  case (Cons ev evs)
  obtain r s1 where s1: "on_accept b ev s = (r, s1)" by fastforce
  then show ?case using Cons [of s1] on_accept_refused [of b ev s] by (auto split: prod.splits)
qed simp

lemma accept_loop_permitted:
  "accept_loop b (filter (permitted b) evs) s =
     (map snd (filter (permitted b \<circ> fst) (zip evs (fst (accept_loop b evs s)))), snd (accept_loop b evs s))"
proof (induction evs arbitrary: s)
  case (Cons ev evs)
  obtain r s1 where s1: "on_accept b ev s = (r, s1)" by fastforce
  then show ?case using Cons [of s1] on_accept_refused [of b ev s] by (auto split: prod.splits)
qed simp

text \<open>
  C13: whoever connects to the root daemon, and whatever they send, the machine changes at most once
  per connection of the permitted account, each time by one vetted command line or by a rescan of
  the FC hosts; the socket stays as the start left it. All other connections are closed in
  silence or sent the one refusal, and neither the machine nor what the permitted account is sent
  depends on them. The permitted uid is that of the account in \<open>/etc/passwd\<close>.
\<close>

theorem supervdsm_serves_only_vetted:
  assumes "supervdsm_main b k user p evs w = (Inr rs, w')"
  shows "\<exists>uid gid w1 bus. lookup_user (root b) user (rs_os w) = Inr (uid, gid) \<and>
    supervdsm_start (root b) k user p w = (Inr uid, w1) \<and> bus = b\<lparr>allowed_uid := uid\<rparr> \<and> rs_socks w' = rs_socks w1 \<and>
    (\<exists>n \<le> length (filter (permitted bus) evs). (vetted_step (root b) ^^ n) (rs_os w1) (rs_os w')) \<and>
    list_all2 (\<lambda>ev r. permitted bus ev \<or> r \<in> {None, refusal b}) evs rs \<and>
    supervdsm_main b k user p (filter (permitted bus) evs) w =
      (Inr (map snd (filter (permitted bus \<circ> fst) (zip evs rs))), w')"
proof -
  from assms obtain uid w1 s where start: "supervdsm_start (root b) k user p w = (Inr uid, w1)"
    and main: "accept_loop (b\<lparr>allowed_uid := uid\<rparr>) evs (rs_os w1) = (rs, s)" "w' = w1\<lparr>rs_os := s\<rparr>"
    by (auto simp: supervdsm_main_def split: prod.splits sum.splits)
  from supervdsm_start_Inr [OF start] obtain gid where user: "lookup_user (root b) user (rs_os w) = Inr (uid, gid)" by blast
  let ?bus = "b\<lparr>allowed_uid := uid\<rparr>"
  have "rs_socks w' = rs_socks w1" by (simp add: main)
  moreover have "\<exists>n \<le> length (filter (permitted ?bus) evs). (vetted_step (root b) ^^ n) (rs_os w1) (rs_os w')"
    using accept_loop_vetted [of ?bus evs "rs_os w1"] by (simp add: main)
  moreover have "list_all2 (\<lambda>ev r. permitted ?bus ev \<or> r \<in> {None, refusal b}) evs rs"
    using accept_loop_refused [of ?bus evs "rs_os w1"] by (simp add: main refusal_def)
  moreover have "supervdsm_main b k user p (filter (permitted ?bus) evs) w =
      (Inr (map snd (filter (permitted ?bus \<circ> fst) (zip evs rs))), w')"
    using main(2) accept_loop_permitted [of ?bus evs "rs_os w1"] by (simp add: supervdsm_main_def start main(1))
  ultimately show ?thesis using start user by blast
qed

theorem supervdsm_serves_only_vetted_witness:
  "\<exists>w1 rs w' n. supervdsm_start sample_env sample_socks ''vdsm'' ''/run/s'' sample_sys = (Inr 36, w1) \<and>
     supervdsm_main sample_bus sample_socks ''vdsm'' ''/run/s''
       [Accepted (Inr 1000) ''rescan'', Accepted (Inr 36) ''rescan''] sample_sys = (Inr rs, w') \<and>
     n \<le> 1 \<and> (vetted_step sample_env ^^ n) (rs_os w1) (rs_os w')"
proof -
  let ?evs = "[Accepted (Inr 1000) ''rescan'', Accepted (Inr 36) ''rescan'']" and ?bus = "sample_bus\<lparr>allowed_uid := 36\<rparr>"
  have root: "root sample_bus = sample_env" by (simp add: sample_bus_def)
  from start_over_stale [OF sample_calls sample_place(2) sample_user sample_place(1,3)] obtain w1 where
    start: "supervdsm_start sample_env sample_socks ''vdsm'' ''/run/s'' sample_sys = (Inr 36, w1)" by blast
  obtain rs s where "accept_loop ?bus ?evs (rs_os w1) = (rs, s)" by fastforce
  with start have main: "supervdsm_main sample_bus sample_socks ''vdsm'' ''/run/s'' ?evs sample_sys = (Inr rs, w1\<lparr>rs_os := s\<rparr>)"
    by (simp add: supervdsm_main_def root)
  from supervdsm_serves_only_vetted [OF main] obtain uid w2 bus n where
    run: "supervdsm_start (root sample_bus) sample_socks ''vdsm'' ''/run/s'' sample_sys = (Inr uid, w2)"
      "bus = sample_bus\<lparr>allowed_uid := uid\<rparr>" "n \<le> length (filter (permitted bus) ?evs)"
      "(vetted_step (root sample_bus) ^^ n) (rs_os w2) (rs_os (w1\<lparr>rs_os := s\<rparr>))"
    by (elim exE conjE) blast
  then have "uid = 36" "w2 = w1" using start by (simp_all add: root)
  moreover from this have "n \<le> 1" using run(2,3) by simp
  ultimately show ?thesis using start main run(4) unfolding root by blast
qed

end
