(* ===== verification/Virt_Async.thy ===== *)
theory Virt_Async
  imports Vdsmd "HOL-Library.Multiset"
begin

text \<open>
  The verbs about machines of \<open>crates/vdsm-virt/src/verbs.rs\<close> and \<open>crates/vdsm-host/src/vm_stats.rs\<close> between
  their awaits. A verb is a program: a tree whose nodes are what it waits for or does to shared
  state, with what it goes on to do with the answer. The registry is behind a lock, taken for one
  access (\<open>registry().read().await\<close>, \<open>registry().write().await\<close> as a temporary), except in
  \<open>reconcile_from_libvirt\<close>, which keeps its write guard while it runs \<open>virsh\<close>. Run alone, a program is the
  handler of the theory \<open>Virt\<close>; the programs of any number of requests and of the spawned tasks are then
  interleaved node by node.
\<close>

section \<open>Programs\<close>

type_synonym vms = "(string, vm_record) hmap"

datatype prog =
    Ret "(jsonrpc_error, json) result"
  | Virsh "string list" "string option" "(string, string) result \<Rightarrow> prog"
  | Now "u64 \<Rightarrow> prog"
  | Read "vms \<Rightarrow> u64 \<Rightarrow> prog"
  | Write "vms \<Rightarrow> vms" prog
  | Lock prog
  | HeldRead "vms \<Rightarrow> prog"
  | HeldWrite "vms \<Rightarrow> vms" prog
  | Unlock prog
  | Spawn vm_task prog

text \<open>A program with nobody else about: the lock is always free.\<close>

primrec run_alone :: "'x proc \<Rightarrow> prog \<Rightarrow> 'x virt \<Rightarrow> (jsonrpc_error, json) result \<times> 'x virt" where
  "run_alone p (Ret r) = (\<lambda>st. (r, st))"
| "run_alone p (Virsh a i k) = (\<lambda>st. case run_virsh p a i st of (r, st1) \<Rightarrow> run_alone p (k r) st1)"
| "run_alone p (Now k) = (\<lambda>st. run_alone p (k (now_secs (host st))) st)"
| "run_alone p (Read k) = (\<lambda>st. run_alone p (k (registry st) (now_secs (host st))) st)"
| "run_alone p (Write f k) = (\<lambda>st. run_alone p k (st\<lparr>registry := f (registry st)\<rparr>))"
| "run_alone p (Lock k) = run_alone p k"
| "run_alone p (HeldRead k) = (\<lambda>st. run_alone p (k (registry st)) st)"
| "run_alone p (HeldWrite f k) = (\<lambda>st. run_alone p k (st\<lparr>registry := f (registry st)\<rparr>))"
| "run_alone p (Unlock k) = run_alone p k"
| "run_alone p (Spawn t k) = (\<lambda>st. run_alone p k (spawn t st))"

section \<open>The verbs\<close>

definition prog_on_vm :: "json \<Rightarrow> (string \<Rightarrow> prog) \<Rightarrow> prog" where
  "prog_on_vm params f = (case vm_id_from params of Inl e \<Rightarrow> Ret (Inl e) | Inr v \<Rightarrow> f v)"

definition read_name :: "string \<Rightarrow> (string \<Rightarrow> prog) \<Rightarrow> prog" where
  "read_name v f = Read (\<lambda>m now. f (unwrap_or v (map_option vm_name (hm_get m v))))"

definition mark :: "string \<Rightarrow> vm_state \<Rightarrow> vms \<Rightarrow> vms" where
  "mark v x m = (case hm_get m v of Some r \<Rightarrow> hm_insert v (r\<lparr>state := x\<rparr>) m | None \<Rightarrow> m)"

definition entry :: "string \<Rightarrow> domain_spec \<Rightarrow> vm_state \<Rightarrow> u64 \<Rightarrow> vm_record" where
  "entry v d x now =
     \<lparr>vm_id = v, vm_name = ds_name d, mem_size_mb = ds_mem_mb d, vcpus = ds_vcpus d, state = x, created_secs = now\<rparr>"

definition ret_ok :: prog where
  "ret_ok = Ret (Inr (json_obj []))"

definition create_prog :: "json \<Rightarrow> prog" where
  "create_prog params =
     prog_on_vm params (\<lambda>v.
       let spec = from_vm_params v params
       in Virsh [''define'', ''/dev/stdin''] (Some (to_xml spec)) (\<lambda>r. case r of
            Inl e \<Rightarrow> Ret (Inl (internal (''virsh define: '' @ e)))
          | Inr _ \<Rightarrow> Virsh [''start'', ds_name spec] None (\<lambda>r. case r of
              Inl e \<Rightarrow> Ret (Inl (internal (''virsh start: '' @ e)))
            | Inr _ \<Rightarrow> Now (\<lambda>now. Write (hm_insert v (entry v spec Up now))
                (Ret (Inr (json_obj [(''vmList'',
                   json_obj [(''vmId'', JStr v), (''status'', JStr (as_engine_str Up))])])))))))"

definition destroy_prog :: "json \<Rightarrow> prog" where
  "destroy_prog params =
     prog_on_vm params (\<lambda>v. read_name v (\<lambda>n.
       Virsh [''destroy'', n] None (\<lambda>_. Virsh [''undefine'', n] None (\<lambda>_. Write (hm_remove v) ret_ok))))"

definition shutdown_prog :: "json \<Rightarrow> prog" where
  "shutdown_prog params =
     prog_on_vm params (\<lambda>v. read_name v (\<lambda>n.
       Virsh [''shutdown'', n] None (\<lambda>_. Write (mark v PoweringDown) (Spawn (Watchdog n v) ret_ok))))"

definition cont_prog :: "json \<Rightarrow> prog" where
  "cont_prog params =
     prog_on_vm params (\<lambda>v. read_name v (\<lambda>n. Virsh [''resume'', n] None (\<lambda>_. Write (mark v Up) ret_ok)))"

definition pause_prog :: "json \<Rightarrow> prog" where
  "pause_prog params =
     prog_on_vm params (\<lambda>v. read_name v (\<lambda>n. Virsh [''suspend'', n] None (\<lambda>_. Write (mark v Paused) ret_ok)))"

definition migrate_prog :: "json \<Rightarrow> prog" where
  "migrate_prog params =
     prog_on_vm params (\<lambda>v.
       let d = (case get_either params ''dst'' ''hostname'' of Some x \<Rightarrow> Some x | None \<Rightarrow> json_get params ''dstHost'')
       in case Option.bind d as_str of
            None \<Rightarrow> Ret (Inl (invalid_params ''dst (destination host) required''))
          | Some dst \<Rightarrow> read_name v (\<lambda>n. Spawn (Migrate n dst)
              (Ret (Inr (json_obj
                 [(''status'', json_obj [(''code'', jint 0), (''message'', JStr ''Migration started'')]),
                  (''progress'', jint 0)])))))"

definition migration_create_prog :: "json \<Rightarrow> prog" where
  "migration_create_prog params =
     prog_on_vm params (\<lambda>v. Now (\<lambda>now. Write (hm_insert v (entry v (from_vm_params v params) WaitForLaunch now))
       (Ret (Inr (json_obj [(''migrationPort'', jint 49152), (''params'', json_obj [])])))))"

definition migration_cancel_prog :: "json \<Rightarrow> prog" where
  "migration_cancel_prog params =
     prog_on_vm params (\<lambda>v. read_name v (\<lambda>n. Virsh [''domjobabort'', n] None (\<lambda>_. ret_ok)))"

definition migrate_status_prog :: "json \<Rightarrow> prog" where
  "migrate_status_prog params =
     prog_on_vm params (\<lambda>v. read_name v (\<lambda>n. Virsh [''domjobinfo'', n] None (\<lambda>r.
       case foldl job_line (0, 0, 0) (str_lines (case r of Inr t \<Rightarrow> t | Inl _ \<Rightarrow> [])) of
         (t, d, q) \<Rightarrow>
           Ret (Inr (json_obj
             [(''status'', json_obj [(''code'', jint 0), (''message'', JStr ''Done'')]),
              (''progress'', jint (job_progress t d)),
              (''downtime'', jint 0),
              (''dataTotal'', JStr (u64_str t)),
              (''dataProcessed'', JStr (u64_str d)),
              (''dataRemaining'', JStr (u64_str q))])))))"

definition set_ticket_prog :: "json \<Rightarrow> prog" where
  "set_ticket_prog params =
     prog_on_vm params (\<lambda>v.
       let password = str_param params ''password'' [];
           ttl = unwrap_or 120 (Option.bind (Option.bind (json_get params ''ttl'') as_str) parse_u64)
       in read_name v (\<lambda>n.
            Virsh [''qemu-monitor-command'', n, ''--hmp'', ''set_password vnc '' @ password] None (\<lambda>_.
            Virsh [''qemu-monitor-command'', n, ''--hmp'', ''expire_password vnc +'' @ u64_str ttl] None (\<lambda>_. ret_ok))))"

fun dump_prog :: "string list \<Rightarrow> (string \<times> json) list \<Rightarrow> prog" where
  "dump_prog [] out = Ret (Inr (JObj out))"
| "dump_prog (i # is) out =
     Virsh [''dumpxml'', i] None (\<lambda>r. case r of
       Inr xml \<Rightarrow> dump_prog is (bm_insert i (JStr xml) out)
     | Inl e \<Rightarrow> dump_prog is out)"

definition get_stats_prog :: "json \<Rightarrow> prog" where
  "get_stats_prog params =
     prog_on_vm params (\<lambda>v. Read (\<lambda>m now.
       let stats = (case hm_get m v of
                      Some r \<Rightarrow> record_to_stats r now
                    | None \<Rightarrow> json_obj [(''vmId'', JStr v), (''status'', JStr ''Down'')])
       in Ret (Inr (json_obj [(''statsList'', JArr [stats])]))))"

text \<open>\<open>reconcile_from_libvirt\<close>, and what its caller goes on to do: the guard is kept over the whole loop.\<close>

fun adopt_prog :: "string list \<Rightarrow> prog \<Rightarrow> prog" where
  "adopt_prog [] k = Unlock k"
| "adopt_prog (n # ns) k =
     Virsh [''domuuid'', n] None (\<lambda>r. case r of
       Inl e \<Rightarrow> adopt_prog ns k
     | Inr uuid_out \<Rightarrow>
         (let uuid = trim uuid_out
          in if uuid = [] then adopt_prog ns k
             else HeldRead (\<lambda>m.
               if hm_get m uuid \<noteq> None then adopt_prog ns k
               else Virsh [''dominfo'', n] None (\<lambda>r.
                 let info = (case r of Inr t \<Rightarrow> t | Inl _ \<Rightarrow> [])
                 in Now (\<lambda>now. HeldWrite (hm_insert uuid
                      (entry uuid \<lparr>ds_uuid = uuid, ds_name = n, ds_mem_mb = dominfo_mem info, ds_vcpus = dominfo_vcpus info\<rparr> Up now))
                      (adopt_prog ns k))))))"

definition reconcile_prog :: "prog \<Rightarrow> prog" where
  "reconcile_prog k =
     Virsh [''list'', ''--name'', ''--state-running''] None (\<lambda>r. case r of
       Inl e \<Rightarrow> k
     | Inr out \<Rightarrow>
         (let names = running_names out
          in Lock (HeldWrite (filter (\<lambda>(k, r). vm_name r \<in> set names)) (adopt_prog names k))))"

definition all_stats_prog :: "'x outer \<Rightarrow> json \<Rightarrow> prog" where
  "all_stats_prog w params =
     reconcile_prog (Read (\<lambda>m now. Ret (Inr (JArr (map (\<lambda>r. record_to_stats r now) (oorder w m))))))"

definition verb_progs :: "'x outer \<Rightarrow> (string \<times> (json \<Rightarrow> prog)) list" where
  "verb_progs w =
     [(''Host.getAllVmStats'', all_stats_prog w),
      (''VM.create'', create_prog),
      (''VM.destroy'', destroy_prog),
      (''VM.shutdown'', shutdown_prog),
      (''VM.cont'', cont_prog),
      (''VM.pause'', pause_prog),
      (''VM.getStats'', get_stats_prog),
      (''VM.setTicket'', set_ticket_prog),
      (''VM.migrate'', migrate_prog),
      (''VM.migrationCreate'', migration_create_prog),
      (''VM.migrationCancel'', migration_cancel_prog),
      (''VM.migrateCancel'', migration_cancel_prog),
      (''VM.migrateStatus'', migrate_status_prog),
      (''Host.dumpxmls'', \<lambda>params. dump_prog (strs_of (get_either params ''vmList'' ''vmIds'')) [])]"

text \<open>The spawned tasks, from where they are.\<close>

fun task_prog :: "vm_task \<Rightarrow> prog" where
  "task_prog (Migrate n dst) =
     Virsh [''migrate'', ''--live'', ''--persistent'', ''--undefinesource'', ''--verbose'', ''--auto-converge'', n,
            ''qemu+tls://'' @ dst @ ''/system''] None (\<lambda>_. ret_ok)"
| "task_prog (Watchdog n v) =
     Virsh [''domstate'', n] None (\<lambda>r. case r of
       Inr t \<Rightarrow> if to_ascii_lowercase (trim t) = ''running'' then
                   Virsh [''destroy'', n] None (\<lambda>_. Write (mark v Down) ret_ok)
                 else ret_ok
     | Inl _ \<Rightarrow> ret_ok)"
| "task_prog (ForceDestroy n v) = Virsh [''destroy'', n] None (\<lambda>_. Write (mark v Down) ret_ok)"
| "task_prog (MarkDown v) = Write (mark v Down) ret_ok"

section \<open>Alone, a program is the handler\<close>

lemma name_of_read: "unwrap_or v (map_option vm_name (hm_get (registry st) v)) = name_of v st"
  by (simp add: name_of_def)

lemma set_state_mark: "Virt.set_state v x st = st\<lparr>registry := mark v x (registry st)\<rparr>"
  by (simp add: Virt.set_state_def mark_def split: option.splits)

lemma put_record_entry: "put_record v d x st = st\<lparr>registry := hm_insert v (entry v d x (now_secs (host st))) (registry st)\<rparr>"
  by (simp add: put_record_def entry_def)

lemma run_on_vm: "run_alone p (prog_on_vm params f) st = on_vm (\<lambda>v st. run_alone p (f v) st) params st"
  by (simp add: prog_on_vm_def on_vm_def split: sum.splits)

lemma run_read_name: "run_alone p (read_name v f) st = run_alone p (f (name_of v st)) st"
  by (simp add: read_name_def name_of_read)

lemmas alone_simps = run_on_vm run_read_name ret_ok_def set_state_mark put_record_entry case_prod_beta Let_def

lemma run_dump: "run_alone p (dump_prog is out) st = (case dump_each p is out st of (out, st1) \<Rightarrow> (Inr (JObj out), st1))"
  by (induction "is" arbitrary: out st) (auto split: prod.splits sum.splits)

lemma run_adopt: "run_alone p (adopt_prog ns k) st = run_alone p k (adopt_each p ns st)"
proof (induction ns arbitrary: st)
  case (Cons n ns)
  then show ?case
    by (auto simp: adopt_one_def put_record_entry Let_def split: prod.splits sum.splits)
qed simp

lemma run_reconcile: "run_alone p (reconcile_prog k) st = run_alone p k (reconcile_from_libvirt p st)"
  by (auto simp: reconcile_prog_def reconcile_from_libvirt_def run_adopt Let_def split: prod.splits sum.splits)

lemma run_create: "run_alone p (create_prog params) = vm_create p params"
  by (rule ext) (simp add: create_prog_def vm_create_def alone_simps on_vm_def split: sum.splits)

lemma run_verbs:
  "run_alone p (destroy_prog params) = vm_destroy p params"
  "run_alone p (shutdown_prog params) = vm_shutdown p params"
  "run_alone p (cont_prog params) = vm_cont p params"
  "run_alone p (pause_prog params) = vm_pause p params"
  "run_alone p (get_stats_prog params) = vm_get_stats params"
  "run_alone p (set_ticket_prog params) = vm_set_ticket p params"
  "run_alone p (migrate_prog params) = vm_migrate p params"
  "run_alone p (migration_create_prog params) = vm_migration_create params"
  "run_alone p (migration_cancel_prog params) = vm_migration_cancel p params"
  "run_alone p (migrate_status_prog params) = vm_migrate_status p params"
  "run_alone p (dump_prog (strs_of (get_either params ''vmList'' ''vmIds'')) []) = dump_xmls p params"
  by (rule ext, simp add: destroy_prog_def shutdown_prog_def cont_prog_def pause_prog_def get_stats_prog_def set_ticket_prog_def
      migrate_prog_def migration_create_prog_def migration_cancel_prog_def migrate_status_prog_def
      vm_destroy_def vm_shutdown_def vm_cont_def vm_pause_def vm_get_stats_def vm_set_ticket_def vm_migrate_def
      vm_migration_create_def vm_migration_cancel_def vm_migrate_status_def dump_xmls_def run_dump alone_simps on_vm_def
      split: sum.splits option.splits)+

lemma run_all_stats: "run_alone (ovirsh w) (all_stats_prog w params) = get_all_vm_stats w params"
  by (rule ext) (simp add: all_stats_prog_def get_all_vm_stats_def run_reconcile Let_def)

lemma run_task:
  "run_alone p (task_prog t) st =
     (case task_step p t st of ([], st1) \<Rightarrow> (Inr (json_obj []), st1) | (u # _, st1) \<Rightarrow> run_alone p (task_prog u) st1)"
  by (cases t) (auto simp: task_step_def ret_ok_def set_state_mark case_prod_beta split: sum.splits)

section \<open>Interleaving\<close>

text \<open>
  One node of the program of thread \<open>i\<close>, where \<open>g\<close> is the thread that keeps the write guard. The
  result is \<open>None\<close> when the program has ended or waits for the lock.
\<close>

fun prog_step :: "'x proc \<Rightarrow> nat \<Rightarrow> prog \<Rightarrow> nat option \<Rightarrow> 'x virt \<Rightarrow> (prog \<times> nat option \<times> 'x virt) option" where
  "prog_step p i (Ret r) g st = None"
| "prog_step p i (Virsh a inp k) g st = (case run_virsh p a inp st of (r, st1) \<Rightarrow> Some (k r, g, st1))"
| "prog_step p i (Now k) g st = Some (k (now_secs (host st)), g, st)"
| "prog_step p i (Read k) g st = (if g = None then Some (k (registry st) (now_secs (host st)), g, st) else None)"
| "prog_step p i (Write f k) g st = (if g = None then Some (k, g, st\<lparr>registry := f (registry st)\<rparr>) else None)"
| "prog_step p i (Lock k) g st = (if g = None then Some (k, Some i, st) else None)"
| "prog_step p i (HeldRead k) g st = (if g = Some i then Some (k (registry st), g, st) else None)"
| "prog_step p i (HeldWrite f k) g st = (if g = Some i then Some (k, g, st\<lparr>registry := f (registry st)\<rparr>) else None)"
| "prog_step p i (Unlock k) g st = (if g = Some i then Some (k, None, st) else None)"
| "prog_step p i (Spawn t k) g st = Some (k, g, spawn t st)"

record 'x async =
  shared :: "'x virt"
  guard :: "nat option"
  threads :: "prog list"

text \<open>What is under way goes on: a thread takes a step, or the runtime picks up a spawned task.\<close>

inductive go_on :: "'x proc \<Rightarrow> 'x async \<Rightarrow> 'x async \<Rightarrow> bool" for p where
  thread: "i < length (threads S) \<Longrightarrow> prog_step p i (threads S ! i) (guard S) (shared S) = Some (P, g, st) \<Longrightarrow>
    go_on p S \<lparr>shared = st, guard = g, threads = (threads S)[i := P]\<rparr>"
| task: "tasks (shared S) = a @ t # b \<Longrightarrow>
    go_on p S (S\<lparr>shared := (shared S)\<lparr>tasks := a @ b\<rparr>, threads := threads S @ [task_prog t]\<rparr>)"

text \<open>The daemon: what is under way, a new request, or a change of the machine.\<close>

inductive async_step :: "'x outer \<Rightarrow> 'x async \<Rightarrow> 'x async \<Rightarrow> bool" for w where
  go: "go_on (ovirsh w) S S' \<Longrightarrow> async_step w S S'"
| request: "(m, P) \<in> set (verb_progs w) \<Longrightarrow> async_step w S (S\<lparr>threads := threads S @ [P params]\<rparr>)"
| world: "async_step w S (S\<lparr>shared := (shared S)\<lparr>host := s\<rparr>\<rparr>)"

definition async_start :: "'x os \<Rightarrow> 'x async" where
  "async_start s = \<lparr>shared = virt_start s, guard = None, threads = []\<rparr>"

section \<open>The lock is used in a disciplined way\<close>

text \<open>
  What every program keeps to: it touches the registry only under a guard, never waits for the
  lock while it holds the guard, gives the guard back, and every write keeps the registry sound.
\<close>

primrec disciplined :: "prog \<Rightarrow> bool \<Rightarrow> bool" where
  "disciplined (Ret r) = (\<lambda>held. \<not> held)"
| "disciplined (Virsh a i k) = (\<lambda>held. \<forall>r. disciplined (k r) held)"
| "disciplined (Now k) = (\<lambda>held. \<forall>t. disciplined (k t) held)"
| "disciplined (Read k) = (\<lambda>held. \<not> held \<and> (\<forall>m t. disciplined (k m t) False))"
| "disciplined (Write f k) = (\<lambda>held. \<not> held \<and> (\<forall>m. registry_ok m \<longrightarrow> registry_ok (f m)) \<and> disciplined k False)"
| "disciplined (Lock k) = (\<lambda>held. \<not> held \<and> disciplined k True)"
| "disciplined (HeldRead k) = (\<lambda>held. held \<and> (\<forall>m. disciplined (k m) True))"
| "disciplined (HeldWrite f k) = (\<lambda>held. held \<and> (\<forall>m. registry_ok m \<longrightarrow> registry_ok (f m)) \<and> disciplined k True)"
| "disciplined (Unlock k) = (\<lambda>held. held \<and> disciplined k False)"
| "disciplined (Spawn t k) = (\<lambda>held. disciplined k held)"

lemma mark_ok: "registry_ok m \<Longrightarrow> registry_ok (mark v x m)"
  using registry_ok_state [of "\<lparr>registry = m, host = undefined, tasks = []\<rparr>" v x] by (simp add: set_state_mark)

lemma entry_id [simp]: "vm_id (entry v d x t) = v" "vm_name (entry v d x t) = ds_name d" "state (entry v d x t) = x"
  by (simp_all add: entry_def)

lemma disciplined_ret_ok [simp]: "disciplined ret_ok held \<longleftrightarrow> \<not> held"
  by (simp add: ret_ok_def)

lemma disciplined_vm: "(\<And>v. disciplined (f v) False) \<Longrightarrow> disciplined (prog_on_vm params f) False"
  by (simp add: prog_on_vm_def split: sum.splits)

lemma disciplined_name: "(\<And>n. disciplined (f n) False) \<Longrightarrow> disciplined (read_name v f) False"
  by (simp add: read_name_def)

lemma disciplined_dump [simp]: "disciplined (dump_prog is out) False"
  by (induction "is" arbitrary: out) (simp_all split: sum.splits)

lemma disciplined_adopt [simp]: "disciplined k False \<Longrightarrow> disciplined (adopt_prog ns k) True"
  by (induction ns) (simp_all add: Let_def registry_ok_insert split: sum.splits)

lemma verb_progs_disciplined:
  assumes "(m, P) \<in> set (verb_progs w)"
  shows "disciplined (P params) False"
  using assms
  by (auto simp: verb_progs_def create_prog_def destroy_prog_def shutdown_prog_def cont_prog_def pause_prog_def get_stats_prog_def
      set_ticket_prog_def migrate_prog_def migration_create_prog_def migration_cancel_prog_def migrate_status_prog_def
      all_stats_prog_def reconcile_prog_def Let_def mark_ok registry_ok_rules split: sum.splits option.splits prod.splits
      intro!: disciplined_vm disciplined_name)

lemma task_prog_disciplined: "disciplined (task_prog t) False"
  by (cases t) (simp_all add: mark_ok split: sum.splits)

section \<open>The invariant\<close>

definition async_ok :: "'x async \<Rightarrow> bool" where
  "async_ok S \<longleftrightarrow>
     registry_ok (registry (shared S)) \<and>
     (\<forall>i < length (threads S). disciplined (threads S ! i) (guard S = Some i)) \<and>
     (\<forall>i. guard S = Some i \<longrightarrow> i < length (threads S))"

lemma prog_step_ok:
  assumes "prog_step p i P g st = Some (P', g', st')" "disciplined P (g = Some i)" "registry_ok (registry st)"
  shows "registry_ok (registry st')" "disciplined P' (g' = Some i)" "g' = g \<or> {g, g'} = {None, Some i}"
  using assms by (cases P; auto simp: spawn_def split: prod.splits if_splits dest!: run_virsh_keeps(1))+

lemma new_thread_ok:
  assumes "async_ok S" "disciplined P False" "registry st = registry (shared S)"
  shows "async_ok (S\<lparr>shared := st, threads := threads S @ [P]\<rparr>)"
proof -
  have "guard S \<noteq> Some (length (threads S))" using assms(1) by (auto simp: async_ok_def)
  with assms show ?thesis by (auto simp: async_ok_def nth_append less_Suc_eq)
qed

lemma go_on_ok: "go_on p S S' \<Longrightarrow> async_ok S \<Longrightarrow> async_ok S'"
proof (induction rule: go_on.induct)
  case (thread i S P g st)
  then have i: "disciplined (threads S ! i) (guard S = Some i)" "registry_ok (registry (shared S))" by (simp_all add: async_ok_def)
  note step = prog_step_ok [OF thread(2) i]
  have "disciplined (threads S ! j) (g = Some j)" if "j < length (threads S)" "j \<noteq> i" for j
  proof -
    have "(g = Some j) = (guard S = Some j)" using step(3) that(2) by (auto simp: doubleton_eq_iff)
    then show ?thesis using thread(3) that(1) by (simp add: async_ok_def)
  qed
  moreover have "j < length (threads S)" if "g = Some j" for j
    using step(3) that thread(1,3) by (auto simp: async_ok_def doubleton_eq_iff)
  ultimately show ?case using step(1,2) thread(1) by (auto simp: async_ok_def nth_list_update)
next
  case (task S a t b)
  then show ?case by (intro new_thread_ok) (simp_all add: task_prog_disciplined)
qed

lemma async_step_ok: "async_step w S S' \<Longrightarrow> async_ok S \<Longrightarrow> async_ok S'"
proof (induction rule: async_step.induct)
  case (request m P S params)
  then show ?case using new_thread_ok [of S "P params" "shared S"] verb_progs_disciplined by fastforce
next
  case (go S S')
  then show ?case by (simp add: go_on_ok)
qed (simp add: async_ok_def)

lemma async_reachable_ok: "(async_step w)\<^sup>*\<^sup>* (async_start s) S \<Longrightarrow> async_ok S"
proof (induction rule: rtranclp_induct)
  case base
  show ?case by (simp add: async_ok_def async_start_def virt_start_def registry_ok_def hm_ok_def)
qed (rule async_step_ok)

section \<open>Progress\<close>

fun ended :: "prog \<Rightarrow> bool" where
  "ended (Ret r) \<longleftrightarrow> True"
| "ended _ \<longleftrightarrow> False"

lemma holder_steps: "disciplined P True \<Longrightarrow> prog_step p i P (Some i) st \<noteq> None"
  by (cases P) (simp_all split: prod.splits)

lemma free_steps: "disciplined P False \<Longrightarrow> \<not> ended P \<Longrightarrow> prog_step p i P None st \<noteq> None"
  by (cases P) (simp_all split: prod.splits)

definition all_answered :: "'x async \<Rightarrow> bool" where
  "all_answered S \<longleftrightarrow> guard S = None \<and> tasks (shared S) = [] \<and> list_all ended (threads S)"

lemma thread_goes_on:
  assumes "i < length (threads S)" "prog_step p i (threads S ! i) (guard S) (shared S) \<noteq> None"
  shows "\<exists>S'. go_on p S S'"
proof -
  obtain P g st where "prog_step p i (threads S ! i) (guard S) (shared S) = Some (P, g, st)" using assms(2) by auto
  from go_on.thread [OF assms(1) this] show ?thesis ..
qed

lemma never_stuck:
  assumes "async_ok S" "\<not> all_answered S"
  shows "\<exists>S'. go_on p S S'"
proof (cases "guard S")
  case (Some i)
  then have "i < length (threads S)" "disciplined (threads S ! i) True" using assms(1) by (auto simp: async_ok_def)
  with Some show ?thesis using holder_steps by (intro thread_goes_on) auto
next
  case None
  show ?thesis
  proof (cases "tasks (shared S)")
    case (Cons t ts)
    then show ?thesis using go_on.task [of S "[]" t ts] by auto
  next
    case Nil
    with None assms(2) obtain i where "i < length (threads S)" "\<not> ended (threads S ! i)"
      by (auto simp: all_answered_def list_all_length)
    moreover from this have "prog_step p i (threads S ! i) (guard S) (shared S) \<noteq> None"
      unfolding None using assms(1) None by (intro free_steps) (simp_all add: async_ok_def)
    ultimately show ?thesis by (intro thread_goes_on)
  qed
qed

section \<open>Termination\<close>

text \<open>What is left of a program after a node, and what it spawns; a task that waits to be picked up counts as one node more.\<close>

definition waiting :: "vm_task \<Rightarrow> prog" where
  "waiting t = Now (\<lambda>_. task_prog t)"

inductive after :: "prog \<Rightarrow> prog \<Rightarrow> bool" where
  "after (k r) (Virsh a i k)"
| "after (k t) (Now k)"
| "after (k m t) (Read k)"
| "after k (Write f k)"
| "after k (Lock k)"
| "after (k m) (HeldRead k)"
| "after k (HeldWrite f k)"
| "after k (Unlock k)"
| "after k (Spawn t k)"
| "after (waiting t) (Spawn t k)"

inductive_simps after_simps [simp]:
  "after Q (Ret r)" "after Q (Virsh a i k)" "after Q (Now k)" "after Q (Read k)" "after Q (Write f k)" "after Q (Lock k)"
  "after Q (HeldRead k)" "after Q (HeldWrite f k)" "after Q (Unlock k)" "after Q (Spawn t k)"

lemma accp_nodes:
  "Wellfounded.accp after (Ret r)"
  "(\<And>r. Wellfounded.accp after (k r)) \<Longrightarrow> Wellfounded.accp after (Virsh a i k)"
  "(\<And>t. Wellfounded.accp after (k' t)) \<Longrightarrow> Wellfounded.accp after (Now k')"
  "Wellfounded.accp after q \<Longrightarrow> Wellfounded.accp after (Write f q)"
  by (rule accpI, auto)+

lemma accp_task: "Wellfounded.accp after (task_prog t)"
  by (cases t) (simp_all add: accp_nodes ret_ok_def split: sum.splits)

lemma wf_after: "wfp after"
proof -
  have "Wellfounded.accp after P" for P
  proof (induction P)
    case (Spawn t k)
    have "Wellfounded.accp after (waiting t)" unfolding waiting_def by (intro accp_nodes accp_task)
    with Spawn show ?case by - (rule accpI, auto)
  qed (rule accpI, auto)+
  then show ?thesis by (simp add: wfp_iff_accp)
qed

definition pending :: "'x async \<Rightarrow> prog multiset" where
  "pending S = mset (threads S) + image_mset waiting (mset (tasks (shared S)))"

lemma pending_thread:
  assumes "i < length (threads S)" "prog_step p i (threads S ! i) (guard S) (shared S) = Some (P, g, st)"
  shows "multp after (pending \<lparr>shared = st, guard = g, threads = (threads S)[i := P]\<rparr>) (pending S)"
proof -
  obtain R where R: "mset (threads S) = add_mset (threads S ! i) R" "mset ((threads S)[i := P]) = add_mset P R"
    using assms(1) by (metis mset_update insert_DiffM nth_mem set_mset_mset)
  have "\<exists>ts. tasks st = tasks (shared S) @ ts \<and> (\<forall>t \<in> set ts. after (waiting t) (threads S ! i)) \<and> after P (threads S ! i)"
    using assms(2) by (cases "threads S ! i") (auto simp: spawn_def split: prod.splits if_splits dest!: run_virsh_keeps(2))
  then obtain ts where ts: "tasks st = tasks (shared S) @ ts" "\<forall>t \<in> set ts. after (waiting t) (threads S ! i)"
    "after P (threads S ! i)" by blast
  let ?I = "R + image_mset waiting (mset (tasks (shared S)))"
  have "multp after (?I + add_mset P (image_mset waiting (mset ts))) (?I + {#threads S ! i#})"
    using ts(2,3) by (intro one_step_implies_multp) auto
  then show ?thesis by (simp add: pending_def R ts(1) ac_simps)
qed

lemma pending_task:
  assumes "tasks (shared S) = a @ t # b"
  shows "multp after (pending (S\<lparr>shared := (shared S)\<lparr>tasks := a @ b\<rparr>, threads := threads S @ [task_prog t]\<rparr>)) (pending S)"
proof -
  let ?I = "mset (threads S) + image_mset waiting (mset (a @ b))"
  have "multp after (?I + {#task_prog t#}) (?I + {#waiting t#})"
    by (intro one_step_implies_multp) (auto simp: waiting_def)
  then show ?thesis by (simp add: pending_def assms ac_simps)
qed

lemma go_on_pending: "go_on p S S' \<Longrightarrow> multp after (pending S') (pending S)"
  by (induction rule: go_on.induct) (simp_all add: pending_thread pending_task)

text \<open>The machine may change at will before a step: no run without new requests is infinite.\<close>

definition busy_step :: "'x proc \<Rightarrow> 'x async \<Rightarrow> 'x async \<Rightarrow> bool" where
  "busy_step p S S' \<longleftrightarrow> (\<exists>s. go_on p (S\<lparr>shared := (shared S)\<lparr>host := s\<rparr>\<rparr>) S')"

lemma busy_step_wf: "wfp (\<lambda>S' S. busy_step p S S')"
proof (rule wfp_if_convertible_to_wfp [OF wfp_multp [OF wf_after], where f = pending])
  fix S' S assume "busy_step p S S'"
  then obtain s where "go_on p (S\<lparr>shared := (shared S)\<lparr>host := s\<rparr>\<rparr>) S'" by (auto simp: busy_step_def)
  from go_on_pending [OF this] show "multp after (pending S') (pending S)" by (simp add: pending_def)
qed

lemma async_unchanged: "S\<lparr>shared := (shared S)\<lparr>host := host (shared S)\<rparr>\<rparr> = (S :: 'x async)"
  by simp

lemma busy_step_ok: "busy_step p S S' \<Longrightarrow> async_ok S \<Longrightarrow> async_ok S'"
  unfolding busy_step_def by (elim exE, erule go_on_ok) (simp add: async_ok_def)

lemma busy_ends:
  assumes "async_ok S"
  shows "\<exists>S'. (busy_step p)\<^sup>*\<^sup>* S S' \<and> all_answered S'"
  using assms
proof (induction S rule: wfp_induct_rule [OF busy_step_wf [of p]])
  case less: (1 S)
  show ?case
  proof (cases "all_answered S")
    case False
    then obtain S1 where S1: "busy_step p S S1"
      using never_stuck [OF less(2)] by (metis async_unchanged busy_step_def)
    then obtain S' where "(busy_step p)\<^sup>*\<^sup>* S1 S'" "all_answered S'" using less busy_step_ok by blast
    with S1 show ?thesis by (meson converse_rtranclp_into_rtranclp)
  qed blast
qed

section \<open>A thread that is let through\<close>

lemma step_alone:
  assumes "prog_step p i P g st = Some (P', g', st1)"
  shows "run_alone p P' st1 = run_alone p P st" "after P' P"
  using assms by (cases P; auto split: prod.splits if_splits)+

lemma alone_reached:
  assumes "i < length (threads S)" "threads S ! i = P" "disciplined P (guard S = Some i)" "guard S \<in> {None, Some i}"
    and "registry_ok (registry (shared S))" "run_alone p P (shared S) = (r, st)"
  shows "(go_on p)\<^sup>*\<^sup>* S \<lparr>shared = st, guard = None, threads = (threads S)[i := Ret r]\<rparr>"
  using assms
proof (induction P arbitrary: S rule: wfp_induct_rule [OF wf_after])
  case less: (1 P S)
  show ?case
  proof (cases "ended P")
    case True
    then obtain x where "P = Ret x" by (cases P) auto
    with less.prems have "S = \<lparr>shared = st, guard = None, threads = (threads S)[i := Ret r]\<rparr>"
      using list_update_id [of "threads S" i] by (cases S) auto
    then show ?thesis by (metis rtranclp.rtrancl_refl)
  next
    case False
    have "prog_step p i P (guard S) (shared S) \<noteq> None"
      using less.prems(3,4) False holder_steps free_steps by (cases "guard S") auto
    then obtain P' g st1 where step: "prog_step p i P (guard S) (shared S) = Some (P', g, st1)" by auto
    let ?S = "\<lparr>shared = st1, guard = g, threads = (threads S)[i := P']\<rparr>"
    note ok = prog_step_ok [OF step less.prems(3,5)]
    have "go_on p S ?S" using go_on.thread [OF less.prems(1)] step less.prems(2) by blast
    moreover have "(go_on p)\<^sup>*\<^sup>* ?S \<lparr>shared = st, guard = None, threads = (threads ?S)[i := Ret r]\<rparr>"
    proof (rule less.IH [OF step_alone(2) [OF step]])
      show "guard ?S \<in> {None, Some i}" using ok(3) less.prems(4) by (auto simp: doubleton_eq_iff)
      show "run_alone p P' (shared ?S) = (r, st)" using step_alone(1) [OF step] less.prems(6) by simp
    qed (use less.prems(1) ok in simp_all)
    ultimately show ?thesis by (simp add: converse_rtranclp_into_rtranclp)
  qed
qed

section \<open>Properties\<close>

lemma storage_lookups:
  "map_of (rev (all_storage_verbs w)) ''VM.create'' = None"
  "map_of (rev (all_storage_verbs w)) ''VM.destroy'' = None"
  "map_of (rev (all_storage_verbs w)) ''VM.shutdown'' = None"
  "map_of (rev (all_storage_verbs w)) ''VM.cont'' = None"
  "map_of (rev (all_storage_verbs w)) ''VM.pause'' = None"
  "map_of (rev (all_storage_verbs w)) ''VM.getStats'' = None"
  "map_of (rev (all_storage_verbs w)) ''VM.setTicket'' = None"
  "map_of (rev (all_storage_verbs w)) ''VM.migrate'' = None"
  "map_of (rev (all_storage_verbs w)) ''VM.migrationCreate'' = None"
  "map_of (rev (all_storage_verbs w)) ''VM.migrationCancel'' = None"
  "map_of (rev (all_storage_verbs w)) ''VM.migrateCancel'' = None"
  "map_of (rev (all_storage_verbs w)) ''VM.migrateStatus'' = None"
  "map_of (rev (all_storage_verbs w)) ''Host.dumpxmls'' = None"
  "map_of (rev (all_storage_verbs w)) ''Host.getAllVmStats'' = None"
  unfolding all_storage_verbs_def storage_verbs_def block_verbs_def Let_def
  by (simp_all only: append_Cons append_Nil rev.simps map_of.simps fst_conv snd_conv fun_upd_apply list.inject char.inject simp_thms if_True if_False list.distinct)

lemma vm_lookups:
  "map_of (rev (vm_verbs w)) ''VM.create'' = Some (vm_create (ovirsh w))"
  "map_of (rev (vm_verbs w)) ''VM.destroy'' = Some (vm_destroy (ovirsh w))"
  "map_of (rev (vm_verbs w)) ''VM.shutdown'' = Some (vm_shutdown (ovirsh w))"
  "map_of (rev (vm_verbs w)) ''VM.cont'' = Some (vm_cont (ovirsh w))"
  "map_of (rev (vm_verbs w)) ''VM.pause'' = Some (vm_pause (ovirsh w))"
  "map_of (rev (vm_verbs w)) ''VM.getStats'' = Some (vm_get_stats)"
  "map_of (rev (vm_verbs w)) ''VM.setTicket'' = Some (vm_set_ticket (ovirsh w))"
  "map_of (rev (vm_verbs w)) ''VM.migrate'' = Some (vm_migrate (ovirsh w))"
  "map_of (rev (vm_verbs w)) ''VM.migrationCreate'' = Some (vm_migration_create)"
  "map_of (rev (vm_verbs w)) ''VM.migrationCancel'' = Some (vm_migration_cancel (ovirsh w))"
  "map_of (rev (vm_verbs w)) ''VM.migrateCancel'' = Some (vm_migration_cancel (ovirsh w))"
  "map_of (rev (vm_verbs w)) ''VM.migrateStatus'' = Some (vm_migrate_status (ovirsh w))"
  "map_of (rev (vm_verbs w)) ''Host.dumpxmls'' = Some (dump_xmls (ovirsh w))"
  "map_of (rev (vm_verbs w)) ''Host.getAllVmStats'' = None"
  "map_of (rev (host_verbs w)) ''Host.getAllVmStats'' = Some (on_virt (get_all_vm_stats w))"
  unfolding vm_verbs_def host_verbs_def Let_def
  by (simp_all only: append_Cons append_Nil rev.simps map_of.simps fst_conv snd_conv fun_upd_apply list.inject char.inject simp_thms if_True if_False list.distinct)

lemma verb_progs_alone:
  assumes "(m, P) \<in> set (verb_progs w)"
  shows "invoke (verb_table w) m = on_virt (\<lambda>params. run_alone (ovirsh w) (P params))"
  using assms
  by (auto simp: verb_progs_def invoke_verb storage_lookups vm_lookups run_verbs run_create run_all_stats)


text \<open>
  C25: any number of requests about machines, reconciliations and spawned tasks, interleaved at every
  await, keep the registry sound: one record per identifier, each under its own. At most one
  thread keeps the guard, that thread is inside its critical section, and the daemon never
  deadlocks: as long as something is unanswered, some thread or task can go on.
\<close>

theorem vm_interleaving_sound:
  assumes "(async_step w)\<^sup>*\<^sup>* (async_start s) S"
  shows "registry_ok (registry (shared S)) \<and>
    (\<forall>i. guard S = Some i \<longrightarrow> i < length (threads S) \<and> disciplined (threads S ! i) True) \<and>
    (all_answered S \<or> (\<exists>S'. go_on (ovirsh w) S S'))"
proof -
  have ok: "async_ok S" by (rule async_reachable_ok [OF assms])
  then show ?thesis using never_stuck [OF ok] by (auto simp: async_ok_def)
qed


text \<open>
  C28: a reconciliation can lose a machine that was just created. It lists the running domains before
  it takes the lock; a machine that is defined, started and recorded in between is not on the
  list, so its record is dropped. The engine was told that the machine is up, and until the next
  reconciliation no record has its name.
\<close>

theorem create_lost_to_reconcile:
  assumes "vm_id_from params = Inr v" "spec = from_vm_params v params" "registry_ok (registry st)"
    and "run_virsh (ovirsh w) [''list'', ''--name'', ''--state-running''] None st = (Inr out, st1)" "ds_name spec \<notin> set (running_names out)"
    and "run_virsh (ovirsh w) [''define'', ''/dev/stdin''] (Some (to_xml spec)) st1 = (Inr o1, st2)"
    and "run_virsh (ovirsh w) [''start'', ds_name spec] None st2 = (Inr o2, st3)"
  shows "\<exists>S1 S2 j r. (go_on (ovirsh w))\<^sup>*\<^sup>* \<lparr>shared = st, guard = None, threads = [all_stats_prog w q, create_prog params]\<rparr> S1 \<and>
    threads S1 ! 1 = Ret (Inr j) \<and> hm_get (registry (shared S1)) v = Some r \<and> vm_name r = ds_name spec \<and> state r = Up \<and>
    (go_on (ovirsh w))\<^sup>*\<^sup>* S1 S2 \<and> list_all ended (threads S2) \<and> guard S2 = None \<and>
    (\<forall>k r. hm_get (registry (shared S2)) k = Some r \<longrightarrow> vm_name r \<noteq> ds_name spec)"
proof -
  let ?p = "ovirsh w" and ?ns = "running_names out"
  let ?stats = "Read (\<lambda>m now. Ret (Inr (JArr (map (\<lambda>r. record_to_stats r now) (oorder w m)))))"
  let ?rest = "Lock (HeldWrite (filter (\<lambda>(k, r). vm_name r \<in> set ?ns)) (adopt_prog ?ns ?stats))"
  let ?S0 = "\<lparr>shared = st, guard = None, threads = [all_stats_prog w q, create_prog params]\<rparr>"
  let ?Sa = "\<lparr>shared = st1, guard = None, threads = [?rest, create_prog params]\<rparr>"
  have "prog_step ?p 0 (all_stats_prog w q) None st = Some (?rest, None, st1)"
    using assms(4) by (simp add: all_stats_prog_def reconcile_prog_def Let_def)
  then have "go_on ?p ?S0 ?Sa" using go_on.thread [of 0 ?S0 ?p ?rest None st1] by simp
  moreover obtain j where run: "run_alone ?p (create_prog params) st1 = (Inr j, put_record v spec Up st3)"
    using assms(1,2,6,7) by (simp add: run_create vm_create_def on_vm_def Let_def)
  let ?st4 = "put_record v spec Up st3"
  let ?S1 = "\<lparr>shared = ?st4, guard = None, threads = [?rest, Ret (Inr j)]\<rparr>"
  have reg: "registry_ok (registry st1)" "registry_ok (registry ?st4)"
    using assms(3) run_virsh_keeps(1) [OF assms(4)] run_virsh_keeps(1) [OF assms(6)] run_virsh_keeps(1) [OF assms(7)]
    by (simp_all add: registry_ok_put)
  have "disciplined (create_prog params) False" by (rule verb_progs_disciplined [of "''VM.create''" _ w]) (simp add: verb_progs_def)
  then have "(go_on ?p)\<^sup>*\<^sup>* ?Sa ?S1"
    using alone_reached [of 1 ?Sa "create_prog params" ?p "Inr j" ?st4] run reg(1) by simp
  ultimately have first: "(go_on ?p)\<^sup>*\<^sup>* ?S0 ?S1" by (rule converse_rtranclp_into_rtranclp)
  let ?st5 = "adopt_each ?p ?ns (?st4\<lparr>registry := filter (\<lambda>(k, r). vm_name r \<in> set ?ns) (registry ?st4)\<rparr>)"
  obtain l where "run_alone ?p ?rest ?st4 = (Inr l, ?st5)" by (simp add: run_adopt)
  then have second: "(go_on ?p)\<^sup>*\<^sup>* ?S1 \<lparr>shared = ?st5, guard = None, threads = [Ret (Inr l), Ret (Inr j)]\<rparr>"
    using alone_reached [of 0 ?S1 ?rest ?p "Inr l" ?st5] reg(2) by (simp add: registry_ok_filter)
  have gone: "vm_name r \<noteq> ds_name spec" if "hm_get (registry ?st5) k = Some r" for k r
    using adopt_each_new [OF that] assms(5) reg(2) by (auto simp: hm_get_filter_Some registry_ok_def)
  show ?thesis
    using first second gone by (intro exI [of _ ?S1] exI [of _ "\<lparr>shared = ?st5, guard = None, threads = [Ret (Inr l), Ret (Inr j)]\<rparr>"])
      (auto simp: hm_get_put)
qed

section \<open>Concrete instances\<close>

lemma ovirsh_sample [simp]: "ovirsh sample_outer = sample_virsh"
  by (simp add: sample_outer_def)

lemma create_is_verb: "(''VM.create'', create_prog) \<in> set (verb_progs w)"
  by (simp add: verb_progs_def)


lemma two_requests:
  "(async_step sample_outer)\<^sup>*\<^sup>* (async_start s)
     \<lparr>shared = virt_start s, guard = None, threads = [create_prog sample_params, create_prog sample_params]\<rparr>"
proof -
  let ?step = "async_step sample_outer" and ?c = "create_prog sample_params"
  have "?step (async_start s) \<lparr>shared = virt_start s, guard = None, threads = [?c]\<rparr>"
    using async_step.request [OF create_is_verb, of sample_outer "async_start s" sample_params] by (simp add: async_start_def)
  moreover have "?step \<lparr>shared = virt_start s, guard = None, threads = [?c]\<rparr> \<lparr>shared = virt_start s, guard = None, threads = [?c, ?c]\<rparr>"
    using async_step.request [OF create_is_verb, of sample_outer "\<lparr>shared = virt_start s, guard = None, threads = [?c]\<rparr>" sample_params]
    by simp
  ultimately show ?thesis by (meson converse_rtranclp_into_rtranclp rtranclp.rtrancl_refl)
qed

theorem vm_interleaving_sound_witness:
  "\<exists>S'. go_on sample_virsh \<lparr>shared = virt_start sample_os, guard = None,
     threads = [create_prog sample_params, create_prog sample_params]\<rparr> S'"
  using vm_interleaving_sound [OF two_requests [of sample_os]]
  by (simp add: all_answered_def create_prog_def prog_on_vm_def sample_ids Let_def)


theorem create_lost_to_reconcile_witness:
  "\<exists>S2. (go_on sample_virsh)\<^sup>*\<^sup>*
     \<lparr>shared = virt_start sample_os, guard = None, threads = [all_stats_prog sample_outer JNull, create_prog sample_params]\<rparr> S2 \<and>
     list_all ended (threads S2) \<and> (\<forall>k r. hm_get (registry (shared S2)) k = Some r \<longrightarrow> vm_name r \<noteq> ''m1'')"
proof -
  have start: "registry_ok (registry (virt_start sample_os))" by (simp add: virt_start_def registry_ok_def hm_ok_def)
  have virsh: "run_virsh (ovirsh sample_outer) (x # xs) i (st :: unit virt) = (Inr [], st)" if "x \<noteq> ''domstate''" for x xs i st
    using that by (simp add: sample_virsh_run)
  have "ds_name (from_vm_params ''v1'' sample_params) \<notin> set (running_names [])" by (simp add: running_names_def)
  from create_lost_to_reconcile [where w = sample_outer and q = JNull, OF sample_ids(1) refl start virsh this virsh virsh]
  obtain S1 S2 where
    "(go_on sample_virsh)\<^sup>*\<^sup>* \<lparr>shared = virt_start sample_os, guard = None,
       threads = [all_stats_prog sample_outer JNull, create_prog sample_params]\<rparr> S1"
    "(go_on sample_virsh)\<^sup>*\<^sup>* S1 S2" "list_all ended (threads S2)"
    "\<forall>k r. hm_get (registry (shared S2)) k = Some r \<longrightarrow> vm_name r \<noteq> ''m1''"
    by (auto simp: sample_ids)
  then show ?thesis by (meson rtranclp_trans)
qed

end
