(* ===== verification/Host_Info.thy ===== *)
theory Host_Info
  imports Host_Caps
begin

text \<open>
  The map \<open>info\<close> of \<open>get_capabilities\<close> in \<open>crates/vdsm-host/src/caps.rs\<close>, with the helpers only it uses. The
  verb builds it from the files it reads and then drops it (\<open>let _ = info\<close>), in favour of the map
  \<open>minimal\<close> that is modelled in \<open>Host_Caps\<close>. It is compared here with what the engine needs.
\<close>

section \<open>Helpers\<close>

definition numa_topology :: "'x env \<Rightarrow> 'x os \<Rightarrow> json" where
  "numa_topology e s =
     json_obj (map (\<lambda>i. (nat_dec i, json_obj [(''cpus'', JArr []), (''totalMemory'', JStr ''0'')]))
       [0..<unat (numa_node_count e s)])"

definition cpu_topology :: "u32 \<Rightarrow> json list" where
  "cpu_topology n =
     map (\<lambda>i. json_obj [(''cpu_id'', JNum (PosInt (of_nat i))), (''core_id'', JNum (PosInt (of_nat i))),
       (''socket_id'', jint 0), (''numa_cell_id'', jint 0)]) [0..<unat n]"

definition current_iso_datetime :: "u64 \<Rightarrow> string" where
  "current_iso_datetime secs = u64_str secs @ ''Z''"

definition fs_first_line :: "'x env \<Rightarrow> string \<Rightarrow> 'x os \<Rightarrow> string option" where
  "fs_first_line e path s =
     Option.bind (read_opt e path s) (\<lambda>t. map_option trim (opt_hd (str_lines t)))"

definition info_nic :: json where
  "info_nic =
     json_obj
       [(''speed'', jint 1000),
        (''mtu'', JStr ''1500''),
        (''hwaddr'', JStr ''00:00:00:00:00:00''),
        (''addr'', JStr []),
        (''netmask'', JStr []),
        (''ipv4addrs'', JArr []),
        (''ipv6addrs'', JArr []),
        (''permhwaddr'', JStr ''00:00:00:00:00:00''),
        (''operstate'', JStr ''up''),
        (''duplex'', JStr ''full'')]"

definition primary_nic :: "string list \<Rightarrow> string" where
  "primary_nic names = unwrap_or ''lo'' (opt_hd names)"

definition mgmt_entry :: "string \<Rightarrow> json" where
  "mgmt_entry nic =
     json_obj
       [(''iface'', JStr ''ovirtmgmt''),
        (''ports'', JArr [JStr nic]),
        (''stp'', JStr ''off''),
        (''switch'', JStr ''legacy''),
        (''addr'', JStr []),
        (''netmask'', JStr []),
        (''ipv4addrs'', JArr []),
        (''ipv4defaultroute'', JBool True),
        (''gateway'', JStr []),
        (''ipv6addrs'', JArr []),
        (''ipv6autoconf'', JBool True),
        (''ipv6gateway'', JStr ''::''),
        (''dhcpv4'', JBool False),
        (''dhcpv6'', JBool False),
        (''mtu'', JStr ''1500''),
        (''bootproto4'', JStr ''none''),
        (''bridged'', JBool True),
        (''cfg'', json_obj []),
        (''qosOutbound'', JStr []),
        (''qosInbound'', JStr [])]"

definition mgmt_bridge :: "string \<Rightarrow> json" where
  "mgmt_bridge nic =
     json_obj
       [(''ports'', JArr [JStr nic]),
        (''stp'', JStr ''off''),
        (''addr'', JStr []),
        (''netmask'', JStr []),
        (''ipv4addrs'', JArr []),
        (''ipv6addrs'', JArr []),
        (''mtu'', JStr ''1500''),
        (''cfg'', json_obj []),
        (''opts'', json_obj [])]"

section \<open>The map\<close>

definition info_system :: "'x env \<Rightarrow> 'x os \<Rightarrow> (string \<times> json) list" where
  "info_system e s =
     (let cpu = host_cpu_info e s; mem = host_mem_info e s; rel = os_release e s; (load1, _, _) = loadavg e s
      in [(''uuid'', JStr (vdsm_id e s)),
          (''hostname'', JStr (hostname e s)),
          (''kvmEnabled'', JStr (bool_str (kvm_enabled e s))),
          (''cpuModel'', JStr (model_name cpu)),
          (''cpuFlags'', JStr (join_with '','' (cpu_flags cpu))),
          (''cpuSpeed'', JStr (cpu_speed cpu)),
          (''cpuCores'', JStr (u32_str (physical_cores cpu))),
          (''cpuThreads'', JStr (u32_str (logical_cpus cpu))),
          (''cpuSockets'', JStr (u32_str (sockets cpu))),
          (''onlineCpus'', JStr (u32_str (logical_cpus cpu))),
          (''cpuLoad'', JStr (fmt_f64 2 load1)),
          (''memSize'', JStr (u64_str (total_kb mem div 1024))),
          (''freeMem'', JStr (u64_str (available_kb mem div 1024))),
          (''version_name'', JStr ''Software Version''),
          (''software_version'', JStr CLAIMED_VDSM_VERSION),
          (''vdsm_rs_version'', JStr VDSM_RS_VERSION),
          (''kernel'', JStr (kernel_release e s)),
          (''operatingSystem'', json_obj
             [(''name'', JStr (os_field rel ''NAME'' ''Linux'')),
              (''version'', JStr (os_field rel ''VERSION_ID'' [])),
              (''release'', JStr (os_field rel ''BUILD_ID'' [])),
              (''pretty_name'', JStr (os_field rel ''PRETTY_NAME'' []))])])"

definition info_network :: "'x env \<Rightarrow> 'x os \<Rightarrow> (string \<times> json) list" where
  "info_network e s =
     (let names = nic_names e s; nic = primary_nic names
      in [(''nics'', json_obj (map (\<lambda>n. (n, info_nic)) names)),
          (''bonds'', json_obj []),
          (''vlans'', json_obj []),
          (''bridges'', json_obj [(''ovirtmgmt'', mgmt_bridge nic)]),
          (''networks'', json_obj [(''ovirtmgmt'', mgmt_entry nic)])])"

definition info_features :: "'x env \<Rightarrow> 'x os \<Rightarrow> (string \<times> json) list" where
  "info_features e s =
     [(''numaNodes'', numa_topology e s),
      (''numaNodeDistance'', json_obj []),
      (''autoNumaBalancing'', jint 2),
      (''hugepages'', JArr [jint 2048]),
      (''hostdevPassthrough'', JStr ''false''),
      (''supportedRHEVMs'', strs_json [''4.5'', ''4.4'']),
      (''supportedENGINEs'', strs_json [''4.5'', ''4.4'']),
      (''clusterLevels'', strs_json [''4.5'', ''4.4'']),
      (''supportedProtocols'', strs_json [''2.2'', ''2.3'']),
      (''selinux'', json_obj [(''mode'', JStr (unwrap_or ''0'' (fs_first_line e ''/sys/fs/selinux/enforce'' s)))]),
      (''additionalFeatures'', JArr []),
      (''fipsEnabled'', JBool False),
      (''liveMerge'', JStr ''false''),
      (''liveSnapshot'', JStr ''false''),
      (''openSessions'', jint 0)]"

definition info_package :: "string \<Rightarrow> string \<Rightarrow> json" where
  "info_package v r = json_obj [(''version'', JStr v), (''release'', JStr r), (''buildtime'', jint 0)]"

definition info_packages :: "'x env \<Rightarrow> 'x os \<Rightarrow> json" where
  "info_packages e s =
     json_obj
       [(''vdsm'', info_package CLAIMED_VDSM_VERSION ''1.el9''),
        (''libvirt'', info_package ''10.0.0'' ''1.el9''),
        (''qemu-kvm'', info_package ''8.2.0'' ''1.el9''),
        (''qemu-img'', info_package ''8.2.0'' ''1.el9''),
        (''kernel'', info_package (kernel_release e s) []),
        (''spice-server'', info_package ''0.15.2'' ''1.el9''),
        (''openvswitch'', info_package ''3.4.0'' ''1.el9'')]"

definition info_rest :: "'x env \<Rightarrow> 'x os \<Rightarrow> (string \<times> json) list" where
  "info_rest e s =
     [(''packages2'', info_packages e s),
      (''emulatedMachines'', strs_json [''pc-q35-rhel9.4.0'', ''pc-q35-rhel9.2.0'', ''pc-q35-rhel8.6.0'', ''q35'']),
      (''vmTypes'', strs_json [''kvm'']),
      (''hbaInventory'', json_obj [(''iSCSI'', JArr []), (''FC'', JArr [])]),
      (''rngSources'', strs_json [''random'']),
      (''reservedMem'', JStr ''321''),
      (''cpuTopology'', JArr (cpu_topology (logical_cpus (host_cpu_info e s)))),
      (''hooks'', json_obj []),
      (''kdumpStatus'', jint 0),
      (''bootTime'', JStr ''0''),
      (''dateTime'', JStr (current_iso_datetime (now_secs s))),
      (''timeOffset'', JStr ''0''),
      (''kernelArgs'', JStr []),
      (''ISCSIInitiatorName'', JStr []),
      (''transparentHugePages'', JStr []),
      (''nr_hugepages'', jint 0),
      (''vm.free_hugepages'', jint 0),
      (''nmstate'', json_obj []),
      (''openvswitch'', JBool False),
      (''ovnConfigured'', JBool False),
      (''supported_block_size'', strs_json [''4k'', ''512'']),
      (''domain_versions'', JArr [jint 3, jint 4, jint 5])]"

definition caps_info :: "'x env \<Rightarrow> 'x os \<Rightarrow> json" where
  "caps_info e s = json_obj (info_system e s @ info_network e s @ info_features e s @ info_rest e s)"

section \<open>What it is and what it is not\<close>

text \<open>Building the map and dropping it changes nothing of the verb.\<close>

lemma info_dropped: "do { _ \<leftarrow> reading (caps_info e); get_caps e } = get_caps e"
  by (rule state.expand) (simp add: reading_def fun_eq_iff split: prod.splits)

definition info_keys :: "string list" where
  "info_keys =
     [''uuid'', ''hostname'', ''kvmEnabled'', ''cpuModel'', ''cpuFlags'', ''cpuSpeed'', ''cpuCores'', ''cpuThreads'', ''cpuSockets'',
      ''onlineCpus'', ''cpuLoad'', ''memSize'', ''freeMem'', ''version_name'', ''software_version'', ''vdsm_rs_version'', ''kernel'',
      ''operatingSystem'', ''nics'', ''bonds'', ''vlans'', ''bridges'', ''networks'', ''numaNodes'', ''numaNodeDistance'',
      ''autoNumaBalancing'', ''hugepages'', ''hostdevPassthrough'', ''supportedRHEVMs'', ''supportedENGINEs'', ''clusterLevels'',
      ''supportedProtocols'', ''selinux'', ''additionalFeatures'', ''fipsEnabled'', ''liveMerge'', ''liveSnapshot'', ''openSessions'',
      ''packages2'', ''emulatedMachines'', ''vmTypes'', ''hbaInventory'', ''rngSources'', ''reservedMem'', ''cpuTopology'', ''hooks'',
      ''kdumpStatus'', ''bootTime'', ''dateTime'', ''timeOffset'', ''kernelArgs'', ''ISCSIInitiatorName'', ''transparentHugePages'',
      ''nr_hugepages'', ''vm.free_hugepages'', ''nmstate'', ''openvswitch'', ''ovnConfigured'', ''supported_block_size'',
      ''domain_versions'']"

lemma info_keyed: "map fst (info_system e s @ info_network e s @ info_features e s @ info_rest e s) = info_keys"
  by (simp add: info_system_def info_network_def info_features_def info_rest_def info_keys_def Let_def split: prod.splits)

lemma json_obj_has: "json_get (json_obj kvs) k \<noteq> None \<longleftrightarrow> k \<in> set (map fst kvs)"
  by (simp add: json_get_obj map_of_eq_None_iff)

text \<open>
  The map could not be sent in place of the other as it is: of the keys the engine relies on it has
  all but the inventory of host bus adapters, whose name it spells differently.
\<close>

lemma info_almost_complete: "filter (\<lambda>k. json_get (caps_info e s) k = None) ENGINE_KEYS = [''HBAInventory'']"
proof -
  have "json_get (caps_info e s) k = None \<longleftrightarrow> k \<notin> set info_keys" for k
    using json_obj_has [of _ k] info_keyed [of e s] unfolding caps_info_def by metis
  then have "filter (\<lambda>k. json_get (caps_info e s) k = None) ENGINE_KEYS = filter (\<lambda>k. k \<notin> set info_keys) ENGINE_KEYS"
    by simp
  also have "\<dots> = [''HBAInventory'']" by code_simp
  finally show ?thesis .
qed

text \<open>The time is not a date: its text is the number of seconds.\<close>

lemma current_iso_datetime_seconds: "parse_u64 (butlast (current_iso_datetime n)) = Some n"
  by (simp add: current_iso_datetime_def butlast_append)

text \<open>The topology has one entry per processor, with its own number.\<close>

lemma cpu_topology_entries:
  "length (cpu_topology n) = unat n"
  "i < unat n \<Longrightarrow> json_get (cpu_topology n ! i) ''cpu_id'' = Some (JNum (PosInt (of_nat i)))"
  by (simp_all add: cpu_topology_def json_get_obj)

end
