(* ===== verification/Vdsm_Tool.thy ===== *)
theory Vdsm_Tool
  imports Host_Sysinfo
begin

text \<open>
  \<open>crates/vdsm-tool/src/main.rs\<close> and \<open>crates/vdsm-client/src/main.rs\<close>: the command line programs that
  host-deploy runs beside the daemon. Parsing the command line is left to \<open>clap\<close>: a run starts with
  the parsed command. The state of a run is the machine, the permission bits of its files and what
  was printed; the current directory is the root. The user of the process and failures of
  \<open>set_permissions\<close> are parameters.
\<close>

section \<open>State\<close>

datatype cmd =
  Configure bool
| ConfigLvmFilter bool
| OvnConfig "string option" "string option" "string option"
| IsConfigured
| ValidateConfig
| Register "string option"
| VdsmId
| GenTestCerts string string "string option" u32
| Unknown "string list"

record 'x tool =
  tool_env :: "'x env"
  perm_fault :: "string \<Rightarrow> nat \<Rightarrow> 'x os \<Rightarrow> string option"
  own_uid :: u32
  fmt_debug :: "string \<Rightarrow> string"

record 'x tool_state =
  t_os :: "'x os"
  t_modes :: "(string list, nat) hmap"
  t_stdout :: string
  t_stderr :: string

definition VDSM_ID_PATH :: string where
  "VDSM_ID_PATH = ''/etc/vdsm/vdsm.id''"

definition make_parent :: "'x env \<Rightarrow> string \<Rightarrow> 'x os \<Rightarrow> 'x os" where
  "make_parent e p s = (case path_parent p of Some d \<Rightarrow> snd (create_dir_all e d s) | None \<Rightarrow> s)"

section \<open>The identifier of the host\<close>

definition read_system_uuid :: "'x env \<Rightarrow> 'x os \<Rightarrow> (string, string) result \<times> 'x os" where
  "read_system_uuid e s =
     (case find_map (\<lambda>p. nonempty_trimmed e p s) [''/sys/class/dmi/id/product_uuid'', ''/proc/device-tree/system-id''] of
        Some t \<Rightarrow> (Inr t, s)
      | None \<Rightarrow>
          (case exec e ''dmidecode'' [''-s'', ''system-uuid''] s of
             (Inl m, s1) \<Rightarrow> (Inl m, s1)
           | (Inr r, s1) \<Rightarrow>
               (if \<not> success r then
                  (Inl (''dmidecode -s system-uuid failed: '' @ from_utf8_lossy (stderr_bytes r)), s1)
                else
                  (let t = trim (from_utf8_lossy (stdout_bytes r))
                   in if t = [] then (Inl ''dmidecode returned an empty system-uuid'', s1) else (Inr t, s1)))))"

definition ensure_vdsm_id :: "'x env \<Rightarrow> 'x os \<Rightarrow> (string, string) result \<times> 'x os" where
  "ensure_vdsm_id e s =
     (case nonempty_trimmed e VDSM_ID_PATH s of
        Some t \<Rightarrow> (Inr t, s)
      | None \<Rightarrow>
          (case read_system_uuid e s of
             (Inl m, s1) \<Rightarrow> (Inl m, s1)
           | (Inr i, s1) \<Rightarrow> (Inr i, snd (fs_write e VDSM_ID_PATH (i @ [NL]) (make_parent e VDSM_ID_PATH s1)))))"

section \<open>Certificates for a test\<close>

text \<open>The third field of the first line of \<open>/etc/passwd\<close> or \<open>/etc/group\<close> that starts with the name.\<close>

fun id_of_lines :: "string \<Rightarrow> string list \<Rightarrow> u32 option" where
  "id_of_lines n [] = None"
| "id_of_lines n (l # ls) =
     (let fs = split_on COLON l
      in if hd fs = n then (if length fs < 3 then None else parse_u32 (fs ! 2))
         else id_of_lines n ls)"

definition read_passwd_uid :: "'x env \<Rightarrow> string \<Rightarrow> 'x os \<Rightarrow> u32 option" where
  "read_passwd_uid e n s = Option.bind (read_opt e ''/etc/passwd'' s) (\<lambda>t. id_of_lines n (str_lines t))"

definition read_group_gid :: "'x env \<Rightarrow> string \<Rightarrow> 'x os \<Rightarrow> u32 option" where
  "read_group_gid e n s = Option.bind (read_opt e ''/etc/group'' s) (\<lambda>t. id_of_lines n (str_lines t))"

definition lookup_vdsm_kvm :: "'x env \<Rightarrow> 'x os \<Rightarrow> (u32 \<times> u32) option" where
  "lookup_vdsm_kvm e s =
     (case read_passwd_uid e ''vdsm'' s of
        None \<Rightarrow> None
      | Some u \<Rightarrow> (case read_group_gid e ''kvm'' s of None \<Rightarrow> None | Some g \<Rightarrow> Some (u, g)))"

definition running_as_root :: "'x tool \<Rightarrow> bool" where
  "running_as_root t \<longleftrightarrow> own_uid t = 0"

definition chmod_path :: "'x tool \<Rightarrow> string \<Rightarrow> nat \<Rightarrow> 'x tool_state \<Rightarrow> (string, unit) result \<times> 'x tool_state" where
  "chmod_path t p mode st =
     (case fs_stat (tool_env t) p (t_os st) of
        Inl m \<Rightarrow> (Inl m, st)
      | Inr _ \<Rightarrow>
          (case perm_fault t p mode (t_os st) of
             Some m \<Rightarrow> (Inl m, st)
           | None \<Rightarrow>
               (case locate (files (t_os st)) p of
                  Inl m \<Rightarrow> (Inl m, st)
                | Inr q \<Rightarrow> (Inr (), st\<lparr>t_modes := hm_insert q mode (t_modes st)\<rparr>))))"

definition chown_path :: "'x tool \<Rightarrow> string \<Rightarrow> u32 \<Rightarrow> u32 \<Rightarrow> 'x tool_state \<Rightarrow> 'x tool_state" where
  "chown_path t p u g st =
     st\<lparr>t_os := snd (exec (tool_env t) ''/usr/bin/chown'' [u32_str u @ '':'' @ u32_str g, p] (t_os st))\<rparr>"

definition openssl_args :: "string \<Rightarrow> string \<Rightarrow> string \<Rightarrow> u32 \<Rightarrow> string list" where
  "openssl_args cert key cn days =
     [''req'', ''-x509'', ''-newkey'', ''rsa:2048'', ''-keyout'', key, ''-out'', cert, ''-days'', u32_str days,
      ''-nodes'', ''-subj'', ''/CN='' @ cn, ''-addext'', ''subjectAltName=DNS:'' @ cn @ '',DNS:localhost,IP:127.0.0.1'']"

definition gen_test_certs ::
  "'x tool \<Rightarrow> string \<Rightarrow> string \<Rightarrow> string option \<Rightarrow> u32 \<Rightarrow> 'x tool_state \<Rightarrow> (string, unit) result \<times> 'x tool_state" where
  "gen_test_certs t cert key cn days st =
     (let e = tool_env t;
          c = unwrap_or (trimmed_or e ''localhost'' ''/proc/sys/kernel/hostname'' (t_os st)) cn;
          s1 = make_parent e key (make_parent e cert (t_os st))
      in case exec e ''openssl'' (openssl_args cert key c days) s1 of
           (Inl m, s2) \<Rightarrow> (Inl m, st\<lparr>t_os := s2\<rparr>)
         | (Inr r, s2) \<Rightarrow>
             (if \<not> success r then
                (Inl (''openssl req failed (rc='' @
                   (case exit_code r of None \<Rightarrow> ''None'' | Some n \<Rightarrow> ''Some('' @ int_dec n @ '')'') @ '')''), st\<lparr>t_os := s2\<rparr>)
              else
                (case chmod_path t cert 416 (st\<lparr>t_os := s2\<rparr>) of
                   (Inl m, st3) \<Rightarrow> (Inl m, st3)
                 | (Inr _, st3) \<Rightarrow>
                     (case chmod_path t key 288 st3 of
                        (Inl m, st4) \<Rightarrow> (Inl m, st4)
                      | (Inr _, st4) \<Rightarrow>
                          (Inr (),
                           if running_as_root t then
                             (case lookup_vdsm_kvm e (t_os st4) of
                                Some (u, g) \<Rightarrow> chown_path t key u g (chown_path t cert u g st4)
                              | None \<Rightarrow> st4)
                           else st4)))))"

section \<open>The programs\<close>

definition tool_main :: "'x tool \<Rightarrow> cmd \<Rightarrow> 'x tool_state \<Rightarrow> (string, unit) result \<times> 'x tool_state" where
  "tool_main t c st =
     (case c of
        Configure force \<Rightarrow> (Inr (), st)
      | ConfigLvmFilter yes \<Rightarrow> (Inr (), st)
      | OvnConfig central tunnel fqdn \<Rightarrow> (Inr (), st)
      | IsConfigured \<Rightarrow> (Inr (), st)
      | ValidateConfig \<Rightarrow> (Inr (), st)
      | Register fqdn \<Rightarrow> (Inr (), st)
      | VdsmId \<Rightarrow>
          (case ensure_vdsm_id (tool_env t) (t_os st) of
             (Inl m, s1) \<Rightarrow> (Inl m, st\<lparr>t_os := s1\<rparr>)
           | (Inr i, s1) \<Rightarrow> (Inr (), st\<lparr>t_os := s1, t_stdout := t_stdout st @ i @ [NL]\<rparr>))
      | GenTestCerts cert key cn days \<Rightarrow> gen_test_certs t cert key cn days st
      | Unknown argv \<Rightarrow>
          (Inr (),
           st\<lparr>t_stderr := t_stderr st @ ''vdsm-tool: subcommand '' @ fmt_debug t (unwrap_or ''<empty>'' (opt_hd argv)) @
                '' not implemented in vdsm-rs v0; ignoring'' @ [NL]\<rparr>))"

record client_run =
  cl_exit :: int
  cl_stdout :: string
  cl_stderr :: string

definition client_main :: "string option \<Rightarrow> string option \<Rightarrow> client_run" where
  "client_main namespace method =
     (case (namespace, method) of
        (Some ns, Some m) \<Rightarrow>
          \<lparr>cl_exit = 1,
           cl_stdout = [CHR ''{'', DQUOTE] @ ''status'' @ [DQUOTE, COLON, CHR ''{'', DQUOTE] @ ''code'' @ [DQUOTE] @ '':-32601,'' @
             [DQUOTE] @ ''message'' @ [DQUOTE, COLON, DQUOTE] @ ''vdsm-rs v0: '' @ ns @ ''.'' @ m @ '' not implemented'' @
             [DQUOTE] @ ''}}'' @ [NL],
           cl_stderr = []\<rparr>
      | _ \<Rightarrow>
          \<lparr>cl_exit = 2, cl_stdout = [],
           cl_stderr = ''vdsm-client: usage: vdsm-client <Namespace> <Method> [key=value...]'' @ [NL]\<rparr>)"

section \<open>One identifier for the tool and the daemon\<close>

lemma nonempty_trimmed_iff:
  "nonempty_trimmed e p s = Some t \<longleftrightarrow> (\<exists>x. read_to_string e p s = Inr x \<and> t = trim x \<and> t \<noteq> [])"
  by (auto simp: nonempty_trimmed_def read_opt_def split: sum.splits)

lemma read_to_string_valid: "read_to_string e p s = Inr x \<Longrightarrow> utf8_valid x"
  by (auto simp: read_to_string_def from_utf8_Inr split: sum.splits)

lemma find_map_Some: "find_map f xs = Some y \<Longrightarrow> \<exists>x \<in> set xs. f x = Some y"
  by (induction xs) (auto simp: find_map_def opt_hd_def split: option.splits)

lemma read_system_uuid_text:
  "read_system_uuid e s = (Inr i, s1) \<Longrightarrow> i \<noteq> [] \<and> trimmed i \<and> utf8_valid i"
  by (auto simp: read_system_uuid_def Let_def nonempty_trimmed_iff read_to_string_valid trim_valid
      split: option.splits prod.splits sum.splits if_splits dest!: find_map_Some)

lemma VDSM_ID_parts:
  "path_parent VDSM_ID_PATH = Some ''/etc/vdsm''" "path_join ''/etc/vdsm'' ''vdsm.id'' = VDSM_ID_PATH"
  "straight ''/etc/vdsm''" "plain ''vdsm.id''" "place ''/etc/vdsm'' = [''etc'', ''vdsm'']"
  by (simp_all add: VDSM_ID_PATH_def path_parent_def path_join_def straight_def proper_def plain_def place_def norm_def
      components_def)

text \<open>The place of the identifier file can be written: no file where a directory is needed, and no directory there.\<close>

definition id_writable :: "fs \<Rightarrow> bool" where
  "id_writable f \<longleftrightarrow>
     (\<forall>q \<in> {[''etc''], [''etc'', ''vdsm'']}. node_at f q = None \<or> node_at f q = Some NDir) \<and>
     \<not> dir_at f [''etc'', ''vdsm'', ''vdsm.id'']"

text \<open>Creating directories succeeds when no file is in the way.\<close>

lemma make_dirs_succeeds:
  "''..'' \<notin> set cs \<Longrightarrow> (\<And>q b. prefix q (cur @ norm cs) \<Longrightarrow> node_at (files s) q \<noteq> Some (NFile b)) \<Longrightarrow>
   fst (make_dirs cur cs s) = Inr ()"
proof (induction cur cs s rule: make_dirs.induct)
  case (2 cur c cs s)
  show ?case
  proof (cases "c = [] \<or> c = ''.''")
    case True
    with 2 show ?thesis by (auto simp: norm_def)
  next
    case False
    then have c: "norm (c # cs) = c # norm cs" "c \<noteq> ''..''" using "2.prems"(1) by (auto simp: norm_def)
    have free: "\<And>b. node_at (files s) (cur @ [c]) \<noteq> Some (NFile b)" using "2.prems"(2) [of "cur @ [c]"] c(1) by simp
    have set: "\<And>q b. prefix q ((cur @ [c]) @ norm cs) \<Longrightarrow> node_at (files (set_node (cur @ [c]) NDir s)) q \<noteq> Some (NFile b)"
      using "2.prems"(2) c(1) by (simp add: node_at_set_node)
    show ?thesis
      using 2 False c free set by (auto split: option.splits node.splits)
  qed
qed simp

lemma id_persisted:
  assumes "no_faults e" "id_writable (files s)" "fs_write e VDSM_ID_PATH b (make_parent e VDSM_ID_PATH s) = (r, s')"
  shows "r = Inr ()"
proof -
  let ?s1 = "make_parent e VDSM_ID_PATH s"
  have free: "node_at (files s) q \<noteq> Some (NFile b)" if "prefix q [''etc'', ''vdsm'']" for q b
    using assms(2) that by (auto simp: id_writable_def prefix_Cons node_at_def)
  have "fst (make_dirs [] (components ''/etc/vdsm'') s) = Inr ()"
    using make_dirs_succeeds [of "components ''/etc/vdsm''" "[]" s] free VDSM_ID_parts(3,5)
    by (auto simp: straight_def place_def)
  then have mk: "create_dir_all e ''/etc/vdsm'' s = (Inr (), ?s1)"
    using assms(1) VDSM_ID_parts by (auto simp: make_parent_def create_dir_all_def prod_eq_iff)
  note D = create_dir_all_spec [OF assms(1) mk VDSM_ID_parts(3)]
  have loc: "locate (files ?s1) VDSM_ID_PATH = Inr [''etc'', ''vdsm'', ''vdsm.id'']"
    using locate_dir_join [OF VDSM_ID_parts(3,4) D(1,2)] VDSM_ID_parts place_join [OF VDSM_ID_parts(4,3)] by simp
  have "\<not> dir_at (files ?s1) [''etc'', ''vdsm'', ''vdsm.id'']"
    using D(4) [of "[''etc'', ''vdsm'', ''vdsm.id'']"] assms(2) VDSM_ID_parts(5)
    by (auto simp: id_writable_def dir_at_def)
  then show ?thesis using assms(1,3) loc by (auto simp: fs_write_def)
qed

lemma vdsm_id_of_file: "nonempty_trimmed e VDSM_ID_PATH s = Some i \<Longrightarrow> vdsm_id e s = i"
  by (simp add: vdsm_id_def VDSM_ID_PATH_def)

text \<open>
  C39: the identifier \<open>vdsm-tool vdsm-id\<close> prints for host-deploy is the one the daemon then reports to
  the engine, and a second run prints it again and changes nothing; this needs no more than that no
  file operation fails of itself and that nothing of another kind is in the way of
  \<open>/etc/vdsm/vdsm.id\<close>.
\<close>

theorem host_id_agrees:
  assumes "no_faults e" "ensure_vdsm_id e s = (Inr i, s')" "id_writable (files (snd (read_system_uuid e s)))"
  shows "vdsm_id e s' = i \<and> ensure_vdsm_id e s' = (Inr i, s') \<and> i \<noteq> []"
proof -
  have stored: "nonempty_trimmed e VDSM_ID_PATH s' = Some i"
  proof (cases "nonempty_trimmed e VDSM_ID_PATH s")
    case (Some t)
    then show ?thesis using assms(2) by (simp add: ensure_vdsm_id_def)
  next
    case None
    with assms(2) obtain s1 where u: "read_system_uuid e s = (Inr i, s1)"
      and w: "snd (fs_write e VDSM_ID_PATH (i @ [NL]) (make_parent e VDSM_ID_PATH s1)) = s'"
      by (auto simp: ensure_vdsm_id_def split: prod.splits sum.splits)
    obtain r where r: "fs_write e VDSM_ID_PATH (i @ [NL]) (make_parent e VDSM_ID_PATH s1) = (r, s')"
      using w by (cases "fs_write e VDSM_ID_PATH (i @ [NL]) (make_parent e VDSM_ID_PATH s1)") auto
    have "r = Inr ()" using id_persisted [OF assms(1) _ r] assms(3) u by simp
    then have "fs_read e VDSM_ID_PATH s' = Inr (i @ [NL])" using fs_write_read assms(1) r by blast
    moreover have i: "i \<noteq> []" "trimmed i" "utf8_valid i" using read_system_uuid_text [OF u] by simp_all
    ultimately have "read_to_string e VDSM_ID_PATH s' = Inr (i @ [NL])"
      by (simp add: read_to_string_def utf8_valid_append)
    then show ?thesis using i by (auto simp: nonempty_trimmed_iff trim_line)
  qed
  then show ?thesis
    by (simp add: vdsm_id_of_file ensure_vdsm_id_def) (auto simp: nonempty_trimmed_iff)
qed

definition tool_env_ex :: "unit env" where
  "tool_env_ex =
     \<lparr>exec = (\<lambda>p args s. (Inr \<lparr>exit_code = Some 0, stdout_bytes = ''4c4c4544-0042'' @ [NL], stderr_bytes = []\<rparr>, s)),
      fault = (\<lambda>op p s. None), dir_order = (\<lambda>ns. ns), dir_len = 4096\<rparr>"

theorem host_id_agrees_witness:
  "\<exists>s'. ensure_vdsm_id tool_env_ex \<lparr>files = [], now_secs = 0, outside = ()\<rparr> = (Inr ''4c4c4544-0042'', s') \<and>
     vdsm_id tool_env_ex s' = ''4c4c4544-0042''"
proof -
  let ?s = "\<lparr>files = [], now_secs = 0, outside = ()\<rparr>"
  have nf: "no_faults tool_env_ex" by (simp add: no_faults_def tool_env_ex_def)
  have "trim (''4c4c4544-0042'' @ [NL]) = ''4c4c4544-0042''" by code_simp
  moreover have "from_utf8_lossy (''4c4c4544-0042'' @ [NL]) = ''4c4c4544-0042'' @ [NL]" by code_simp
  moreover have "read_opt tool_env_ex p ?s = None" for p
    by (auto simp: read_opt_def read_to_string_def fs_read_iff [OF nf] node_at_def split: sum.splits)
  ultimately have u: "read_system_uuid tool_env_ex ?s = (Inr ''4c4c4544-0042'', ?s)"
    and n: "nonempty_trimmed tool_env_ex VDSM_ID_PATH ?s = None"
    by (simp_all add: read_system_uuid_def find_map_def opt_hd_def nonempty_trimmed_def success_def, simp_all add: tool_env_ex_def success_def)
  obtain s' where s': "ensure_vdsm_id tool_env_ex ?s = (Inr ''4c4c4544-0042'', s')"
    by (simp add: ensure_vdsm_id_def n u)
  moreover have "id_writable (files (snd (read_system_uuid tool_env_ex ?s)))"
    by (simp add: u id_writable_def node_at_def dir_at_def)
  ultimately show ?thesis using host_id_agrees [OF nf s'] by simp
qed

text \<open>
  When \<open>gen-test-certs\<close> reports success, \<open>openssl\<close> has succeeded on exactly the given paths, both
  files are there, and the permission bits of the private key are 0440 and those of the certificate
  0640; a run that is not root never changes an owner.
\<close>

lemma chmod_path_Inr:
  "chmod_path t p mode st = (Inr (), st') \<longleftrightarrow>
   (\<exists>n q. fs_stat (tool_env t) p (t_os st) = Inr n \<and> perm_fault t p mode (t_os st) = None \<and>
     locate (files (t_os st)) p = Inr q \<and> st' = st\<lparr>t_modes := hm_insert q mode (t_modes st)\<rparr>)"
  by (auto simp: chmod_path_def split: sum.splits option.splits)

lemma chown_path_modes [simp]: "t_modes (chown_path t p u g st) = t_modes st"
  by (simp add: chown_path_def)

theorem gen_test_certs_modes:
  assumes "gen_test_certs t cert key cn days st = (Inr (), st')"
  shows "\<exists>c s1 s2 r qc qk. exec (tool_env t) ''openssl'' (openssl_args cert key c days) s1 = (Inr r, s2) \<and> success r \<and>
    (\<forall>n. cn = Some n \<longrightarrow> c = n) \<and>
    locate (files s2) cert = Inr qc \<and> locate (files s2) key = Inr qk \<and> hm_get (t_modes st') qk = Some 288 \<and>
    (qc \<noteq> qk \<longrightarrow> hm_get (t_modes st') qc = Some 416) \<and> (own_uid t \<noteq> 0 \<longrightarrow> t_os st' = s2)"
proof -
  let ?e = "tool_env t"
  define c where "c = unwrap_or (trimmed_or ?e ''localhost'' ''/proc/sys/kernel/hostname'' (t_os st)) cn"
  define s1 where "s1 = make_parent ?e key (make_parent ?e cert (t_os st))"
  from assms obtain r s2 st3 st4 where run: "exec ?e ''openssl'' (openssl_args cert key c days) s1 = (Inr r, s2)" "success r"
    and ch: "chmod_path t cert 416 (st\<lparr>t_os := s2\<rparr>) = (Inr (), st3)" "chmod_path t key 288 st3 = (Inr (), st4)"
    and fin: "st' = (if running_as_root t then (case lookup_vdsm_kvm ?e (t_os st4) of
        Some (u, g) \<Rightarrow> chown_path t key u g (chown_path t cert u g st4) | None \<Rightarrow> st4) else st4)"
    unfolding gen_test_certs_def Let_def c_def [symmetric] s1_def [symmetric]
    by (auto split: prod.splits sum.splits if_splits)
  from ch(1) obtain qc where qc: "locate (files s2) cert = Inr qc" "st3 = st\<lparr>t_os := s2, t_modes := hm_insert qc 416 (t_modes st)\<rparr>"
    by (auto simp: chmod_path_Inr)
  from ch(2) obtain qk where qk: "locate (files s2) key = Inr qk" "st4 = st3\<lparr>t_modes := hm_insert qk 288 (t_modes st3)\<rparr>"
    by (auto simp: chmod_path_Inr qc)
  have modes: "t_modes st' = hm_insert qk 288 (hm_insert qc 416 (t_modes st))"
    using qc(2) qk(2) by (auto simp: fin split: option.splits)
  have os: "own_uid t \<noteq> 0 \<longrightarrow> t_os st' = s2" using qc(2) qk(2) by (auto simp: fin running_as_root_def)
  have cn: "\<forall>n. cn = Some n \<longrightarrow> c = n" by (simp add: c_def)
  show ?thesis
    by (rule exI [of _ c], rule exI [of _ s1], rule exI [of _ s2], rule exI [of _ r], rule exI [of _ qc], rule exI [of _ qk])
      (simp add: run qc(1) qk(1) modes os cn update_conv')
qed

text \<open>Every other command of host-deploy succeeds and leaves the machine alone.\<close>

lemma host_deploy_commands:
  assumes "c \<noteq> VdsmId" "\<nexists>cert key cn days. c = GenTestCerts cert key cn days"
  shows "fst (tool_main t c st) = Inr ()" "t_os (snd (tool_main t c st)) = t_os st" "t_stdout (snd (tool_main t c st)) = t_stdout st"
  using assms by (cases c; simp add: tool_main_def)+

end
