(* ===== verification/Schema_Yaml.thy ===== *)
theory Schema_Yaml
  imports Float64
begin

text \<open>
  \<open>crates/vdsm-schema/build.rs\<close>, first part: from the text of \<open>vdsm-api.yml\<close> to a YAML tree. The text is
  rewritten so that it has no anchors and aliases, the parser of \<open>yaml-rust2\<close> turns it into events,
  and a stack machine builds the tree from the events, the last of two equal keys winning. The
  parser, the guess of a plain scalar's type (\<open>Yaml::from_str\<close>) and the insertion into its hash
  table are of that package and so parameters.
\<close>

section \<open>Trees and events\<close>

datatype yaml =
  YReal string
| YInteger int
| YString string
| YBoolean bool
| YArray "yaml list"
| YHash "(yaml \<times> yaml) list"
| YNull
| YBadValue

datatype scalar_style = Plain | Quoted

datatype event =
  Nothing
| StreamStart
| StreamEnd
| DocumentStart
| DocumentEnd
| SequenceStart nat
| SequenceEnd
| MappingStart nat
| MappingEnd
| Scalar string scalar_style nat "(string \<times> string) option"
| Alias nat

type_synonym yhash = "(yaml \<times> yaml) list"

record yaml_lib =
  from_plain :: "string \<Rightarrow> yaml"
  hash_insert :: "yaml \<Rightarrow> yaml \<Rightarrow> yhash \<Rightarrow> yhash"

text \<open>What the insertion of a hash table is documented to do.\<close>

definition lawful_hash :: "yaml_lib \<Rightarrow> bool" where
  "lawful_hash l \<longleftrightarrow>
     (\<forall>k v h. map_of (hash_insert l k v h) = (map_of h)(k \<mapsto> v) \<and>
        (distinct (map fst h) \<longrightarrow> distinct (map fst (hash_insert l k v h))))"

section \<open>Scalars\<close>

definition parse_i64 :: "string \<Rightarrow> int option" where
  "parse_i64 s =
     (case split_sign s of
        (neg, t) \<Rightarrow>
          (if t = [] \<or> \<not> list_all is_digit t then None
           else let n = int (dec_val 0 t); i = (if neg then - n else n)
                in if - (2 ^ 63) \<le> i \<and> i < 2 ^ 63 then Some i else None))"

definition scalar_to_yaml :: "yaml_lib \<Rightarrow> string \<Rightarrow> scalar_style \<Rightarrow> (string \<times> string) option \<Rightarrow> yaml" where
  "scalar_to_yaml l v style tag =
     (if style \<noteq> Plain then YString v
      else
        (case tag of
           Some (handle, suffix) \<Rightarrow>
             (if handle = ''tag:yaml.org,2002:'' then
                (if suffix = ''bool'' then
                   (if v \<in> {''true'', ''True'', ''TRUE''} then YBoolean True
                    else if v \<in> {''false'', ''False'', ''FALSE''} then YBoolean False
                    else YBadValue)
                 else if suffix = ''int'' then (case parse_i64 v of Some i \<Rightarrow> YInteger i | None \<Rightarrow> YBadValue)
                 else if suffix = ''float'' then (if parse_f64 v \<noteq> None then YReal v else YBadValue)
                 else if suffix = ''null'' then (if v = ''~'' \<or> v = ''null'' then YNull else YBadValue)
                 else YString v)
              else YString v)
         | None \<Rightarrow> from_plain l v))"

section \<open>The loader\<close>

record loader =
  docs :: "yaml list"
  doc_stack :: "(yaml \<times> nat) list"
  key_stack :: "yaml list"
  anchor_map :: "(nat \<times> yaml) list"

definition loader_default :: loader where
  "loader_default = \<lparr>docs = [], doc_stack = [], key_stack = [], anchor_map = []\<rparr>"

text \<open>Both stacks have their top first. A panic is \<open>None\<close>.\<close>

definition insert_node :: "yaml_lib \<Rightarrow> yaml \<times> nat \<Rightarrow> loader \<Rightarrow> loader option" where
  "insert_node lib node l0 =
     (let l = (if 0 < snd node then l0\<lparr>anchor_map := bm_insert (snd node) (fst node) (anchor_map l0)\<rparr> else l0)
      in case doc_stack l of
           [] \<Rightarrow> Some (l\<lparr>doc_stack := [node]\<rparr>)
         | (YArray v, a) # st \<Rightarrow> Some (l\<lparr>doc_stack := (YArray (v @ [fst node]), a) # st\<rparr>)
         | (YHash h, a) # st \<Rightarrow>
             (case key_stack l of
                [] \<Rightarrow> None
              | k # ks \<Rightarrow>
                  (if k = YBadValue then Some (l\<lparr>key_stack := fst node # ks\<rparr>)
                   else Some (l\<lparr>key_stack := YBadValue # ks,
                                doc_stack := (YHash (hash_insert lib k (fst node) h), a) # st\<rparr>)))
         | _ \<Rightarrow> None)"

definition on_event :: "yaml_lib \<Rightarrow> event \<Rightarrow> loader \<Rightarrow> loader option" where
  "on_event lib ev l =
     (case ev of
        Nothing \<Rightarrow> Some l
      | StreamStart \<Rightarrow> Some l
      | StreamEnd \<Rightarrow> Some l
      | DocumentStart \<Rightarrow> Some l
      | DocumentEnd \<Rightarrow>
          (case doc_stack l of
             [] \<Rightarrow> Some (l\<lparr>docs := docs l @ [YBadValue]\<rparr>)
           | [n] \<Rightarrow> Some (l\<lparr>docs := docs l @ [fst n], doc_stack := []\<rparr>)
           | _ \<Rightarrow> None)
      | SequenceStart aid \<Rightarrow> Some (l\<lparr>doc_stack := (YArray [], aid) # doc_stack l\<rparr>)
      | SequenceEnd \<Rightarrow>
          (case doc_stack l of [] \<Rightarrow> None | n # st \<Rightarrow> insert_node lib n (l\<lparr>doc_stack := st\<rparr>))
      | MappingStart aid \<Rightarrow>
          Some (l\<lparr>doc_stack := (YHash [], aid) # doc_stack l, key_stack := YBadValue # key_stack l\<rparr>)
      | MappingEnd \<Rightarrow>
          (case key_stack l of
             [] \<Rightarrow> None
           | _ # ks \<Rightarrow>
               (case doc_stack l of
                  [] \<Rightarrow> None
                | n # st \<Rightarrow> insert_node lib n (l\<lparr>key_stack := ks, doc_stack := st\<rparr>)))
      | Scalar v style aid tag \<Rightarrow> insert_node lib (scalar_to_yaml lib v style tag, aid) l
      | Alias i \<Rightarrow> insert_node lib (unwrap_or YBadValue (map_of (anchor_map l) i), 0) l)"

fun load_events :: "yaml_lib \<Rightarrow> event list \<Rightarrow> loader \<Rightarrow> loader option" where
  "load_events lib [] l = Some l"
| "load_events lib (ev # evs) l = Option.bind (on_event lib ev l) (load_events lib evs)"

lemma load_events_none [simp]: "load_events lib [] = Some"
  by (rule ext) simp

lemma load_events_append: "load_events lib (xs @ ys) l = Option.bind (load_events lib xs l) (load_events lib ys)"
  by (induction xs arbitrary: l) (simp_all split: Option.bind_split)

section \<open>What the loader computes\<close>

text \<open>
  A parsed document as a tree, the events the parser reports for it, and the value of the tree: the
  value of a mapping is filled with the bindings in their order, an alias stands for the value of
  the node anchored last under its number.
\<close>

datatype ynode =
  NScalar string scalar_style nat "(string \<times> string) option"
| NSeq nat "ynode list"
| NMap nat "(ynode \<times> ynode) list"
| NAlias nat

fun node_anchor :: "ynode \<Rightarrow> nat" where
  "node_anchor (NScalar v style a tag) = a"
| "node_anchor (NSeq a ns) = a"
| "node_anchor (NMap a ps) = a"
| "node_anchor (NAlias i) = 0"

function (sequential) node_events :: "ynode \<Rightarrow> event list" and list_events :: "ynode list \<Rightarrow> event list"
  and pair_events :: "(ynode \<times> ynode) list \<Rightarrow> event list" where
  "node_events (NScalar v style a tag) = [Scalar v style a tag]"
| "node_events (NSeq a ns) = SequenceStart a # list_events ns @ [SequenceEnd]"
| "node_events (NMap a ps) = MappingStart a # pair_events ps @ [MappingEnd]"
| "node_events (NAlias i) = [Alias i]"
| "list_events [] = []"
| "list_events (n # ns) = node_events n @ list_events ns"
| "pair_events [] = []"
| "pair_events ((k, v) # ps) = node_events k @ node_events v @ pair_events ps"
  by pat_completeness auto
termination
  by (relation "measure (case_sum (\<lambda>n. size n) (case_sum (\<lambda>n. size_list size n) (\<lambda>n. size_list (size_prod size size) n)))") auto

definition register_anchor :: "nat \<Rightarrow> yaml \<Rightarrow> (nat \<times> yaml) list \<Rightarrow> (nat \<times> yaml) list" where
  "register_anchor a y m = (if 0 < a then bm_insert a y m else m)"

definition fill_hash :: "yaml_lib \<Rightarrow> (yaml \<times> yaml) list \<Rightarrow> yhash \<Rightarrow> yhash" where
  "fill_hash lib kvs h = foldl (\<lambda>h (k, v). hash_insert lib k v h) h kvs"

function (sequential) node_value :: "yaml_lib \<Rightarrow> ynode \<Rightarrow> (nat \<times> yaml) list \<Rightarrow> yaml \<times> (nat \<times> yaml) list"
  and list_values :: "yaml_lib \<Rightarrow> ynode list \<Rightarrow> (nat \<times> yaml) list \<Rightarrow> yaml list \<times> (nat \<times> yaml) list"
  and pair_values :: "yaml_lib \<Rightarrow> (ynode \<times> ynode) list \<Rightarrow> (nat \<times> yaml) list \<Rightarrow> (yaml \<times> yaml) list \<times> (nat \<times> yaml) list" where
  "node_value lib (NScalar v style a tag) m = (scalar_to_yaml lib v style tag, m)"
| "node_value lib (NSeq a ns) m = (case list_values lib ns m of (ys, m') \<Rightarrow> (YArray ys, m'))"
| "node_value lib (NMap a ps) m = (case pair_values lib ps m of (kvs, m') \<Rightarrow> (YHash (fill_hash lib kvs []), m'))"
| "node_value lib (NAlias i) m = (unwrap_or YBadValue (map_of m i), m)"
| "list_values lib [] m = ([], m)"
| "list_values lib (n # ns) m =
     (case node_value lib n m of
        (y, m1) \<Rightarrow> (case list_values lib ns (register_anchor (node_anchor n) y m1) of (ys, m2) \<Rightarrow> (y # ys, m2)))"
| "pair_values lib [] m = ([], m)"
| "pair_values lib ((k, v) # ps) m =
     (case node_value lib k m of
        (x, m1) \<Rightarrow>
          (case node_value lib v (register_anchor (node_anchor k) x m1) of
             (y, m2) \<Rightarrow>
               (case pair_values lib ps (register_anchor (node_anchor v) y m2) of (kvs, m3) \<Rightarrow> ((x, y) # kvs, m3))))"
  by pat_completeness auto
termination
  by (relation "measure (case_sum (\<lambda>(lib, n, m). size n) (case_sum (\<lambda>(lib, n, m). size_list size n) (\<lambda>(lib, n, m). size_list (size_prod size size) n)))") auto

text \<open>
  The loader marks a missing key with \<open>BadValue\<close>. So a key must not itself be one: not a plain scalar
  tagged with a type its text does not have, and not an alias.
\<close>

fun key_node_ok :: "yaml_lib \<Rightarrow> ynode \<Rightarrow> bool" where
  "key_node_ok lib (NScalar v style a tag) = (scalar_to_yaml lib v style tag \<noteq> YBadValue)"
| "key_node_ok lib (NAlias i) = False"
| "key_node_ok lib (NSeq a ns) = True"
| "key_node_ok lib (NMap a ps) = True"

function (sequential) keys_ok :: "yaml_lib \<Rightarrow> ynode \<Rightarrow> bool" and list_keys_ok :: "yaml_lib \<Rightarrow> ynode list \<Rightarrow> bool"
  and pair_keys_ok :: "yaml_lib \<Rightarrow> (ynode \<times> ynode) list \<Rightarrow> bool" where
  "keys_ok lib (NScalar v style a tag) = True"
| "keys_ok lib (NSeq a ns) = list_keys_ok lib ns"
| "keys_ok lib (NMap a ps) = pair_keys_ok lib ps"
| "keys_ok lib (NAlias i) = True"
| "list_keys_ok lib [] = True"
| "list_keys_ok lib (n # ns) = (keys_ok lib n \<and> list_keys_ok lib ns)"
| "pair_keys_ok lib [] = True"
| "pair_keys_ok lib ((k, v) # ps) = (key_node_ok lib k \<and> keys_ok lib k \<and> keys_ok lib v \<and> pair_keys_ok lib ps)"
  by pat_completeness auto
termination
  by (relation "measure (case_sum (\<lambda>(lib, n). size n) (case_sum (\<lambda>(lib, n). size_list size n) (\<lambda>(lib, n). size_list (size_prod size size) n)))") auto

lemma key_value_good: "key_node_ok lib n \<Longrightarrow> fst (node_value lib n m) \<noteq> YBadValue"
  by (cases n) (auto split: prod.splits)

lemma insert_node_register:
  "insert_node lib (y, a) l =
     (case doc_stack l of
        [] \<Rightarrow> Some (l\<lparr>anchor_map := register_anchor a y (anchor_map l), doc_stack := [(y, a)]\<rparr>)
      | _ \<Rightarrow> insert_node lib (y, 0) (l\<lparr>anchor_map := register_anchor a y (anchor_map l)\<rparr>))"
  by (auto simp: insert_node_def register_anchor_def Let_def split: list.splits yaml.splits)

lemma insert_into_array:
  "doc_stack l = (YArray vs, b) # st \<Longrightarrow>
   insert_node lib (y, a) l =
     Some (l\<lparr>doc_stack := (YArray (vs @ [y]), b) # st, anchor_map := register_anchor a y (anchor_map l)\<rparr>)"
  by (simp add: insert_node_def register_anchor_def)

lemma insert_key:
  "doc_stack l = (YHash h, b) # st \<Longrightarrow> key_stack l = YBadValue # ks \<Longrightarrow>
   insert_node lib (y, a) l = Some (l\<lparr>key_stack := y # ks, anchor_map := register_anchor a y (anchor_map l)\<rparr>)"
  by (simp add: insert_node_def register_anchor_def)

lemma insert_value:
  "doc_stack l = (YHash h, b) # st \<Longrightarrow> key_stack l = k # ks \<Longrightarrow> k \<noteq> YBadValue \<Longrightarrow>
   insert_node lib (y, a) l =
     Some (l\<lparr>doc_stack := (YHash (hash_insert lib k y h), b) # st, key_stack := YBadValue # ks,
             anchor_map := register_anchor a y (anchor_map l)\<rparr>)"
  by (simp add: insert_node_def register_anchor_def)

lemma load_node:
  "keys_ok lib n \<Longrightarrow>
   load_events lib (node_events n) l =
     insert_node lib (fst (node_value lib n (anchor_map l)), node_anchor n)
       (l\<lparr>anchor_map := snd (node_value lib n (anchor_map l))\<rparr>)"
  and load_list:
  "list_keys_ok lib ns \<Longrightarrow> doc_stack l = (YArray vs, a) # st \<Longrightarrow>
   load_events lib (list_events ns) l =
     Some (l\<lparr>doc_stack := (YArray (vs @ fst (list_values lib ns (anchor_map l))), a) # st,
             anchor_map := snd (list_values lib ns (anchor_map l))\<rparr>)"
  and load_pairs:
  "pair_keys_ok lib ps \<Longrightarrow> doc_stack l = (YHash h, a) # st \<Longrightarrow> key_stack l = YBadValue # ks \<Longrightarrow>
   load_events lib (pair_events ps) l =
     Some (l\<lparr>doc_stack := (YHash (fill_hash lib (fst (pair_values lib ps (anchor_map l))) h), a) # st,
             anchor_map := snd (pair_values lib ps (anchor_map l))\<rparr>)"
proof (induction n and ns and ps arbitrary: l and l vs a st and l h a st ks
    rule: node_events_list_events_pair_events.induct)
  case (2 a ns)
  then show ?case by (simp add: on_event_def load_events_append split: prod.splits)
next
  case (3 a ps)
  then show ?case by (simp add: on_event_def load_events_append split: prod.splits)
next
  case (6 n ns)
  then show ?case by (simp add: load_events_append insert_into_array split: prod.splits)
next
  case (8 k v ps)
  then show ?case
    using key_value_good [of lib k "anchor_map l"]
    by (simp add: load_events_append insert_key insert_value fill_hash_def split: prod.splits)
qed (simp_all add: on_event_def fill_hash_def)

lemma fill_hash_lookup:
  "lawful_hash lib \<Longrightarrow> map_of (fill_hash lib kvs h) = map_of h ++ map_of (rev kvs)"
  by (induction kvs arbitrary: h) (auto simp: fill_hash_def lawful_hash_def map_add_def fun_eq_iff split: option.splits)

lemma fill_hash_distinct:
  "lawful_hash lib \<Longrightarrow> distinct (map fst h) \<Longrightarrow> distinct (map fst (fill_hash lib kvs h))"
  by (induction kvs arbitrary: h) (auto simp: fill_hash_def lawful_hash_def)

lemma document_loaded:
  assumes "keys_ok lib (NMap a ps)" "lawful_hash lib"
  shows "\<exists>l h. load_events lib ([StreamStart, DocumentStart] @ node_events (NMap a ps) @ [DocumentEnd, StreamEnd])
      loader_default = Some l \<and> docs l = [YHash h] \<and> node_value lib (NMap a ps) [] = (YHash h, snd (pair_values lib ps [])) \<and>
      map_of h = map_of (rev (fst (pair_values lib ps []))) \<and> distinct (map fst h)"
proof -
  define h where "h = fill_hash lib (fst (pair_values lib ps [])) []"
  have val: "node_value lib (NMap a ps) [] = (YHash h, snd (pair_values lib ps []))"
    by (simp add: h_def split: prod.splits)
  have "load_events lib (node_events (NMap a ps)) loader_default =
      Some (loader_default\<lparr>anchor_map := register_anchor a (YHash h) (snd (pair_values lib ps [])), doc_stack := [(YHash h, a)]\<rparr>)"
    unfolding load_node [OF assms(1)] using val by (simp add: insert_node_register) (simp add: loader_default_def)
  moreover have "load_events lib ([StreamStart, DocumentStart] @ node_events (NMap a ps) @ [DocumentEnd, StreamEnd]) loader_default =
      Option.bind (load_events lib (node_events (NMap a ps)) loader_default) (load_events lib [DocumentEnd, StreamEnd])"
    by (simp add: load_events_append on_event_def del: node_events.simps)
  ultimately have "\<exists>l. load_events lib ([StreamStart, DocumentStart] @ node_events (NMap a ps) @ [DocumentEnd, StreamEnd])
      loader_default = Some l \<and> docs l = [YHash h]"
    by (simp add: on_event_def loader_default_def)
  moreover have "map_of h = map_of (rev (fst (pair_values lib ps [])))" "distinct (map fst h)"
    using fill_hash_lookup [OF assms(2)] fill_hash_distinct [OF assms(2)] by (simp_all add: h_def)
  ultimately show ?thesis using val by blast
qed

text \<open>
  C36: the loader builds the value of the document. It never panics on the events of a document, and
  for a mapping at the root the result has each key once, with the value of its last binding, in
  the way PyYAML reads the schema, at every depth.
\<close>

theorem schema_document_loaded:
  assumes "keys_ok lib (NMap a ps)" "lawful_hash lib"
  shows "\<exists>l h. load_events lib ([StreamStart, DocumentStart] @ node_events (NMap a ps) @ [DocumentEnd, StreamEnd])
      loader_default = Some l \<and> docs l = [YHash h] \<and> node_value lib (NMap a ps) [] = (YHash h, snd (pair_values lib ps [])) \<and>
      map_of h = map_of (rev (fst (pair_values lib ps []))) \<and> distinct (map fst h)"
  using document_loaded [OF assms] .

definition yaml_lib_ex :: yaml_lib where
  "yaml_lib_ex = \<lparr>from_plain = YString, hash_insert = (\<lambda>k v h. filter (\<lambda>(k', v'). k' \<noteq> k) h @ [(k, v)])\<rparr>"

lemma yaml_lib_ex_lawful: "lawful_hash yaml_lib_ex"
proof -
  have "map_of (filter (\<lambda>(k', v'). k' \<noteq> k) h) x = (if x = k then None else map_of h x)" for k x :: yaml and h :: yhash
    by (induction h) auto
  then have "map_of (filter (\<lambda>(k', v'). k' \<noteq> k) h @ [(k, v)]) = (map_of h)(k \<mapsto> v)" for k v :: yaml and h
    by (auto simp: fun_eq_iff map_add_def split: option.splits)
  then show ?thesis by (auto simp: lawful_hash_def yaml_lib_ex_def distinct_map inj_on_def)
qed

theorem schema_document_loaded_witness:
  "\<exists>l h. load_events yaml_lib_ex
      [StreamStart, DocumentStart, MappingStart 0, Scalar ''type'' Plain 0 None, Scalar ''int'' Plain 0 None,
       Scalar ''type'' Plain 0 None, Scalar ''uint'' Plain 0 None, MappingEnd, DocumentEnd, StreamEnd] loader_default = Some l \<and>
     docs l = [YHash h] \<and> map_of h (YString ''type'') = Some (YString ''uint'')"
  using schema_document_loaded [of yaml_lib_ex 0 "[(NScalar ''type'' Plain 0 None, NScalar ''int'' Plain 0 None),
      (NScalar ''type'' Plain 0 None, NScalar ''uint'' Plain 0 None)]"] yaml_lib_ex_lawful
  by (simp add: scalar_to_yaml_def) (auto simp: yaml_lib_ex_def)

section \<open>Removing anchors and aliases\<close>

definition ident_start :: "char \<Rightarrow> bool" where
  "ident_start c \<longleftrightarrow> is_ascii_alphabetic c \<or> c = CHR ''_''"

definition ident_char :: "char \<Rightarrow> bool" where
  "ident_char c \<longleftrightarrow> is_ascii_alphanumeric c \<or> c = CHR ''_''"

definition sigil :: "char \<Rightarrow> bool" where
  "sigil c \<longleftrightarrow> c = CHR ''&'' \<or> c = CHR ''*''"

text \<open>\<open>out.push(b as char)\<close>: the byte is taken for a character of Latin 1.\<close>

definition push_byte_as_char :: "char \<Rightarrow> string" where
  "push_byte_as_char c =
     (if byte c < 128 then [c] else [char_of (192 + byte c div 64), char_of (128 + byte c mod 64)])"

function strip_anchors_and_aliases :: "bytes \<Rightarrow> string" where
  "strip_anchors_and_aliases [] = []"
| "strip_anchors_and_aliases (b # r) =
     (if sigil b \<and> r \<noteq> [] \<and> ident_start (hd r) then
        (if b = CHR ''*'' then takeWhile ident_char r else []) @ strip_anchors_and_aliases (dropWhile ident_char r)
      else push_byte_as_char b @ strip_anchors_and_aliases r)"
  by pat_completeness auto
termination
  by (relation "measure length") (auto intro: le_imp_less_Suc length_dropWhile_le)

text \<open>
  The intended reading: the text is a sequence of plain pieces, anchors and aliases. In a plain
  piece a sigil is followed by something that does not start a name, and no name runs on into the
  next piece.
\<close>

datatype piece = Text string | AnchorDecl string | AliasRef string

fun piece_text :: "piece \<Rightarrow> string" where
  "piece_text (Text t) = t"
| "piece_text (AnchorDecl n) = CHR ''&'' # n"
| "piece_text (AliasRef n) = CHR ''*'' # n"

fun piece_out :: "piece \<Rightarrow> string" where
  "piece_out (Text t) = t"
| "piece_out (AnchorDecl n) = []"
| "piece_out (AliasRef n) = n"

fun plain_text :: "string \<Rightarrow> bool" where
  "plain_text [] = True"
| "plain_text (c # r) = (byte c < 128 \<and> (sigil c \<longrightarrow> r \<noteq> [] \<and> \<not> ident_start (hd r)) \<and> plain_text r)"

definition name_ok :: "string \<Rightarrow> bool" where
  "name_ok n \<longleftrightarrow> n \<noteq> [] \<and> ident_start (hd n) \<and> list_all ident_char n"

fun pieces_ok :: "piece list \<Rightarrow> bool" where
  "pieces_ok [] = True"
| "pieces_ok (Text t # ps) = (plain_text t \<and> pieces_ok ps)"
| "pieces_ok (p # ps) =
     ((case p of AnchorDecl n \<Rightarrow> name_ok n | AliasRef n \<Rightarrow> name_ok n | Text t \<Rightarrow> True) \<and>
      (case concat (map piece_text ps) of [] \<Rightarrow> True | c # _ \<Rightarrow> \<not> ident_char c) \<and> pieces_ok ps)"

lemma strip_plain: "plain_text t \<Longrightarrow> strip_anchors_and_aliases (t @ s) = t @ strip_anchors_and_aliases s"
  by (induction t) (auto simp: push_byte_as_char_def)

lemma strip_name:
  assumes "sigil c" "name_ok n" "case s of [] \<Rightarrow> True | x # _ \<Rightarrow> \<not> ident_char x"
  shows "strip_anchors_and_aliases (c # n @ s) = (if c = CHR ''*'' then n else []) @ strip_anchors_and_aliases s"
proof -
  have "takeWhile ident_char (n @ s) = n" "dropWhile ident_char (n @ s) = s"
    using assms(2,3) by (cases s; force simp: name_ok_def list_all_iff takeWhile_append dropWhile_append)+
  then show ?thesis using assms(1,2) by (cases n) (simp_all add: name_ok_def)
qed

lemma pieces_rewritten:
  "pieces_ok ps \<Longrightarrow> strip_anchors_and_aliases (concat (map piece_text ps)) = concat (map piece_out ps)"
  by (induction ps rule: pieces_ok.induct) (auto simp: strip_plain strip_name sigil_def simp del: strip_anchors_and_aliases.simps(2))



text \<open>A character above ASCII does not survive: each of its bytes becomes a character of its own.\<close>

lemma non_ascii_garbled:
  "strip_anchors_and_aliases [CHR 0xC3, CHR 0xA9] = [CHR 0xC3, CHR 0x83, CHR 0xC2, CHR 0xA9]"
  by code_simp

end
