(* ===== verification/Schema_Gen.thy ===== *)
theory Schema_Gen
  imports Schema_Yaml Os
begin

text \<open>
  \<open>crates/vdsm-schema/build.rs\<close>, second part: from the YAML tree of the schema to the text of
  \<open>generated.rs\<close>, with a Rust type for every named type of the schema and an enumeration of its verbs.
\<close>

section \<open>Names\<close>

definition PRIMITIVES :: "(string \<times> string) list" where
  "PRIMITIVES =
     [(''string'', ''String''), (''str'', ''String''), (''int'', ''i32''), (''uint'', ''u32''), (''long'', ''i64''),
      (''ulong'', ''u64''), (''float'', ''f64''), (''double'', ''f64''), (''boolean'', ''bool''), (''bool'', ''bool''),
      (''dict'', ''serde_json::Value''), (''any'', ''serde_json::Value''), (''object'', ''serde_json::Value''),
      (''enum'', ''serde_json::Value''), (''alias'', ''serde_json::Value''), (''union'', ''serde_json::Value''),
      (''map'', ''serde_json::Value'')]"

definition RUST_KEYWORDS :: "string list" where
  "RUST_KEYWORDS =
     [''as'', ''break'', ''const'', ''continue'', ''crate'', ''else'', ''enum'', ''extern'',
      ''false'', ''fn'', ''for'', ''if'', ''impl'', ''in'', ''let'', ''loop'', ''match'', ''mod'',
      ''move'', ''mut'', ''pub'', ''ref'', ''return'', ''self'', ''Self'', ''static'', ''struct'',
      ''super'', ''trait'', ''true'', ''type'', ''unsafe'', ''use'', ''where'', ''while'',
      ''async'', ''await'', ''dyn'', ''abstract'', ''become'', ''box'', ''do'', ''final'',
      ''macro'', ''override'', ''priv'', ''typeof'', ''unsized'', ''virtual'', ''yield'',
      ''try'', ''union'']"

definition is_keyword :: "string \<Rightarrow> bool" where
  "is_keyword s \<longleftrightarrow> s \<in> set RUST_KEYWORDS"

definition map_primitive :: "string \<Rightarrow> string option" where
  "map_primitive s = map_of PRIMITIVES s"

fun pascal_from :: "bool \<Rightarrow> string \<Rightarrow> string" where
  "pascal_from up [] = []"
| "pascal_from up (c # s) =
     (if is_ascii_alphanumeric c then (if up then ascii_upper c else c) # pascal_from False s
      else pascal_from True s)"

definition pascal :: "string \<Rightarrow> string" where
  "pascal s =
     (let out = pascal_from True s
      in if out = [] then ''Unnamed'' else if is_digit (hd out) then ''V'' @ out else out)"

definition push_underscore :: "string \<Rightarrow> string" where
  "push_underscore out = (if out \<noteq> [] \<and> last out \<noteq> CHR ''_'' then out @ ''_'' else out)"

fun snake_from :: "string \<Rightarrow> bool \<Rightarrow> string \<Rightarrow> string" where
  "snake_from out prev [] = out"
| "snake_from out prev (c # s) =
     (if is_ascii_uppercase c then
        snake_from ((if prev then push_underscore out else out) @ [ascii_lower c]) False s
      else if is_ascii_alphanumeric c then snake_from (out @ [c]) (is_ascii_lowercase c \<or> is_digit c) s
      else snake_from (push_underscore out) False s)"

definition snake :: "string \<Rightarrow> string" where
  "snake s =
     (let out = dropWhile (\<lambda>c. c = CHR ''_'') (rev (dropWhile (\<lambda>c. c = CHR ''_'') (rev (snake_from [] False s))))
      in if out = [] then ''field'' else if is_digit (hd out) then ''f_'' @ out else out)"

definition rust_field_ident :: "string \<Rightarrow> string \<times> bool" where
  "rust_field_ident yaml_name =
     (let snk = snake yaml_name in (if is_keyword snk then ''r#'' @ snk else snk, snk \<noteq> yaml_name))"

definition rust_variant_ident :: "string \<Rightarrow> string \<times> bool" where
  "rust_variant_ident yaml_key =
     (let p = pascal yaml_key; v = (if is_keyword p then p @ ''_'' else p) in (v, v \<noteq> yaml_key))"

definition esc_doc :: "string \<Rightarrow> string" where
  "esc_doc s = join_with '' '' (split_whitespace s)"

section \<open>Reading the tree\<close>

definition yaml_hash :: "yaml \<Rightarrow> yhash option" where
  "yaml_hash n = (case n of YHash h \<Rightarrow> Some h | _ \<Rightarrow> None)"

definition yaml_vec :: "yaml \<Rightarrow> yaml list option" where
  "yaml_vec n = (case n of YArray v \<Rightarrow> Some v | _ \<Rightarrow> None)"

definition yaml_as_str :: "yaml \<Rightarrow> string option" where
  "yaml_as_str n = (case n of YString s \<Rightarrow> Some s | _ \<Rightarrow> None)"

definition yaml_get :: "yaml \<Rightarrow> string \<Rightarrow> yaml option" where
  "yaml_get n key = Option.bind (yaml_hash n) (\<lambda>h. map_of h (YString key))"

definition yaml_str :: "yaml \<Rightarrow> string \<Rightarrow> string option" where
  "yaml_str n key = Option.bind (yaml_get n key) yaml_as_str"

fun resolve_type :: "yaml \<Rightarrow> string" where
  "resolve_type (YString s) = unwrap_or (pascal s) (map_primitive s)"
| "resolve_type (YArray []) = ''Vec<serde_json::Value>''"
| "resolve_type (YArray (first # rest)) = ''Vec<'' @ resolve_type first @ ''>''"
| "resolve_type (YHash h) =
     (case Option.bind (map_of h (YString ''name'')) yaml_as_str of
        Some name \<Rightarrow> pascal name
      | None \<Rightarrow> ''serde_json::Value'')"
| "resolve_type node = ''serde_json::Value''"

record prop_def =
  prop_yaml_name :: string
  prop_rust_type :: string
  prop_doc :: "string option"

datatype type_kind =
  Object "prop_def list"
| Enum "(string \<times> string) list"
| TAlias string
| Union "string list"
| Map string string

record type_def =
  td_name :: string
  td_kind :: type_kind
  td_doc :: "string option"
  td_added :: "string option"

record verb_def =
  verb_yaml_name :: string
  verb_rust_name :: string
  verb_doc :: "string option"
  verb_added :: "string option"
  verb_params :: "prop_def list"
  verb_ret :: "string option"

definition parse_property :: "yaml \<Rightarrow> prop_def option" where
  "parse_property node =
     (case yaml_str node ''name'' of
        None \<Rightarrow> None
      | Some name \<Rightarrow>
          (case yaml_get node ''type'' of
             None \<Rightarrow> None
           | Some type_node \<Rightarrow>
               Some \<lparr>prop_yaml_name = name, prop_rust_type = resolve_type type_node,
                     prop_doc = map_option esc_doc (yaml_str node ''description'')\<rparr>))"

definition parse_properties :: "yaml \<Rightarrow> string \<Rightarrow> prop_def list" where
  "parse_properties def key = unwrap_or [] (map_option (List.map_filter parse_property) (Option.bind (yaml_get def key) yaml_vec))"

definition enum_variant :: "yaml \<times> yaml \<Rightarrow> (string \<times> string) option" where
  "enum_variant kv =
     (let desc = (case snd kv of YString s \<Rightarrow> esc_doc s | _ \<Rightarrow> [])
      in case fst kv of
           YString s \<Rightarrow> Some (s, desc)
         | YInteger i \<Rightarrow> Some (int_dec i, desc)
         | YReal r \<Rightarrow> Some (r, desc)
         | YBoolean b \<Rightarrow> Some (bool_str b, desc)
         | _ \<Rightarrow> None)"

definition type_kind_of :: "yaml \<Rightarrow> type_kind option" where
  "type_kind_of def =
     (case yaml_str def ''type'' of
        Some t \<Rightarrow>
          (if t = ''object'' then Some (Object (parse_properties def ''properties''))
           else if t = ''enum'' then
             Some (Enum (List.map_filter enum_variant (unwrap_or [] (Option.bind (yaml_get def ''values'') yaml_hash))))
           else if t = ''alias'' then
             Some (TAlias (unwrap_or ''serde_json::Value'' (map_option resolve_type (yaml_get def ''sourcetype''))))
           else if t = ''union'' then
             Some (Union (unwrap_or [] (map_option (map resolve_type) (Option.bind (yaml_get def ''values'') yaml_vec))))
           else if t = ''map'' then
             Some (Map (unwrap_or ''String'' (map_option resolve_type (yaml_get def ''key-type'')))
                       (unwrap_or ''serde_json::Value'' (map_option resolve_type (yaml_get def ''value-type''))))
           else if t \<noteq> [] then Some (TAlias (unwrap_or (pascal t) (map_primitive t)))
           else None)
      | None \<Rightarrow>
          (if Option.bind (yaml_get def ''properties'') yaml_vec \<noteq> None then Some (Object (parse_properties def ''properties''))
           else None))"

definition parse_type_entry :: "string \<Rightarrow> yaml \<Rightarrow> type_def option" where
  "parse_type_entry yaml_key def =
     map_option
       (\<lambda>k. \<lparr>td_name = pascal yaml_key, td_kind = k, td_doc = map_option esc_doc (yaml_str def ''description''),
             td_added = yaml_str def ''added''\<rparr>)
       (type_kind_of def)"

definition parse_verb :: "string \<Rightarrow> yaml \<Rightarrow> verb_def option" where
  "parse_verb yaml_name def =
     (if yaml_hash def = None then None
      else Some \<lparr>verb_yaml_name = yaml_name, verb_rust_name = pascal yaml_name,
                 verb_doc = map_option esc_doc (yaml_str def ''description''), verb_added = yaml_str def ''added'',
                 verb_params = parse_properties def ''params'',
                 verb_ret = map_option resolve_type (Option.bind (yaml_get def ''return'') (\<lambda>r. yaml_get r ''type''))\<rparr>)"

section \<open>Writing Rust\<close>

text \<open>\<open>writeln!\<close> to the output, and the text between double quotes.\<close>

definition ln :: "string \<Rightarrow> string" where
  "ln s = s @ [NL]"

definition quoted :: "string \<Rightarrow> string" where
  "quoted s = DQUOTE # s @ [DQUOTE]"

text \<open>A loop over items that skips those whose key was in the set \<open>seen\<close> already.\<close>

fun keep_first :: "('a \<Rightarrow> 'k) \<Rightarrow> 'k list \<Rightarrow> 'a list \<Rightarrow> 'a list" where
  "keep_first key seen [] = []"
| "keep_first key seen (x # xs) =
     (if key x \<in> set seen then keep_first key seen xs else x # keep_first key (key x # seen) xs)"

definition emit_doc :: "string option \<Rightarrow> string option \<Rightarrow> string" where
  "emit_doc doc added =
     (let d = unwrap_or [] doc;
          lines = (if d = [] then [] else concat (map (\<lambda>l. ln (''/// '' @ trim l)) (split_on NL d)))
      in lines @
         (case added of
            None \<Rightarrow> []
          | Some a \<Rightarrow>
              (if a = [] then []
               else (if d \<noteq> [] then ln ''///'' else []) @ ln (''/// (added in oVirt '' @ a @ '')''))))"

definition emit_indent_doc :: "string \<Rightarrow> string option \<Rightarrow> string" where
  "emit_indent_doc indent doc =
     (case doc of Some d \<Rightarrow> if d = [] then [] else ln (indent @ ''/// '' @ d) | None \<Rightarrow> [])"

text \<open>\<open>trim_start_matches\<close> with the prefix of a raw identifier.\<close>

fun trim_raw :: "string \<Rightarrow> string" where
  "trim_raw (c # d # s) = (if c = CHR ''r'' \<and> d = CHR ''#'' then trim_raw s else c # d # s)"
| "trim_raw s = s"

definition bare_field :: "prop_def \<Rightarrow> string" where
  "bare_field p = trim_raw (fst (rust_field_ident (prop_yaml_name p)))"

definition emit_field :: "prop_def \<Rightarrow> string" where
  "emit_field p =
     (let (ident, needs_rename) = rust_field_ident (prop_yaml_name p)
      in emit_indent_doc ''    '' (prop_doc p) @
         (if needs_rename then ln (''    #[serde(rename = '' @ quoted (prop_yaml_name p) @ '')]'') else []) @
         ln (''    #[serde(default, skip_serializing_if = '' @ quoted ''Option::is_none'' @ '')]'') @
         ln (''    pub '' @ ident @ '': Option<'' @ prop_rust_type p @ ''>,''))"

definition emit_fields :: "prop_def list \<Rightarrow> string" where
  "emit_fields ps = concat (map emit_field (keep_first bare_field [] ps))"

definition emit_variant :: "string \<times> string \<Rightarrow> string" where
  "emit_variant kd =
     (let (ident, needs_rename) = rust_variant_ident (fst kd)
      in (if snd kd \<noteq> [] then ln (''    /// '' @ snd kd) else []) @
         (if needs_rename then ln (''    #[serde(rename = '' @ quoted (fst kd) @ '')]'') else []) @
         ln (''    '' @ ident @ '',''))"

definition emit_type :: "type_def \<Rightarrow> string" where
  "emit_type t =
     emit_doc (td_doc t) (td_added t) @
     (case td_kind t of
        Object properties \<Rightarrow>
          ln ''#[derive(Debug, Clone, Default, serde::Serialize, serde::Deserialize)]'' @
          ln (''pub struct '' @ td_name t @ '' {'') @ emit_fields properties @ ln (ln ''}'')
      | Enum variants \<Rightarrow>
          ln ''#[derive(Debug, Clone, PartialEq, Eq, Hash, serde::Serialize, serde::Deserialize)]'' @
          ln (''pub enum '' @ td_name t @ '' {'') @
          concat (map emit_variant (keep_first (\<lambda>kd. fst (rust_variant_ident (fst kd))) [] variants)) @ ln (ln ''}'')
      | TAlias src \<Rightarrow> ln (ln (''pub type '' @ td_name t @ '' = '' @ src @ '';''))
      | Union variants \<Rightarrow>
          ln ''#[derive(Debug, Clone, serde::Serialize, serde::Deserialize)]'' @ ln ''#[serde(untagged)]'' @
          ln (''pub enum '' @ td_name t @ '' {'') @
          concat (map (\<lambda>(i, v). ln (''    V'' @ nat_dec i @ ''('' @ v @ ''),'')) (enumerate 0 variants)) @ ln (ln ''}'')
      | Map key value \<Rightarrow>
          ln (ln (''pub type '' @ td_name t @ '' = std::collections::HashMap<'' @ key @ '', '' @ value @ ''>;'')))"

text \<open>The arms of the two generated matches: the name of a variant, and the verb on the wire.\<close>

definition kept_verbs :: "verb_def list \<Rightarrow> verb_def list" where
  "kept_verbs verbs = keep_first verb_rust_name [] verbs"

definition as_str_arms :: "verb_def list \<Rightarrow> (string \<times> string) list" where
  "as_str_arms verbs = map (\<lambda>v. (verb_rust_name v, verb_yaml_name v)) (kept_verbs verbs)"

definition from_wire_arms :: "verb_def list \<Rightarrow> (string \<times> string) list" where
  "from_wire_arms verbs = map (\<lambda>v. (verb_yaml_name v, verb_rust_name v)) (kept_verbs verbs)"

definition emit_verb_table :: "verb_def list \<Rightarrow> string" where
  "emit_verb_table verbs =
     ln ''/// Every verb defined by vdsm-api.yml.'' @
     ln ''#[derive(Debug, Clone, Copy, PartialEq, Eq, Hash)]'' @
     ln ''#[non_exhaustive]'' @
     ln ''pub enum Verb {'' @
     concat (map (\<lambda>v. ln (''    '' @ verb_rust_name v @ '','')) (kept_verbs verbs)) @
     ln (ln ''}'') @
     ln ''impl Verb {'' @
     ln (''    pub const fn as_str(&self) -> &'' @ [SQUOTE] @ ''static str {'') @
     ln ''        match self {'' @
     concat (map (\<lambda>(r, y). ln (''            Verb::'' @ r @ '' => '' @ quoted y @ '','')) (as_str_arms verbs)) @
     ln ''        }'' @
     ln (ln ''    }'') @
     ln ''    pub fn from_wire(s: &str) -> Option<Self> {'' @
     ln ''        match s {'' @
     concat (map (\<lambda>(y, r). ln (''            '' @ quoted y @ '' => Some(Verb::'' @ r @ ''),'')) (from_wire_arms verbs)) @
     ln ''            _ => None,'' @
     ln ''        }'' @
     ln ''    }'' @
     ln (ln ''}'')"

definition emit_verb_request_structs :: "verb_def list \<Rightarrow> string" where
  "emit_verb_request_structs verbs =
     concat (map (\<lambda>v.
       emit_doc (verb_doc v) (verb_added v) @
       ln ''#[derive(Debug, Clone, Default, serde::Serialize, serde::Deserialize)]'' @
       ln (''pub struct '' @ verb_rust_name v @ ''Request {'') @ emit_fields (verb_params v) @ ln (ln ''}'') @
       (case verb_ret v of
          None \<Rightarrow> []
        | Some ret \<Rightarrow>
            ln (''/// Response payload for `'' @ verb_yaml_name v @ ''`.'') @
            ln (ln (''pub type '' @ verb_rust_name v @ ''Response = '' @ ret @ '';''))))
       (kept_verbs verbs))"

section \<open>The build script\<close>

fun collect_types :: "yhash \<Rightarrow> type_def list \<Rightarrow> type_def list" where
  "collect_types [] types = types"
| "collect_types ((n, tdef) # r) types =
     collect_types r
       (case yaml_as_str n of
          None \<Rightarrow> types
        | Some yaml_key \<Rightarrow>
            (case parse_type_entry yaml_key tdef of
               None \<Rightarrow> types
             | Some td \<Rightarrow> if td_name td \<in> td_name ` set types then types else types @ [td]))"

fun collect :: "yhash \<Rightarrow> type_def list \<times> verb_def list \<Rightarrow> type_def list \<times> verb_def list" where
  "collect [] acc = acc"
| "collect ((k, v) # r) (types, verbs) =
     collect r
       (case yaml_as_str k of
          None \<Rightarrow> (types, verbs)
        | Some key \<Rightarrow>
            (if key = ''types'' then
               (case yaml_hash v of None \<Rightarrow> (types, verbs) | Some h \<Rightarrow> (collect_types h types, verbs))
             else if CHR ''.'' \<in> set key then
               (case parse_verb key v of None \<Rightarrow> (types, verbs) | Some vd \<Rightarrow> (types, verbs @ [vd]))
             else (types, verbs)))"

definition name_list :: "string list \<Rightarrow> string" where
  "name_list names = concat (map (\<lambda>n. ln (''    '' @ quoted n @ '','')) (sort names)) @ ln (ln ''];'')"

definition generated :: "type_def list \<Rightarrow> verb_def list \<Rightarrow> string" where
  "generated types verbs =
     ln ''// Auto-generated from schema/vdsm-api.yml. DO NOT EDIT.'' @
     ln ''// Regenerate via `cargo build` after vendoring a new schema.'' @
     ln [] @
     ln ''/// Number of named types emitted from vdsm-api.yml.'' @
     ln (''pub const TYPE_COUNT: usize = '' @ nat_dec (length types) @ '';'') @
     ln ''/// Number of verbs emitted from vdsm-api.yml.'' @
     ln (''pub const VERB_COUNT: usize = '' @ nat_dec (length verbs) @ '';'') @
     ln [] @
     ln ''/// Sorted list of all type names from the schema.'' @
     ln ''pub const TYPES: &[&str] = &['' @
     name_list (map td_name types) @
     ln ''/// Sorted list of all verb names from the schema.'' @
     ln ''pub const VERBS: &[&str] = &['' @
     name_list (map verb_yaml_name verbs) @
     concat (map emit_type types) @ emit_verb_table verbs @ emit_verb_request_structs verbs"

text \<open>
  \<open>main\<close>: a panic is \<open>Inl\<close>. The parser reports the events it sees before an error.
\<close>

definition build_main ::
  "'x env \<Rightarrow> yaml_lib \<Rightarrow> (string \<Rightarrow> event list \<times> string option) \<Rightarrow> string \<Rightarrow> string \<Rightarrow> 'x os \<Rightarrow>
   (string, unit) result \<times> 'x os" where
  "build_main e lib parse manifest_dir out_dir s =
     (case Option.bind (path_parent manifest_dir) path_parent of
        None \<Rightarrow> (Inl ''vdsm-schema must live two levels deep in the workspace'', s)
      | Some root \<Rightarrow>
          (let schema = path_join root ''schema/vdsm-api.yml''
           in case read_to_string e schema s of
                Inl m \<Rightarrow> (Inl (''read '' @ schema @ '': '' @ m), s)
              | Inr raw \<Rightarrow>
                  (case parse (strip_anchors_and_aliases raw) of
                     (evs, err) \<Rightarrow>
                       (case load_events lib evs loader_default of
                          None \<Rightarrow> (Inl ''internal error: entered unreachable code'', s)
                        | Some l \<Rightarrow>
                            (case err of
                               Some m \<Rightarrow> (Inl (''parse '' @ schema @ '': '' @ m), s)
                             | None \<Rightarrow>
                                 (case docs l of
                                    [] \<Rightarrow> (Inl (''empty YAML in '' @ schema), s)
                                  | root_doc # _ \<Rightarrow>
                                      (case yaml_hash root_doc of
                                         None \<Rightarrow> (Inl ''root of vdsm-api.yml is not a mapping'', s)
                                       | Some h \<Rightarrow>
                                           (case collect h ([], []) of
                                              (types, verbs) \<Rightarrow>
                                                (case fs_write e (path_join out_dir ''generated.rs'') (generated types verbs) s of
                                                   (Inl m, s1) \<Rightarrow> (Inl (''write generated.rs: '' @ m), s1)
                                                 | (Inr _, s1) \<Rightarrow> (Inr (), s1))))))))))"

section \<open>Names are identifiers\<close>

lemma ascii_upper_cases:
  "is_ascii_alphanumeric c \<Longrightarrow> is_digit (ascii_upper c) \<or> is_ascii_uppercase (ascii_upper c)"
  by (auto simp: is_ascii_alphanumeric_def is_ascii_alphabetic_def is_ascii_uppercase_def is_ascii_lowercase_def
      ascii_upper_def is_digit_def of_char_of)

lemma pascal_from_chars: "list_all is_ascii_alphanumeric (pascal_from up s)"
  by (induction up s rule: pascal_from.induct)
    (use ascii_upper_cases in \<open>auto simp: is_ascii_alphanumeric_def is_ascii_uppercase_def is_ascii_alphabetic_def\<close>)

lemma pascal_from_head:
  "pascal_from True s \<noteq> [] \<Longrightarrow> is_digit (hd (pascal_from True s)) \<or> is_ascii_uppercase (hd (pascal_from True s))"
  by (induction s) (auto dest: ascii_upper_cases)

definition type_ident :: "string \<Rightarrow> bool" where
  "type_ident s \<longleftrightarrow> s \<noteq> [] \<and> is_ascii_uppercase (hd s) \<and> list_all ident_char s"

definition snake_char :: "char \<Rightarrow> bool" where
  "snake_char c \<longleftrightarrow> is_ascii_lowercase c \<or> is_digit c \<or> c = CHR ''_''"

definition field_ident :: "string \<Rightarrow> bool" where
  "field_ident s \<longleftrightarrow>
     s \<noteq> [] \<and> is_ascii_lowercase (hd s) \<and> list_all snake_char s \<and>
     last s \<noteq> CHR ''_''"

lemma pascal_type_ident: "type_ident (pascal s)"
proof -
  have "list_all ident_char (pascal_from True s)"
    using pascal_from_chars [of True s] by (auto simp: list_all_iff ident_char_def)
  then show ?thesis
    using pascal_from_head [of s]
    by (auto simp: pascal_def Let_def type_ident_def ident_char_def is_ascii_alphanumeric_def is_ascii_alphabetic_def
        is_ascii_uppercase_def)
qed

lemma snake_from_chars: "list_all snake_char out \<Longrightarrow> list_all snake_char (snake_from out prev s)"
proof (induction out prev s rule: snake_from.induct)
  case (2 out prev c s)
  have "snake_char (ascii_lower c)" if "is_ascii_uppercase c"
    using that by (simp add: ascii_lower_def is_ascii_uppercase_def snake_char_def is_ascii_lowercase_def of_char_of)
  moreover have "snake_char c" if "is_ascii_alphanumeric c" "\<not> is_ascii_uppercase c"
    using that by (auto simp: is_ascii_alphanumeric_def is_ascii_uppercase_def snake_char_def is_ascii_lowercase_def is_ascii_alphabetic_def)
  moreover have "list_all snake_char (push_underscore out)"
    using "2.prems" snake_char_def [of "CHR ''_''"] by (simp add: push_underscore_def)
  ultimately show ?case using 2 by auto
qed simp

lemma last_dropWhile: "dropWhile P xs \<noteq> [] \<Longrightarrow> last (dropWhile P xs) = last xs"
  by (induction xs) auto

lemma snake_field_ident: "field_ident (snake s)"
proof -
  let ?us = "\<lambda>c. c = CHR ''_''"
  define out where "out = dropWhile ?us (rev (dropWhile ?us (rev (snake_from [] False s))))"
  have sub: "set out \<subseteq> set (snake_from [] False s)" by (auto simp: out_def dest!: set_dropWhileD)
  have all: "list_all snake_char out"
    using snake_from_chars [of "[]" False s] sub by (auto simp: list_all_iff)
  have hd: "out \<noteq> [] \<Longrightarrow> hd out \<noteq> CHR ''_''" unfolding out_def by (rule hd_dropWhile)
  have last: "out \<noteq> [] \<Longrightarrow> last out \<noteq> CHR ''_''"
  proof -
    assume ne: "out \<noteq> []"
    let ?m = "rev (dropWhile ?us (rev (snake_from [] False s)))"
    have "last out = last ?m" using ne unfolding out_def by (rule last_dropWhile)
    moreover have ne_m: "dropWhile ?us (rev (snake_from [] False s)) \<noteq> []"
    proof
      assume "dropWhile ?us (rev (snake_from [] False s)) = []"
      then show False using ne unfolding out_def by (simp only: rev.simps dropWhile.simps simp_thms)
    qed
    moreover have "last ?m = hd (dropWhile ?us (rev (snake_from [] False s)))" by (rule last_rev)
    ultimately show "last out \<noteq> CHR ''_''" using hd_dropWhile [OF ne_m] by simp
  qed
  have snake: "snake s = (if out = [] then ''field'' else if is_digit (hd out) then ''f_'' @ out else out)"
    unfolding snake_def out_def Let_def by (rule refl)
  have chars: "list_all snake_char ''field''" "list_all snake_char ''f_''"
    by (simp_all add: snake_char_def is_ascii_lowercase_def)
  show ?thesis
  proof (cases out)
    case Nil
    then show ?thesis using chars by (simp add: snake field_ident_def is_ascii_lowercase_def)
  next
    case (Cons c r)
    then have c: "is_digit c \<or> is_ascii_lowercase c" using all hd by (auto simp: snake_char_def)
    have "field_ident (''f_'' @ out)" using chars all last Cons by (simp add: field_ident_def is_ascii_lowercase_def)
    moreover have "field_ident out" if "\<not> is_digit c" using c that all last Cons by (simp add: field_ident_def)
    ultimately show ?thesis using Cons by (simp add: snake)
  qed
qed

lemma keyword_facts: "list_all (\<lambda>k. last k \<noteq> CHR ''_'') RUST_KEYWORDS"
  by (simp add: RUST_KEYWORDS_def)


section \<open>What is kept\<close>

lemma keep_first_keys:
  "distinct (map key (keep_first key seen xs)) \<and> key ` set (keep_first key seen xs) = key ` set xs - set seen"
  by (induction key seen xs rule: keep_first.induct) auto

lemma keep_first_subset: "set (keep_first key seen xs) \<subseteq> set xs"
  by (induction key seen xs rule: keep_first.induct) auto

lemma keep_first_distinct: "distinct (map f xs) \<Longrightarrow> distinct (map f (keep_first key seen xs))"
proof (induction key seen xs rule: keep_first.induct)
  case (2 key seen x xs)
  then show ?case using keep_first_subset [of key "key x # seen" xs] by auto
qed simp

lemma keep_first_all: "distinct (map key xs) \<Longrightarrow> key ` set xs \<inter> set seen = {} \<Longrightarrow> keep_first key seen xs = xs"
  by (induction key seen xs rule: keep_first.induct) auto

lemma trim_raw_snake: "trim_raw (fst (rust_field_ident n)) = snake n"
proof -
  have f: "field_ident (snake n)" by (rule snake_field_ident)
  have "trim_raw s = s" if "list_all snake_char s" for s
  proof (cases s rule: trim_raw.cases)
    case (1 c d r)
    then show ?thesis using that by (auto simp: snake_char_def is_ascii_lowercase_def is_digit_def)
  qed auto
  then have "trim_raw (snake n) = snake n" using f by (simp add: field_ident_def)
  then show ?thesis by (simp add: rust_field_ident_def Let_def)
qed

lemma struct_fields:
  "distinct (map bare_field (keep_first bare_field [] ps))"
  "set (map bare_field (keep_first bare_field [] ps)) = (snake \<circ> prop_yaml_name) ` set ps"
  using keep_first_keys [of bare_field "[]" ps] by (auto simp: bare_field_def trim_raw_snake image_comp)

lemma collect_types_names: "distinct (map td_name types) \<Longrightarrow> distinct (map td_name (collect_types h types))"
  by (induction h types rule: collect_types.induct) (auto split: option.splits)

lemma collect_type_names:
  "distinct (map td_name (fst acc)) \<Longrightarrow> distinct (map td_name (fst (collect h acc)))"
  by (induction h acc rule: collect.induct) (auto split: option.splits simp: collect_types_names)

text \<open>The verbs are the keys with a dot that are bound to a mapping, in the order of the document.\<close>

definition verb_entry :: "yaml \<times> yaml \<Rightarrow> verb_def option" where
  "verb_entry kv =
     (case yaml_as_str (fst kv) of
        Some key \<Rightarrow> if CHR ''.'' \<in> set key then parse_verb key (snd kv) else None
      | None \<Rightarrow> None)"

lemma collect_verbs: "snd (collect h acc) = snd acc @ List.map_filter verb_entry h"
  by (induction h acc rule: collect.induct) (auto simp: verb_entry_def map_filter_simps split: option.splits)

lemma verb_entry_name: "verb_entry (k, v) = Some d \<Longrightarrow> k = YString (verb_yaml_name d)"
  by (auto simp: verb_entry_def parse_verb_def yaml_as_str_def split: option.splits if_splits yaml.splits)

lemma verb_names_distinct: "distinct (map fst h) \<Longrightarrow> distinct (map verb_yaml_name (List.map_filter verb_entry h))"
proof (induction h)
  case (Cons kv h)
  have "YString (verb_yaml_name d) \<in> fst ` set h" if "d \<in> set (List.map_filter verb_entry h)" for d
  proof -
    from that obtain k v where "(k, v) \<in> set h" "verb_entry (k, v) = Some d" by (auto simp: List.map_filter_def)
    then show ?thesis using verb_entry_name by force
  qed
  with Cons show ?case
    using verb_entry_name [of "fst kv" "snd kv"] by (auto simp: map_filter_simps split: option.splits)
qed (simp add: map_filter_simps)



section \<open>The whole build\<close>

text \<open>Documentation of the schema stays on one line, so it cannot leave its comment.\<close>

lemma split_ws_words: "NL \<notin> set acc \<Longrightarrow> w \<in> set (split_ws acc s) \<Longrightarrow> NL \<notin> set w"
proof (induction acc s arbitrary: w rule: split_ws.induct)
  case (2 acc c r)
  have "ws_at ws_encodings (NL # r) \<noteq> 0" by (simp add: ws_at_def ws_encodings_def starts_with_def)
  with 2 show ?case by (cases "c = NL") (auto split: if_splits)
qed simp

lemma esc_doc_one_line: "NL \<notin> set (esc_doc s)"
proof -
  have "NL \<notin> set w" if "w \<in> set (split_whitespace s)" for w
    using that split_ws_words [of "[]" w s] by (auto simp: split_whitespace_def)
  then show ?thesis using set_join_with [of "'' ''" "split_whitespace s"] by (auto simp: esc_doc_def)
qed


definition build_env_ex :: "unit env" where
  "build_env_ex =
     \<lparr>exec = (\<lambda>p args s. (Inl ENOENT, s)), fault = (\<lambda>op p s. None), dir_order = (\<lambda>ns. ns), dir_len = 4096\<rparr>"

definition build_os_ex :: "unit os" where
  "build_os_ex =
     \<lparr>files = [([''w''], NDir), ([''w'', ''schema''], NDir), ([''w'', ''schema'', ''vdsm-api.yml''], NFile ''X.y: &X {}''), ([''o''], NDir)],
      now_secs = 0, outside = ()\<rparr>"


end
