(* ===== verification/Spec2Isabelle.thy ===== *)
theory Spec2Isabelle
  imports Daemon_Run Supervdsm_Run Virt_Async Host_Info Vdsm_Tool Schema_Gen
begin

text \<open>
  A verification library for \<open>vdsm-rs\<close>, a host agent for oVirt written in Rust. The agent is three
  programs and a code generator. The daemon \<open>vdsmd\<close> accepts connections of the engine, reads JSON-RPC
  requests in STOMP frames or in lines, and runs the verb each one names against the storage, the
  virtual machines and the host; what needs root it asks of the helper \<open>supervdsmd\<close> over a local
  socket; \<open>vdsm-tool\<close> and \<open>vdsm-client\<close> are run by host-deploy; and the build script of
  \<open>vdsm-schema\<close> generates Rust types from the YAML schema of the protocol. All paths below are
  under \<open>src/crates\<close>.

  \<^bold>\<open>Theories and sources.\<close> What the sources use of Rust and of the system comes first.
  \<^item> \<open>Prelude\<close>: machine words, the two dictionary types with one interface (locale \<open>dict\<close>, interpreted
    for hash maps and for sorted maps), searching and cutting lists.
  \<^item> \<open>Rust_Str\<close>: strings as valid UTF-8 byte lists, white space, lines, decimal numbers.
  \<^item> \<open>Json\<close>: \<open>serde_json::Value\<close> and its accessors. \<open>Float64\<close>: \<open>f64\<close> with IEEE rounding.
  \<^item> \<open>Os\<close>: paths, the file tree and its operations with their errors, programs.

  The protocol:
  \<^item> \<open>Stomp\<close> (\<open>vdsm-rpc/src/stomp.rs\<close>): frames, \<open>to_bytes\<close>, the incremental \<open>parse_frame\<close>.
  \<^item> \<open>Rpc\<close> (\<open>protocol.rs\<close>, \<open>dispatch.rs\<close>): the envelope and the dispatcher.
  \<^item> \<open>Stream_Parser\<close>: what a connection loop needs of a parser (locales \<open>stream_parser\<close>,
    \<open>framed_codec\<close>, \<open>conn_loop\<close>), interpreted in \<open>Stomp\<close> and \<open>Server\<close> for frames and for lines.
  \<^item> \<open>Server\<close> (\<open>server.rs\<close>): the two connection handlers. \<open>Tls\<close> (\<open>tls.rs\<close>): loading certificate and key.

  The helper:
  \<^item> \<open>Supervdsm\<close> (\<open>vdsm-common/src/supervdsm.rs\<close>, \<open>supervdsm/src/exec.rs\<close>, \<open>main.rs\<close>): the closed set of
    privileged operations, their validation, the check of the peer, the client side of a call.
    \<open>Supervdsm_Run\<close>: the start of the root daemon with its socket, and its accept loop.

  Storage (\<open>vdsm-storage/src\<close>):
  \<^item> \<open>Storage_Conn\<close> (\<open>connection.rs\<close>, \<open>verbs.rs\<close>), \<open>Storage_Domain\<close> (\<open>sd_backend.rs\<close>, \<open>domain.rs\<close>),
    \<open>Storage_Volumes\<close> (\<open>volumes.rs\<close>), \<open>Storage_Block\<close> (\<open>block.rs\<close>). \<open>Kv_Meta\<close> is the format of
    metadata files (locale \<open>kv_format\<close>), interpreted for domains and for volumes.

  Virtual machines (\<open>vdsm-virt/src\<close>): \<open>Virt_Xml\<close> (\<open>domain_xml.rs\<close>) and \<open>Virt\<close> (\<open>lib.rs\<close>, \<open>verbs.rs\<close>).
  \<open>Virt_Async\<close> has the same verbs as programs, one node per await, clock reading or access to the registry
  under its lock, and interleaves them.

  The host (\<open>vdsm-host/src\<close>): \<open>Host_Sysinfo\<close> (\<open>sysinfo.rs\<close>), \<open>Host_Caps\<close> (\<open>caps.rs\<close>, \<open>hardware.rs\<close>,
  \<open>ping.rs\<close>, \<open>setup_networks.rs\<close>), \<open>Host_Info\<close> (the map \<open>caps.rs\<close> builds and drops), \<open>Host_Stats\<close> (\<open>stats.rs\<close>).

  The programs as a whole:
  \<^item> \<open>Vdsmd\<close> (\<open>vdsmd/src/main.rs\<close>, \<open>vdsm-common/src/config.rs\<close>, \<open>error.rs\<close>): configuration, the state of
    all components on one machine, the table of verbs. A component works on its part of that state
    (locale \<open>part\<close>, interpreted for storage, virtual machines and the machine).
  \<^item> \<open>Daemon_Run\<close>: the start of \<open>vdsmd\<close> and of its server, the accept loop and all connections at once.
  \<^item> \<open>Vdsm_Tool\<close> (\<open>vdsm-tool/src/main.rs\<close>, \<open>vdsm-client/src/main.rs\<close>).
  \<^item> \<open>Schema_Yaml\<close> and \<open>Schema_Gen\<close> (\<open>vdsm-schema/build.rs\<close>): from the text of the schema to its tree,
    and from the tree to the generated text.

  \<^bold>\<open>State and operations.\<close> A global of the program is a field of a record: the storage connections
  and the pool (\<open>storage\<close>), the registry of machines and the spawned tasks (\<open>virt\<close>), one machine under
  both (\<open>os\<close>), together \<open>daemon\<close>. A verb is a function from parameters and state to a result and a
  state; errors are \<open>Inl\<close>, panics a status or an error of their own. A connection is a function of
  the list of its read events; a spawned task is a value that is stepped, so that everything else may
  happen between its steps. Integers keep their width where the code can wrap.

  \<^bold>\<open>What is shown.\<close>
  \<^item> Protocol: frames survive writing and reading; how the stream is cut into reads does not matter;
    the server on bytes is the frame handler on frames; before the handshake nothing is done; the
    parser panics on one header value only.
  \<^item> Privileges: only validated command lines are run as root, all paths stay in their directories,
    whoever connects, root acts only for the permitted account, a restart replaces and narrows the
    socket, and a call reports what was done.
  \<^item> Storage: domains and volumes are read back as created, connections and the pool are tracked, and
    deletion is confined; where mount points collide, texts inject metadata or sizes wrap.
  \<^item> Machines: the description carries what was asked for, the registry follows the requests and the
    running machines, shutting down ends. Interleaved at every await, requests, reconciliations and
    tasks keep the registry sound, never deadlock and are all answered; run alone, each is the verb of
    the table. Two races of the code: the stale watchdog, and the record a reconciliation loses.
  \<^item> Host: the calendar computation is the Gregorian one, the capabilities are complete, the tool and
    the daemon agree on the identifier of the host.
  \<^item> Schema: the generator as a whole, its loader, its names and its verb table.
  \<^item> Composition: a request from its bytes to its answer (below); any interleaving of connections,
    tasks and machine events moves the daemon as single requests do and keeps its invariant.

  \<^bold>\<open>Bounds.\<close> There is no fuel: every loop of the model is a recursion with a measure or a fold over its
  input. Buffers are assumed shorter than \<open>2 ^ 63\<close> bytes, the bound of every Rust vector, in the
  statements that mention it.

  \<^bold>\<open>Parameters.\<close> Code outside the repository is an argument: the text codecs of \<open>serde_json\<close> and
  \<open>toml\<close>, the parser of \<open>yaml-rust2\<close> with its hash table, \<open>rustls\<close>, programs such as \<open>virsh\<close>, \<open>mount\<close>,
  \<open>lvcreate\<close> and \<open>openssl\<close>, failures of the file system, the order of hash maps and directories. What a
  theorem needs of them is a hypothesis of it and has an instance in its witness.

  \<^bold>\<open>Not modelled.\<close> Network sockets and the TLS record layer: they deliver bytes, accept and fail as the
  environment likes. Interleaving inside the handlers of storage verbs: each is one step. (The
  pool verbs change their state in one critical section; what is given up is the time between the
  programs the others run.) Symbolic links and permissions of the file tree, except the bits \<open>vdsm-tool\<close> sets and those of the socket
  of the helper. The parsing of command lines by \<open>clap\<close>; the end of a daemon by a signal; logging
  (\<open>vdsm-common/src/logging.rs\<close>), except where a log statement can panic. \<open>vdsm-network\<close> is an empty
  stub.
\<close>

section \<open>From the bytes of the engine to the verb and back\<close>

text \<open>
  C2: a request of the engine is served from end to end. When the bytes of a handshake and of one
  request arrive, in whatever pieces, the daemon runs the registered verb on its state once and
  has written exactly two frames: the acceptance of the handshake, and the answer of the verb
  with the identifier of the request, sent where the request asked for it.
\<close>

theorem engine_request_served:
  assumes "dispatcher s = verb_table w" "command cf = ''CONNECT''" "command f = ''SEND''" "frame_ok cf" "frame_ok f"
    and "concat ds = to_bytes cf @ to_bytes f" "\<forall>x \<in> set ds. x \<noteq> []" "length (concat ds) < 2 ^ 64" "2 \<le> n"
    and "from_utf8 (body f) = Inr t" "de_request s t = Inr req" "req_id req = Some i"
    and "invoke (verb_table w) (req_method req) (req_params req) d = (res, d')"
    and "ser_response s (case res of Inr v \<Rightarrow> response_ok (Some i) v | Inl e \<Rightarrow> response_err (Some i) e) = Inr b"
  shows "\<exists>c. outcome (serve_stomp s [] (conn_init n d) (map Data ds)) = (Running, c) \<and> world c = d' \<and> connected c \<and>
    sent c = to_bytes (connected_frame ''1.2'' SERVER_ID (Some (''vdsm-rs-'' @ peer s))) @
      to_bytes (message_frame (reply_dest s f []) (reply_sub s [] (reply_dest s f [])) b)"
proof -
  let ?c1 = "(conn_init n d)\<lparr>sent := to_bytes (connected_frame ''1.2'' SERVER_ID (Some (''vdsm-rs-'' @ peer s))),
      writes_left := n - 1, connected := True\<rparr>"
  have one: "handle_frame s cf (conn_init n d) = (Running, ?c1)"
    using assms(2,9) by (simp add: handle_frame_def conn_init_def send_frame_def write_all_def)
  have two: "handle_frame s f ?c1 =
      (Running, ?c1\<lparr>world := d', writes_left := writes_left ?c1 - 1,
         sent := sent ?c1 @ to_bytes (message_frame (reply_dest s f (subscriptions ?c1))
           (reply_sub s (subscriptions ?c1) (reply_dest s f (subscriptions ?c1))) b)\<rparr>)"
    by (rule send_answered [where w' = d' and res = res and req = req and i = i and t = t])
      (use assms in \<open>simp_all add: conn_init_def\<close>)
  have "outcome (serve_stomp s [] (conn_init n d) (map Data ds)) = run_frames s [cf, f] (conn_init n d)"
    by (rule serves_frames) (use assms in simp_all)
  also have "\<dots> = handle_frame s f ?c1" using one two by simp
  finally show ?thesis unfolding two by (simp add: conn_init_def)
qed

lemma ping_lookups:
  "map_of (rev (all_storage_verbs w)) ''Host.ping2'' = None" "map_of (rev (vm_verbs w)) ''Host.ping2'' = None"
  "map_of (rev (host_verbs w)) ''Host.ping2'' = Some ping2"
  unfolding all_storage_verbs_def storage_verbs_def block_verbs_def vm_verbs_def host_verbs_def Let_def
  by (simp_all only: append_Cons append_Nil rev.simps map_of.simps fst_conv snd_conv fun_upd_apply list.inject char.inject
      simp_thms if_True if_False list.distinct)

theorem engine_request_served_witness:
  "\<exists>c. outcome (serve_stomp sample_engine [] (conn_init 2 (daemon_start sample_os))
       [Data (to_bytes (frame_new ''CONNECT'')), Data (to_bytes (with_body ''Host.ping2'' (frame_new ''SEND'')))]) = (Running, c) \<and>
     world c = daemon_start sample_os"
proof -
  let ?cf = "frame_new ''CONNECT''" and ?f = "with_body ''Host.ping2'' (frame_new ''SEND'')"
  let ?req = "\<lparr>req_jsonrpc = ''2.0'', req_method = ''Host.ping2'', req_params = JNull, req_id = Some (JStr ''7'')\<rparr>"
  have ok: "frame_ok ?cf" "frame_ok ?f" by (auto simp: frame_ok_def frame_new_def with_body_def header_def)
  obtain v where ping: "invoke (verb_table sample_outer) ''Host.ping2'' JNull (daemon_start sample_os) =
      (Inr v, daemon_start sample_os)"
    by (simp add: invoke_verb ping_lookups ping2_def fixed_answer_def)
  have "\<exists>c. outcome (serve_stomp sample_engine [] (conn_init 2 (daemon_start sample_os)) (map Data [to_bytes ?cf, to_bytes ?f])) =
      (Running, c) \<and> world c = daemon_start sample_os \<and> connected c \<and>
      sent c = to_bytes (connected_frame ''1.2'' SERVER_ID (Some (''vdsm-rs-'' @ peer sample_engine))) @
        to_bytes (message_frame (reply_dest sample_engine ?f []) (reply_sub sample_engine [] (reply_dest sample_engine ?f [])) ''ok'')"
    by (rule engine_request_served [where req = ?req and i = "JStr ''7''" and t = "''Host.ping2''" and res = "Inr v" and w = sample_outer])
      (simp_all add: ping ok, simp_all add: sample_engine_def frame_new_def with_body_def to_bytes_def response_ok_def)
  then show ?thesis by auto
qed

end
